theory Spec2Isabelle
  imports Complex_Main "HOL-Library.Product_Lexorder" "HOL-Library.AList" "HOL-Library.Log_Nat"
begin

section \<open>JavaScript strings\<close>

text \<open>
  A JavaScript string is a sequence of UTF-16 code units, and \<open>length\<close>, \<open>slice\<close>,
  \<open>trim\<close> and the regular expressions of the plugins (none has the \<open>u\<close> flag) all work
  on code units. A string is therefore a list of code units, each a natural number
  (a real code unit is below 65536; nothing below depends on that bound). \<open>U\<close> embeds
  an ASCII literal.
\<close>

type_synonym jstring = "nat list"

definition U :: "string \<Rightarrow> jstring" where
  "U s = map of_char s"

text \<open>
  The white space of \<open>String.prototype.trim\<close> and of the class \<open>\s\<close>: the ECMAScript
  WhiteSpace and LineTerminator code points.
\<close>

definition js_space :: "nat \<Rightarrow> bool" where
  "js_space c = (c = 9 \<or> c = 10 \<or> c = 11 \<or> c = 12 \<or> c = 13 \<or> c = 32 \<or> c = 160
     \<or> c = 5760 \<or> (8192 \<le> c \<and> c \<le> 8202) \<or> c = 8232 \<or> c = 8233 \<or> c = 8239
     \<or> c = 8287 \<or> c = 12288 \<or> c = 65279)"

definition js_trimStart :: "jstring \<Rightarrow> jstring" where
  "js_trimStart s = dropWhile js_space s"

definition js_trimEnd :: "jstring \<Rightarrow> jstring" where
  "js_trimEnd s = rev (dropWhile js_space (rev s))"

definition js_trim :: "jstring \<Rightarrow> jstring" where
  "js_trim s = js_trimEnd (js_trimStart s)"

text \<open>
  \<open>xs.slice(0, n)\<close> for an integer \<open>n\<close>, on strings and arrays alike: a negative end
  counts from the end of the sequence.
\<close>

definition js_slice0 :: "'a list \<Rightarrow> int \<Rightarrow> 'a list" where
  "js_slice0 xs n = (if n < 0 then take (nat (int (length xs) + n)) xs else take (nat n) xs)"

section \<open>Data model\<close>

text \<open>
  A scored candidate \<^verbatim>\<open>{ text, category, score }\<close>; the field names carry the prefix
  \<open>s_\<close>. A score is a finite double (\<open>scoreCandidate\<close> returns one between 0 and 1, the
  fallback is a number of the search result), given by its exact value, a rational.
\<close>

record scored =
  s_text :: jstring
  s_category :: jstring
  s_score :: rat

text \<open>
  The three fields of the reranker's normalised configuration that the selection reads
  (\<open>cfg.minScore\<close>, \<open>cfg.minGap\<close>, \<open>cfg.maxDocuments\<close>), finite doubles too:
  \<open>normalizeConfig\<close> clamps the first two to \<open>[0, 1]\<close> and makes the third at least 1
  (it need not be an integer).
\<close>

record rerank_cfg =
  rr_minScore :: rat
  rr_minGap :: rat
  rr_maxDocuments :: rat

text \<open>
  The ledger file \<open>meta.json\<close>. A field that the code creates lazily, or tests with
  \<open>!== undefined\<close> or \<open>Number.isFinite\<close>, is an option (\<open>None\<close>: the field is absent).
  Counters, character counts and times are integers (doubles below \<open>2^53\<close>, which
  hold them exactly); the baseline is a rational.

  \<open>layer_entry\<close> is an object on which the routing code keeps the counters of a layer,
  given by the seven own properties that this code reads or writes on it; \<open>None\<close> is an
  absent own property (for \<open>last_activated_at\<close> also \<open>null\<close>). A rate is a double or,
  when \<open>useful_up\<close> was undefined in the quotient, \<open>NaN\<close>.
\<close>

datatype jsnum = Num rat | NaN

record layer_entry =
  activations :: "int option"
  chars_injected :: "int option"
  useful_up :: "int option"
  useful_down :: "int option"
  last_activated_at :: "int option"
  useful_rate :: "jsnum option"
  last_feedback_at :: "int option"

text \<open>
  \<open>routing_stats\<close>; \<open>layers\<close> gives the own properties of the object \<open>stats.layers\<close> (an
  absent \<open>layers\<close> is the empty object the code puts there).
\<close>

record routing_stats =
  layers :: "jstring \<rightharpoonup> layer_entry"
  total_activations :: "int option"
  total_chars_injected :: "int option"
  current_session_chars :: "int option"
  current_session_activations :: "int option"
  last_updated_at :: "int option"
  sessions :: "int option"
  total_session_chars :: "int option"
  total_session_activations :: "int option"
  after_routing_avg :: "int option"
  last_session_chars :: "int option"
  last_session_activations :: "int option"

text \<open>
  \<open>meta.token_savings\<close>; its copy of \<open>after_routing_avg\<close> carries the prefix \<open>ts_\<close>.
  \<open>before_routing_avg\<close> is \<open>None\<close> when the field is absent or not a finite number
  (\<open>Number.isFinite(Number(token.before_routing_avg))\<close> is false).
\<close>

record token_savings =
  ts_after_routing_avg :: "int option"
  before_routing_avg :: "rat option"
  saved_last_session :: "int option"
  saved_total :: "int option"
  week_start :: "int option"
  saved_this_week :: "int option"

text \<open>
  The two members of the ledger document that routing and token savings touch (the
  other members, such as \<open>toolCalls\<close>, are not read or written by these functions).
\<close>

record meta =
  routing_stats :: "routing_stats option"
  token_savings :: "token_savings option"

text \<open>
  The table \<open>stats.layers\<close> is a plain object, and \<open>layers[name]\<close> also finds what the
  object inherits from \<open>Object.prototype\<close>. \<open>realm\<close> is the part of the built-in objects
  that the ledger code can reach in this way and write on: the properties, among the
  seven, that have been put on \<open>Object.prototype\<close> itself, and those put on the
  functions that \<open>Object.prototype\<close> holds, by the name under which it holds them
  (\<open>constructor\<close> is \<open>Object\<close>). The modules are ECMAScript modules, hence strict code:
  an assignment to a property of a number throws a \<open>TypeError\<close>.
\<close>

record realm =
  object_prototype :: layer_entry
  prototype_functions :: "jstring \<Rightarrow> layer_entry"

datatype js_exception = TypeError

text \<open>
  What \<open>layers[name]\<close> evaluates to: an entry of the table, \<open>Object.prototype\<close> (through
  the accessor \<open>__proto__\<close>), one of its functions, a number that is truthy, or a value
  that is falsy (\<open>undefined\<close>, 0, \<open>NaN\<close>).
\<close>

datatype found = OwnEntry layer_entry | ObjectPrototype | PrototypeFunction jstring | Primitive | Falsy

text \<open>
  Host events. \<open>event.messages\<close> is a list of messages; an element that is not an
  object is \<open>None\<close>. The content of a message is a string, an array of blocks, or
  anything else; a block is a text block (\<open>type === "text"\<close> with a string \<open>text\<close>) or
  anything else.
\<close>

datatype block = TextBlock jstring | OtherBlock

datatype content = CString jstring | CBlocks "block list" | COther

record message =
  role :: jstring
  content :: content

text \<open>
  An external call that fails throws (its promise rejects); \<open>ExternalCallError m\<close> is
  the thrown error with message \<open>m\<close>. A handler returns \<open>Inl e\<close> when \<open>e\<close> escapes it,
  that is, when the promise the host awaits rejects.
\<close>

datatype error = ExternalCallError jstring

text \<open>
  What a handler does to the outside, in order: embedding requests, vector searches
  and writes (with the table name), warnings logged through \<open>api.logger.warn\<close>, calls of
  \<open>recordRouting\<close> and writes of the entity index file.
\<close>

record index_entry =
  ix_name :: jstring
  ix_type :: jstring
  ix_summary :: jstring
  ix_updatedAt :: int

datatype ('v, 'w) call =
    Embed jstring
  | Search jstring 'v int
  | Store jstring 'w
  | Warn jstring
  | Routing jstring int
  | SaveIndex "(jstring \<times> index_entry) list"

text \<open>
  The environment of a plugin: the embedding provider, the vector store (\<open>table.add\<close>
  behind \<open>VectorTable.store\<close>, \<open>vectorSearch\<close> behind \<open>VectorTable.search\<close>, both with the
  table name, failures of \<open>ensureInitialized\<close> included), the clock, and the built-in
  \<open>String.prototype.toLowerCase\<close>. The first argument of a call is the number of
  external actions of the handler so far, so that a service may answer the same
  request differently at different times. \<open>'v\<close> is the type of vectors, \<open>'w\<close> of rows
  written, \<open>'f\<close> of rows found.
\<close>

record ('v, 'w, 'f) env =
  embed :: "nat \<Rightarrow> jstring \<Rightarrow> error + 'v"
  store :: "nat \<Rightarrow> jstring \<Rightarrow> 'w \<Rightarrow> error + unit"
  vectorSearch :: "nat \<Rightarrow> jstring \<Rightarrow> 'v \<Rightarrow> int \<Rightarrow> error + 'f list"
  date_now :: int
  toLowerCase :: "jstring \<Rightarrow> jstring"

text \<open>Goal plugin: normalised configuration, parsed goal, row written, row found.\<close>

record goal_cfg =
  g_recallLimit :: int
  g_minScore :: real
  g_halfLifeDays :: real
  g_alwaysRecall :: bool
  g_maxChars :: int
  g_redaction_enabled :: bool

record goal =
  goal_goal :: jstring
  goal_status :: jstring
  goal_priority :: jstring
  goal_owner :: jstring
  goal_details :: "jstring list"

record goal_meta =
  gm_goal :: jstring
  gm_status :: jstring
  gm_priority :: jstring
  gm_owner :: jstring
  gm_details :: jstring
  gm_capturedAt :: int

record 'v goal_row =
  gr_text :: jstring
  gr_vector :: 'v
  gr_status :: jstring
  gr_priority :: jstring
  gr_owner :: jstring
  gr_meta :: goal_meta

record goal_found =
  gf_text :: jstring
  gf_status :: jstring
  gf_priority :: jstring
  gf_updatedAt :: "int option"
  gf_distance :: "real option"

text \<open>Timeline plugin: the row written and its \<open>meta\<close> object.\<close>

record timeline_meta =
  tm_event :: jstring
  tm_occurredAt :: int
  tm_recordedAt :: int

record 'v timeline_row =
  tr_text :: jstring
  tr_vector :: 'v
  tr_occurredAt :: int
  tr_recordedAt :: int
  tr_meta :: timeline_meta

text \<open>Entity plugin: extracted entity, row written and its \<open>meta\<close> object.\<close>

record entity =
  en_type :: jstring
  en_name :: jstring
  en_details :: "jstring list"

record entity_meta =
  em_name :: jstring
  em_type :: jstring
  em_details :: jstring
  em_capturedAt :: int

record 'v entity_row =
  er_text :: jstring
  er_vector :: 'v
  er_name :: jstring
  er_type :: jstring
  er_meta :: entity_meta

text \<open>
  Episodic/procedural plugin: the configuration of one of its two layers, and a row
  found (\<open>ef_patternKey\<close> is \<open>JSON.parse(row.meta).patternKey\<close>, empty when absent or when
  the parse fails); \<open>procedures-stats.json\<close> maps a pattern key to its success and total
  counts.
\<close>

record layer_cfg =
  l_enabled :: bool
  l_alwaysRecall :: bool
  l_recallLimit :: int
  l_minScore :: real
  l_halfLifeDays :: real

record epiproc_cfg =
  episodic :: layer_cfg
  procedural :: layer_cfg

record epiproc_found =
  ef_text :: jstring
  ef_createdAt :: int
  ef_patternKey :: jstring
  ef_distance :: "real option"

text \<open>Entity plugin: normalised configuration.\<close>

record entity_cfg =
  e_recallLimit :: int
  e_minScore :: real
  e_alwaysRecall :: bool
  e_maxChars :: int
  e_redaction_enabled :: bool

text \<open>Timeline and graph plugins: normalised configuration and row found.\<close>

record timeline_cfg =
  t_recallLimit :: int
  t_minScore :: real
  t_halfLifeDays :: real
  t_alwaysRecall :: bool
  t_maxChars :: int

record timeline_found =
  tf_text :: jstring
  tf_occurredAt :: "int option"
  tf_recordedAt :: "int option"
  tf_distance :: "real option"

record graph_cfg =
  x_recallLimit :: int
  x_minScore :: real
  x_halfLifeDays :: real
  x_alwaysRecall :: bool
  x_maxChars :: int

record graph_found =
  xf_text :: jstring
  xf_createdAt :: int
  xf_distance :: "real option"

text \<open>
  Entity plugin, recall side: a row found, and the \<open>{ name, type, summary }\<close> objects
  that the handler merges from the index and from the vector search.
\<close>

record entity_found =
  nf_name :: jstring
  nf_type :: jstring
  nf_text :: jstring
  nf_distance :: "real option"

record entity_view =
  ev_name :: jstring
  ev_type :: jstring
  ev_summary :: jstring

section \<open>Truncation at the formatting boundary\<close>

text \<open>
  \<^verbatim>\<open>
  function truncate(text, maxChars) {
    if (!text || typeof text !== "string") return "";
    if (text.length <= maxChars) return text;
    return text.slice(0, maxChars).trim() + "...";
  }
  \<close>
  The same function is in the goal, timeline, entity, graph, episodic/procedural and
  tool-skill plugins. The argument is a string here (every call site passes one); the
  empty string is the falsy one.
\<close>

definition truncate :: "jstring \<Rightarrow> int \<Rightarrow> jstring" where
  "truncate text maxChars =
     (if text = [] then []
      else if int (length text) \<le> maxChars then text
      else js_trim (js_slice0 text maxChars) @ U ''...'')"

text \<open>
  The reranker's copy ends in the single character U+2026 (horizontal ellipsis):
  \<^verbatim>\<open>return text.slice(0, maxChars).trim() + "\\u2026";\<close> (the source has the character itself).
\<close>

definition truncate_rerank :: "jstring \<Rightarrow> int \<Rightarrow> jstring" where
  "truncate_rerank text maxChars =
     (if text = [] then []
      else if int (length text) \<le> maxChars then text
      else js_trim (js_slice0 text maxChars) @ [8230])"

text \<open>
  The truncation the specification describes: the first \<open>maxChars\<close> characters with
  trailing white space trimmed, plus three dots.
\<close>

definition truncate_spec :: "jstring \<Rightarrow> nat \<Rightarrow> jstring" where
  "truncate_spec s maxChars =
     (if length s \<le> maxChars then s else js_trimEnd (take maxChars s) @ U ''...'')"

section \<open>Double-precision arithmetic\<close>

text \<open>
  JavaScript numbers are IEEE 754 doubles. A finite double is given here by its exact
  value, a rational, and an arithmetic operation on doubles is the exact operation
  followed by \<open>fround\<close>, rounding to the nearest double, a tie to the one with the even
  significand. \<open>flog2 x\<close> is the exponent \<open>e\<close> with \<open>2^e \<le> x < 2^(e+1)\<close> of a positive
  \<open>x\<close>; a double has 53 significant bits, and below \<open>2^-1022\<close> the spacing stays
  \<open>2^-1074\<close>. Beyond the largest double an operation gives an infinity, where \<open>fround\<close>
  gives a finite value of at least \<open>2^1024\<close> in magnitude: a comparison with a finite
  double comes out the same, and no other computation below comes near it.
  A decimal literal \<open>q\<close> of the program, and \<open>Number(s)\<close> for a decimal string \<open>s\<close> of value
  \<open>q\<close>, is the double \<open>fround q\<close>.
\<close>

definition flog2 :: "rat \<Rightarrow> int" where
  "flog2 x = (if 1 \<le> x then bitlen \<lfloor>x\<rfloor> - 1 else - bitlen (\<lceil>1 / x\<rceil> - 1))"

text \<open>The nearest integer, a tie to the even one.\<close>

definition rne :: "rat \<Rightarrow> int" where
  "rne q = (let f = \<lfloor>q\<rfloor>; d = q - of_int f
            in if d < 1 / 2 then f else if 1 / 2 < d then f + 1 else if even f then f else f + 1)"

definition fround :: "rat \<Rightarrow> rat" where
  "fround x = (if x = 0 then 0
               else let e = max (flog2 \<bar>x\<bar>) (- 1022) - 52
                    in of_int (rne (x / 2 powi e)) * 2 powi e)"

text \<open>
  The integer that \<open>Array.prototype.slice\<close> makes of a finite bound (ToIntegerOrInfinity):
  the fraction is dropped.
\<close>

definition js_trunc :: "rat \<Rightarrow> int" where
  "js_trunc x = (if x < 0 then \<lceil>x\<rceil> else \<lfloor>x\<rfloor>)"

section \<open>Top-cluster selection (reranker)\<close>

text \<open>
  The loop of \<open>selectTopCluster\<close>, with \<open>selected\<close> as the accumulator:
  \<^verbatim>\<open>
  for (const item of sorted) {
    if (item.score < cfg.minScore) continue;
    if (selected.length === 0) { selected.push(item); continue; }
    const prev = selected[selected.length - 1];
    if (prev.score - item.score <= cfg.minGap) selected.push(item); else break;
    if (selected.length >= cfg.maxDocuments) break;
  }
  \<close>
  The two comparisons of scores are exact; the difference \<open>prev.score - item.score\<close> is
  a double subtraction.
\<close>

fun cluster_loop :: "rerank_cfg \<Rightarrow> scored list \<Rightarrow> scored list \<Rightarrow> scored list" where
  "cluster_loop cfg selected [] = selected"
| "cluster_loop cfg selected (item # rest) =
     (if s_score item < rr_minScore cfg then cluster_loop cfg selected rest
      else if selected = [] then cluster_loop cfg [item] rest
      else if fround (s_score (last selected) - s_score item) \<le> rr_minGap cfg then
        (let selected' = selected @ [item]
         in if of_nat (length selected') \<ge> rr_maxDocuments cfg then selected'
            else cluster_loop cfg selected' rest)
      else selected)"

text \<open>
  \<^verbatim>\<open>
  if (selected.length === 0) return sorted.slice(0, cfg.maxDocuments);
  return selected.slice(0, cfg.maxDocuments);
  \<close>
\<close>

definition selectTopCluster :: "scored list \<Rightarrow> rerank_cfg \<Rightarrow> scored list" where
  "selectTopCluster sorted_items cfg =
     (let selected = cluster_loop cfg [] sorted_items
      in if selected = [] then js_slice0 sorted_items (js_trunc (rr_maxDocuments cfg))
         else js_slice0 selected (js_trunc (rr_maxDocuments cfg)))"

text \<open>
  The selector as the specification words it: walk the list; skip every item below
  \<open>minScore\<close>; take the first qualifying item; keep accepting while the drop from the
  previously selected item is at most \<open>maxGap\<close>; stop at the first gap break or at
  \<open>maxCount\<close> items; if nothing qualified, fall back to the first \<open>maxCount\<close> items.
  The drop is a parameter: \<open>exact_drop\<close> is the difference of the two scores,
  \<open>double_drop\<close> the difference as double arithmetic computes it.
\<close>

definition exact_drop :: "rat \<Rightarrow> rat \<Rightarrow> rat" where
  "exact_drop prev cur = prev - cur"

definition double_drop :: "rat \<Rightarrow> rat \<Rightarrow> rat" where
  "double_drop prev cur = fround (prev - cur)"

fun gap_from :: "(rat \<Rightarrow> rat \<Rightarrow> rat) \<Rightarrow> rat \<Rightarrow> rat \<Rightarrow> scored list \<Rightarrow> scored list" where
  "gap_from diff g prev [] = []"
| "gap_from diff g prev (y # ys) =
     (if diff prev (s_score y) \<le> g then y # gap_from diff g (s_score y) ys else [])"

fun gap_run :: "(rat \<Rightarrow> rat \<Rightarrow> rat) \<Rightarrow> rat \<Rightarrow> scored list \<Rightarrow> scored list" where
  "gap_run diff g [] = []"
| "gap_run diff g (x # xs) = x # gap_from diff g (s_score x) xs"

definition selectCluster_spec ::
  "(rat \<Rightarrow> rat \<Rightarrow> rat) \<Rightarrow> scored list \<Rightarrow> rat \<Rightarrow> rat \<Rightarrow> nat \<Rightarrow> scored list" where
  "selectCluster_spec diff itemsSortedDesc minScore maxGap maxCount =
     (let qualifying = filter (\<lambda>i. \<not> s_score i < minScore) itemsSortedDesc
      in if qualifying = [] then take maxCount itemsSortedDesc
         else take maxCount (gap_run diff maxGap qualifying))"

section \<open>Temporal decay\<close>

text \<open>
  Goal and timeline plugins (the timeline passes \<open>occurredAt\<close>):
  \<^verbatim>\<open>
  function computeDecayScore(score, updatedAt, halfLifeDays) {
    const ageMs = Math.max(0, Date.now() - (updatedAt || Date.now()));
    const halfLifeMs = halfLifeDays * 24 * 60 * 60 * 1000;
    if (halfLifeMs <= 0) return score;
    const decay = Math.exp(-ageMs / halfLifeMs);
    return score * decay;
  }
  \<close>
  Numbers are reals, timestamps integer milliseconds, and the clock \<open>Date.now()\<close> is the
  parameter \<open>now\<close> (one value for both reads). The timestamp of a row is optional:
  \<open>None\<close> is a missing (\<open>undefined\<close> or \<open>null\<close>) field; like \<open>0\<close> it is falsy, and
  \<open>updatedAt || Date.now()\<close> replaces it by the clock.
\<close>

definition computeDecayScore :: "int \<Rightarrow> real \<Rightarrow> int option \<Rightarrow> real \<Rightarrow> real" where
  "computeDecayScore now score updatedAt halfLifeDays =
     (let ageMs = max 0 (now - (case updatedAt of None \<Rightarrow> now | Some t \<Rightarrow> if t = 0 then now else t));
          halfLifeMs = halfLifeDays * 24 * 60 * 60 * 1000
      in if halfLifeMs \<le> 0 then score
         else score * exp (- real_of_int ageMs / halfLifeMs))"

text \<open>
  Episodic/procedural and graph plugins: the same function without the fallback,
  \<^verbatim>\<open>const ageMs = Math.max(0, Date.now() - createdAt);\<close>
\<close>

definition computeDecayScore_createdAt :: "int \<Rightarrow> real \<Rightarrow> int \<Rightarrow> real \<Rightarrow> real" where
  "computeDecayScore_createdAt now score createdAt halfLifeDays =
     (let ageMs = max 0 (now - createdAt);
          halfLifeMs = halfLifeDays * 24 * 60 * 60 * 1000
      in if halfLifeMs \<le> 0 then score
         else score * exp (- real_of_int ageMs / halfLifeMs))"

text \<open>
  The ranker of the specification: \<open>adjusted = rawScore * exp(-ageMs / halfLifeMs)\<close> with
  \<open>ageMs = max(0, now - recordTimestamp)\<close> and \<open>halfLifeMs = halfLifeDays * 86_400_000\<close>;
  \<open>rawScore\<close> unchanged when \<open>halfLifeDays <= 0\<close>.
\<close>

definition adjust_spec :: "int \<Rightarrow> real \<Rightarrow> int \<Rightarrow> real \<Rightarrow> real" where
  "adjust_spec now rawScore recordTimestamp halfLifeDays =
     (if halfLifeDays \<le> 0 then rawScore
      else rawScore * exp (- real_of_int (max 0 (now - recordTimestamp)) / (halfLifeDays * 86400000)))"

section \<open>Routing ledger\<close>

text \<open>\<open>x || 0\<close> on an optional number.\<close>

definition or0 :: "int option \<Rightarrow> int" where
  "or0 x = (case x of None \<Rightarrow> 0 | Some v \<Rightarrow> v)"

text \<open>
  \<open>Math.round\<close> rounds to the nearest integer, a tie towards plus infinity.
\<close>

definition js_round :: "rat \<Rightarrow> int" where
  "js_round x = \<lfloor>x + 1 / 2\<rfloor>"

text \<open>
  \<open>x.toFixed(2)\<close> for a double \<open>x\<close> of magnitude below \<open>10^21\<close>, as the value of the
  decimal string: the multiple of 1/100 nearest to the exact value of \<open>x\<close>, of two
  equally near ones the larger, computed on the magnitude with the sign put back
  (ECMAScript, Number.prototype.toFixed). \<open>Number\<close> of the string is \<open>fround\<close> of that
  value.
\<close>

definition toFixed2 :: "rat \<Rightarrow> rat" where
  "toFixed2 x = (if x < 0 then - (of_int \<lfloor>- x * 100 + 1 / 2\<rfloor> / 100)
                 else of_int \<lfloor>x * 100 + 1 / 2\<rfloor> / 100)"

text \<open>\<open>meta.routing_stats || (meta.routing_stats = {})\<close>: the empty object.\<close>

definition empty_stats :: routing_stats where
  "empty_stats = \<lparr>layers = Map.empty, total_activations = None, total_chars_injected = None,
     current_session_chars = None, current_session_activations = None, last_updated_at = None,
     sessions = None, total_session_chars = None, total_session_activations = None,
     after_routing_avg = None, last_session_chars = None, last_session_activations = None\<rparr>"

definition stats_of :: "meta \<Rightarrow> routing_stats" where
  "stats_of m = (case routing_stats m of None \<Rightarrow> empty_stats | Some st \<Rightarrow> st)"

text \<open>
  \<open>fresh_entry\<close> is the entry that \<open>ensureLayer\<close> and \<open>applyFeedback\<close> create for an
  unknown layer, \<open>no_props\<close> an object with none of the seven properties, and
  \<open>pristine_realm\<close> the built-in objects before this code has written on them.
\<close>

definition fresh_entry :: layer_entry where
  "fresh_entry = \<lparr>activations = Some 0, chars_injected = Some 0, useful_up = Some 0,
     useful_down = Some 0, last_activated_at = None, useful_rate = None, last_feedback_at = None\<rparr>"

definition no_props :: layer_entry where
  "no_props = \<lparr>activations = None, chars_injected = None, useful_up = None,
     useful_down = None, last_activated_at = None, useful_rate = None, last_feedback_at = None\<rparr>"

definition pristine_realm :: realm where
  "pristine_realm = \<lparr>object_prototype = no_props, prototype_functions = (\<lambda>name. no_props)\<rparr>"

text \<open>
  The own properties of \<open>Object.prototype\<close> that are functions, and the value of
  \<open>Object.prototype[name]\<close> for the seven properties the code may have put there.
\<close>

definition object_prototype_functions :: "jstring list" where
  "object_prototype_functions =
     [U ''constructor'', U ''__defineGetter__'', U ''__defineSetter__'', U ''hasOwnProperty'',
      U ''__lookupGetter__'', U ''__lookupSetter__'', U ''isPrototypeOf'',
      U ''propertyIsEnumerable'', U ''toString'', U ''valueOf'', U ''toLocaleString'']"

definition number_on_prototype :: "layer_entry \<Rightarrow> jstring \<Rightarrow> jsnum option" where
  "number_on_prototype proto name =
     (if name = U ''activations'' then map_option (\<lambda>v. Num (of_int v)) (activations proto)
      else if name = U ''chars_injected'' then map_option (\<lambda>v. Num (of_int v)) (chars_injected proto)
      else if name = U ''useful_up'' then map_option (\<lambda>v. Num (of_int v)) (useful_up proto)
      else if name = U ''useful_down'' then map_option (\<lambda>v. Num (of_int v)) (useful_down proto)
      else if name = U ''last_activated_at'' then map_option (\<lambda>v. Num (of_int v)) (last_activated_at proto)
      else if name = U ''useful_rate'' then useful_rate proto
      else if name = U ''last_feedback_at'' then map_option (\<lambda>v. Num (of_int v)) (last_feedback_at proto)
      else None)"

text \<open>
  \<open>layers[name]\<close>: an own property of the table first, then the prototype chain, which
  for a plain object is \<open>Object.prototype\<close> alone.
\<close>

definition inherited :: "realm \<Rightarrow> jstring \<Rightarrow> found" where
  "inherited r name =
     (if name = U ''__proto__'' then ObjectPrototype
      else if name \<in> set object_prototype_functions then PrototypeFunction name
      else (case number_on_prototype (object_prototype r) name of
              None \<Rightarrow> Falsy
            | Some NaN \<Rightarrow> Falsy
            | Some (Num v) \<Rightarrow> if v = 0 then Falsy else Primitive))"

definition lookup_layer :: "realm \<Rightarrow> (jstring \<rightharpoonup> layer_entry) \<Rightarrow> jstring \<Rightarrow> found" where
  "lookup_layer r ls name = (case ls name of Some e \<Rightarrow> OwnEntry e | None \<Rightarrow> inherited r name)"

text \<open>
  \<open>obj.p\<close> for an object \<open>obj\<close> whose prototype chain ends in an object with the
  properties \<open>proto\<close>: the own property, else the inherited one.
\<close>

definition read_prop :: "(layer_entry \<Rightarrow> 'a option) \<Rightarrow> layer_entry \<Rightarrow> layer_entry \<Rightarrow> 'a option" where
  "read_prop p obj proto = (case p obj of Some v \<Rightarrow> Some v | None \<Rightarrow> p proto)"

text \<open>
  One feedback event on the object \<open>entry\<close>; the same statements are in
  \<open>recordRoutingFeedback\<close> and in the loop of \<open>applyFeedback\<close>:
  \<^verbatim>\<open>
  if (useful) entry.useful_up = (entry.useful_up || 0) + 1;
  else entry.useful_down = (entry.useful_down || 0) + 1;
  const total = (entry.useful_up || 0) + (entry.useful_down || 0);
  if (total > 0) entry.useful_rate = Number((entry.useful_up / total).toFixed(2));
  entry.last_feedback_at = Date.now();
  \<close>
  The quotient is a double division; with \<open>entry.useful_up\<close> undefined it is \<open>NaN\<close>, and
  so is the rate.
\<close>

definition feedback_entry :: "int \<Rightarrow> bool \<Rightarrow> layer_entry \<Rightarrow> layer_entry \<Rightarrow> layer_entry" where
  "feedback_entry now useful proto entry =
     (let e1 = (if useful
                then entry\<lparr>useful_up := Some (or0 (read_prop useful_up entry proto) + 1)\<rparr>
                else entry\<lparr>useful_down := Some (or0 (read_prop useful_down entry proto) + 1)\<rparr>);
          total = or0 (read_prop useful_up e1 proto) + or0 (read_prop useful_down e1 proto);
          e2 = (if total > 0
                then e1\<lparr>useful_rate :=
                        Some (case read_prop useful_up e1 proto of
                                None \<Rightarrow> NaN
                              | Some up \<Rightarrow> Num (fround (toFixed2 (fround (of_int up / of_int total)))))\<rparr>
                else e1)
      in e2\<lparr>last_feedback_at := Some now\<rparr>)"

text \<open>
  The event on the layer \<open>layer\<close> of the table \<open>ls\<close>, from the lookup on:
  \<^verbatim>\<open>
  const entry = layers[layer] || (layers[layer] = { activations: 0, chars_injected: 0,
    useful_up: 0, useful_down: 0, last_activated_at: null });
  \<close>
  (\<open>ensureLayer\<close> of the shared module has the same statement), followed by the
  statements above. An entry of the table is updated in place, and a
  layer that is not found gets a new entry. A name that the table inherits is found
  without the table having it: the statements then run on \<open>Object.prototype\<close> (whose own
  chain is empty) or on one of its functions (whose chain ends in \<open>Object.prototype\<close>),
  and the table is left as it is; on a number the first assignment throws.
\<close>

definition feedback_at ::
  "int \<Rightarrow> realm \<Rightarrow> (jstring \<rightharpoonup> layer_entry) \<Rightarrow> jstring \<Rightarrow> bool
     \<Rightarrow> js_exception + realm \<times> (jstring \<rightharpoonup> layer_entry)" where
  "feedback_at now r ls layer useful =
     (case lookup_layer r ls layer of
        OwnEntry e \<Rightarrow> Inr (r, ls(layer \<mapsto> feedback_entry now useful (object_prototype r) e))
      | Falsy \<Rightarrow> Inr (r, ls(layer \<mapsto> feedback_entry now useful (object_prototype r) fresh_entry))
      | ObjectPrototype \<Rightarrow>
          Inr (r\<lparr>object_prototype := feedback_entry now useful no_props (object_prototype r)\<rparr>, ls)
      | PrototypeFunction f \<Rightarrow>
          Inr (r\<lparr>prototype_functions := (prototype_functions r)
                   (f := feedback_entry now useful (object_prototype r) (prototype_functions r f))\<rparr>, ls)
      | Primitive \<Rightarrow> Inl TypeError)"

text \<open>
  \<open>recordRoutingFeedback(layer, useful)\<close> of the shared module, on the content of the
  ledger file (\<open>loadMeta\<close> and \<open>saveMeta\<close> are taken to read and write it faithfully). The
  result is the exception that leaves the function, if any, the built-in objects and
  the content of the file afterwards; an exception leaves before \<open>saveMeta\<close>.
  \<^verbatim>\<open>
  export function recordRoutingFeedback(layer, useful) {
    if (!layer) return;
    const path = resolveMetaPath();
    const meta = loadMeta(path);
    const stats = meta.routing_stats || (meta.routing_stats = {});
    const entry = ensureLayer(stats, layer);
    ...
    stats.last_updated_at = Date.now();
    saveMeta(path, meta);
  }
  \<close>
\<close>

definition recordRoutingFeedback ::
  "int \<Rightarrow> realm \<Rightarrow> jstring \<Rightarrow> bool \<Rightarrow> meta \<Rightarrow> js_exception option \<times> realm \<times> meta" where
  "recordRoutingFeedback now r layer useful m =
     (if layer = [] then (None, r, m)
      else
        let stats = stats_of m
        in (case feedback_at now r (layers stats) layer useful of
              Inl ex \<Rightarrow> (Some ex, r, m)
            | Inr (r', ls') \<Rightarrow>
                (None, r', m\<lparr>routing_stats := Some (stats\<lparr>layers := ls',
                                                         last_updated_at := Some now\<rparr>)\<rparr>)))"

text \<open>
  \<open>applyFeedback(meta, feedbacks)\<close> of the meta plugin, on the object \<open>meta\<close>; a feedback
  is the pair \<open>(layer, useful)\<close>, and an event without a layer name is skipped. An
  exception leaves the loop at once, with the earlier events applied.
  \<^verbatim>\<open>
  function applyFeedback(meta, feedbacks) {
    if (!feedbacks || !feedbacks.length) return;
    const stats = meta.routing_stats || (meta.routing_stats = {});
    const layers = stats.layers || (stats.layers = {});
    for (const fb of feedbacks) {
      if (!fb || !fb.layer) continue;
      const entry = layers[fb.layer] || (layers[fb.layer] = { ... });
      ...
    }
    stats.last_updated_at = Date.now();
  }
  \<close>
\<close>

fun applyFeedback_loop ::
  "int \<Rightarrow> realm \<Rightarrow> (jstring \<rightharpoonup> layer_entry) \<Rightarrow> (jstring \<times> bool) list
     \<Rightarrow> js_exception option \<times> realm \<times> (jstring \<rightharpoonup> layer_entry)" where
  "applyFeedback_loop now r ls [] = (None, r, ls)"
| "applyFeedback_loop now r ls ((layer, useful) # fbs) =
     (if layer = [] then applyFeedback_loop now r ls fbs
      else (case feedback_at now r ls layer useful of
              Inl ex \<Rightarrow> (Some ex, r, ls)
            | Inr (r', ls') \<Rightarrow> applyFeedback_loop now r' ls' fbs))"

definition applyFeedback ::
  "int \<Rightarrow> realm \<Rightarrow> meta \<Rightarrow> (jstring \<times> bool) list \<Rightarrow> js_exception option \<times> realm \<times> meta" where
  "applyFeedback now r m feedbacks =
     (if feedbacks = [] then (None, r, m)
      else
        let stats = stats_of m
        in (case applyFeedback_loop now r (layers stats) feedbacks of
              (None, r', ls') \<Rightarrow>
                (None, r', m\<lparr>routing_stats := Some (stats\<lparr>layers := ls',
                                                         last_updated_at := Some now\<rparr>)\<rparr>)
            | (Some ex, r', ls') \<Rightarrow>
                (Some ex, r', m\<lparr>routing_stats := Some (stats\<lparr>layers := ls'\<rparr>)\<rparr>)))"

text \<open>
  \<^verbatim>\<open>
  function finalizeRoutingSession(meta) {
    const stats = meta.routing_stats || (meta.routing_stats = {});
    const sessionChars = stats.current_session_chars || 0;
    const sessionActs = stats.current_session_activations || 0;
    stats.sessions = (stats.sessions || 0) + 1;
    stats.total_session_chars = (stats.total_session_chars || 0) + sessionChars;
    stats.total_session_activations = (stats.total_session_activations || 0) + sessionActs;
    stats.after_routing_avg = stats.sessions ? Math.round(stats.total_session_chars / stats.sessions) : 0;
    stats.last_session_chars = sessionChars;
    stats.last_session_activations = sessionActs;
    stats.current_session_chars = 0;
    stats.current_session_activations = 0;
  }
  \<close>
\<close>

definition finalizeRoutingSession :: "meta \<Rightarrow> meta" where
  "finalizeRoutingSession m =
     (let stats = stats_of m;
          sessionChars = or0 (current_session_chars stats);
          sessionActs = or0 (current_session_activations stats);
          sessions' = or0 (sessions stats) + 1;
          total' = or0 (total_session_chars stats) + sessionChars
      in m\<lparr>routing_stats := Some (stats\<lparr>
            sessions := Some sessions',
            total_session_chars := Some total',
            total_session_activations := Some (or0 (total_session_activations stats) + sessionActs),
            after_routing_avg :=
              Some (if sessions' \<noteq> 0 then js_round (of_int total' / of_int sessions') else 0),
            last_session_chars := Some sessionChars,
            last_session_activations := Some sessionActs,
            current_session_chars := Some 0,
            current_session_activations := Some 0\<rparr>)\<rparr>)"

text \<open>
  \<open>startOfWeek(ts)\<close>: midnight UTC of the Monday on or before \<open>ts\<close>
  (\<open>getUTCDay\<close> is 0 on Sunday; 1 January 1970 was a Thursday).
\<close>

definition startOfWeek :: "int \<Rightarrow> int" where
  "startOfWeek ts =
     (let days = ts div 86400000;
          day = (days + 4) mod 7;
          diff = (day + 6) mod 7
      in (days - diff) * 86400000)"

text \<open>\<open>meta.token_savings || (meta.token_savings = {})\<close>: the empty object.\<close>

definition empty_token :: token_savings where
  "empty_token = \<lparr>ts_after_routing_avg = None, before_routing_avg = None,
     saved_last_session = None, saved_total = None, week_start = None, saved_this_week = None\<rparr>"

definition token_of :: "meta \<Rightarrow> token_savings" where
  "token_of m = (case token_savings m of None \<Rightarrow> empty_token | Some t \<Rightarrow> t)"

text \<open>
  \<^verbatim>\<open>
  function updateTokenSavings(meta) {
    const stats = meta.routing_stats;
    if (!stats) return;
    const token = meta.token_savings || (meta.token_savings = {});
    if (stats.after_routing_avg !== undefined) token.after_routing_avg = stats.after_routing_avg;
    const before = Number(token.before_routing_avg);
    if (!Number.isFinite(before)) return;
    const last = Number(stats.last_session_chars || 0);
    const saved = Math.max(0, Math.round(before - last));
    token.saved_last_session = saved;
    token.saved_total = (token.saved_total || 0) + saved;
    const now = Date.now();
    const weekStart = Number.isFinite(token.week_start) ? token.week_start : startOfWeek(now);
    if (now - weekStart >= 7 * 24 * 60 * 60 * 1000) {
      token.week_start = startOfWeek(now);
      token.saved_this_week = 0;
    }
    token.saved_this_week = (token.saved_this_week || 0) + saved;
  }
  \<close>
\<close>

definition updateTokenSavings :: "int \<Rightarrow> meta \<Rightarrow> meta" where
  "updateTokenSavings now m =
     (case routing_stats m of
        None \<Rightarrow> m
      | Some stats \<Rightarrow>
          (let token0 = token_of m;
               token1 = (case after_routing_avg stats of
                           None \<Rightarrow> token0
                         | Some a \<Rightarrow> token0\<lparr>ts_after_routing_avg := Some a\<rparr>)
           in (case before_routing_avg token1 of
                 None \<Rightarrow> m\<lparr>token_savings := Some token1\<rparr>
               | Some before \<Rightarrow>
                   (let last = or0 (last_session_chars stats);
                        saved = max 0 (js_round (before - of_int last));
                        token2 = token1\<lparr>saved_last_session := Some saved,
                                          saved_total := Some (or0 (saved_total token1) + saved)\<rparr>;
                        weekStart = (case week_start token2 of
                                       None \<Rightarrow> startOfWeek now | Some w \<Rightarrow> w);
                        token3 = (if now - weekStart \<ge> 7 * 24 * 60 * 60 * 1000
                                  then token2\<lparr>week_start := Some (startOfWeek now),
                                                 saved_this_week := Some 0\<rparr>
                                  else token2)
                    in m\<lparr>token_savings :=
                         Some (token3\<lparr>saved_this_week :=
                                 Some (or0 (saved_this_week token3) + saved)\<rparr>)\<rparr>))))"

text \<open>
  The ledger of the specification's scenario: \<open>sessions=2\<close>, \<open>totalSessionChars=1000\<close> and a
  current session of 500 characters.
\<close>

definition scenario_ledger :: meta where
  "scenario_ledger = \<lparr>routing_stats = Some (empty_stats\<lparr>sessions := Some 2,
      total_session_chars := Some 1000, current_session_chars := Some 500\<rparr>),
      token_savings = None\<rparr>"

text \<open>
  The entry of a layer as the code finds or creates it, and the number of events of one
  kind in a list.
\<close>

definition entry_at :: "(jstring \<rightharpoonup> layer_entry) \<Rightarrow> jstring \<Rightarrow> layer_entry" where
  "entry_at ls layer = (case ls layer of None \<Rightarrow> fresh_entry | Some e \<Rightarrow> e)"

definition count_fb :: "jstring \<Rightarrow> bool \<Rightarrow> (jstring \<times> bool) list \<Rightarrow> nat" where
  "count_fb layer useful fbs = length (filter (\<lambda>fb. fb = (layer, useful)) fbs)"

text \<open>
  A layer whose entry is fresh: not yet in the table, or with both counters 0 and no
  rate.
\<close>

definition no_feedback_yet :: "meta \<Rightarrow> jstring \<Rightarrow> bool" where
  "no_feedback_yet m layer =
     (useful_up (entry_at (layers (stats_of m)) layer) = Some 0
      \<and> useful_down (entry_at (layers (stats_of m)) layer) = Some 0
      \<and> useful_rate (entry_at (layers (stats_of m)) layer) = None)"

text \<open>
  A layer name that the table does not inherit: \<open>layers[name]\<close> finds an entry of the
  table or nothing.
\<close>

definition plain_layer :: "realm \<Rightarrow> jstring \<Rightarrow> bool" where
  "plain_layer r name = (inherited r name = Falsy)"

text \<open>
  The names of the seven properties, and a layer name that \<open>layers[name]\<close> never finds
  on the prototype chain, whatever this code has written on the built-in objects.
\<close>

definition entry_properties :: "jstring list" where
  "entry_properties =
     [U ''activations'', U ''chars_injected'', U ''useful_up'', U ''useful_down'',
      U ''last_activated_at'', U ''useful_rate'', U ''last_feedback_at'']"

definition ordinary_layer :: "jstring \<Rightarrow> bool" where
  "ordinary_layer name =
     (name \<noteq> U ''__proto__'' \<and> name \<notin> set object_prototype_functions
      \<and> name \<notin> set entry_properties)"

text \<open>
  The rate as the specification words it: the quotient rounded to two decimals (a tie
  away from zero).
\<close>

definition rate_spec :: "nat \<Rightarrow> nat \<Rightarrow> rat" where
  "rate_spec n m = of_int \<lfloor>(of_nat n / of_nat (n + m) * 100 + 1 / 2 :: rat)\<rfloor> / 100"

text \<open>
  \<open>recordRoutingFeedback\<close> called for each event of a list in turn, whatever the earlier
  calls did.
\<close>

definition record_each :: "int \<Rightarrow> (jstring \<times> bool) list \<Rightarrow> realm \<times> meta \<Rightarrow> realm \<times> meta" where
  "record_each now fbs st =
     fold (\<lambda>fb st. snd (recordRoutingFeedback now (fst st) (fst fb) (snd fb) (snd st))) fbs st"

text \<open>No token-savings baseline is configured.\<close>

definition no_baseline :: "meta \<Rightarrow> bool" where
  "no_baseline m = (before_routing_avg (token_of m) = None)"

section \<open>Regular expressions\<close>

text \<open>
  The regular expressions of the redaction and extraction code are sequences of
  quantified character classes. A \<open>piece\<close> is one character of a class (\<open>Chr\<close>), a
  greedy repetition of a class between a minimum and an optional maximum (\<open>Rep\<close>), or
  the end of the input (\<open>Eos\<close>, the anchor \<open>$\<close> without the \<open>m\<close> flag). \<open>match_here\<close> is
  the backtracking matcher of ECMAScript at one start position: a repetition first takes
  as many characters as it can and gives them back one at a time while the rest of the
  pattern fails. The result is the number of code units each piece consumed.
\<close>

datatype piece = Chr "nat \<Rightarrow> bool" | Rep "nat \<Rightarrow> bool" nat "nat option" | Eos

definition greedy :: "(nat \<Rightarrow> bool) \<Rightarrow> nat option \<Rightarrow> jstring \<Rightarrow> nat" where
  "greedy cls hi s =
     (let k = length (takeWhile cls s) in case hi of None \<Rightarrow> k | Some h \<Rightarrow> min k h)"

fun try_lengths :: "(jstring \<Rightarrow> nat list option) \<Rightarrow> jstring \<Rightarrow> nat \<Rightarrow> nat \<Rightarrow> nat list option" where
  "try_lengths k s lo n =
     (if n < lo then None
      else case k (drop n s) of
             Some ns \<Rightarrow> Some (n # ns)
           | None \<Rightarrow> (if n = 0 then None else try_lengths k s lo (n - 1)))"

primrec match_here :: "piece list \<Rightarrow> jstring \<Rightarrow> nat list option" where
  "match_here [] = (\<lambda>s. Some [])"
| "match_here (p # ps) =
     (\<lambda>s. case p of
             Chr cls \<Rightarrow> (case s of [] \<Rightarrow> None
                        | c # cs \<Rightarrow> if cls c then map_option (\<lambda>ns. 1 # ns) (match_here ps cs) else None)
           | Rep cls lo hi \<Rightarrow> try_lengths (match_here ps) s lo (greedy cls hi s)
           | Eos \<Rightarrow> (if s = [] then map_option (\<lambda>ns. 0 # ns) (match_here ps s) else None))"

text \<open>
  Character classes. \<open>ch c\<close> is the literal character \<open>c\<close>; \<open>ci c\<close> is the letter \<open>c\<close>
  (given in lower case) under the \<open>i\<close> flag: without the \<open>u\<close> flag a code unit of 128 or
  more never folds to an ASCII letter, so only the two ASCII cases match.
\<close>

definition ch :: "nat \<Rightarrow> nat \<Rightarrow> bool" where
  "ch c u = (u = c)"

definition ci :: "nat \<Rightarrow> nat \<Rightarrow> bool" where
  "ci c u = (u = c \<or> (97 \<le> c \<and> c \<le> 122 \<and> u + 32 = c))"

definition alnum :: "nat \<Rightarrow> bool" where
  "alnum u = ((65 \<le> u \<and> u \<le> 90) \<or> (97 \<le> u \<and> u \<le> 122) \<or> (48 \<le> u \<and> u \<le> 57))"

definition nonspace :: "nat \<Rightarrow> bool" where
  "nonspace u = (\<not> js_space u)"

definition colon_eq :: "nat \<Rightarrow> bool" where
  "colon_eq u = (u = 58 \<or> u = 61)"

definition us_dash :: "nat \<Rightarrow> bool" where
  "us_dash u = (u = 95 \<or> u = 45)"

definition opt :: "(nat \<Rightarrow> bool) \<Rightarrow> piece" where
  "opt cls = Rep cls 0 (Some 1)"

definition star :: "(nat \<Rightarrow> bool) \<Rightarrow> piece" where
  "star cls = Rep cls 0 None"

definition plus :: "(nat \<Rightarrow> bool) \<Rightarrow> piece" where
  "plus cls = Rep cls 1 None"

definition lit :: "jstring \<Rightarrow> piece list" where
  "lit w = map (\<lambda>c. Chr (ch c)) w"

definition lit_i :: "jstring \<Rightarrow> piece list" where
  "lit_i w = map (\<lambda>c. Chr (ci c)) w"

text \<open>
  \<open>s.replace(pattern, rep)\<close> for a pattern with the \<open>g\<close> flag that cannot match the empty
  string: scan from the left, replace each match, continue behind it.
\<close>

fun replace_all :: "piece list \<Rightarrow> jstring \<Rightarrow> jstring \<Rightarrow> jstring" where
  "replace_all pat rep [] = []"
| "replace_all pat rep (c # cs) =
     (case match_here pat (c # cs) of
        None \<Rightarrow> c # replace_all pat rep cs
      | Some ns \<Rightarrow> rep @ replace_all pat rep (drop (sum_list ns - 1) cs))"

section \<open>Redaction\<close>

text \<open>
  The five masking patterns, in the order of the array in \<open>redactSensitive\<close>:
  \<^verbatim>\<open>
  /sk-[A-Za-z0-9]{20,}/g,
  /(api[_-]?key\s*[:=]\s*\S+)/gi,
  /(token\s*[:=]\s*\S+)/gi,
  /(bearer\s+\S+)/gi,
  /(authorization\s*[:=]\s*\S+)/gi
  \<close>
\<close>

definition p_sk :: "piece list" where
  "p_sk = lit (U ''sk-'') @ [Rep alnum 20 None]"

definition p_api_key :: "piece list" where
  "p_api_key = lit_i (U ''api'') @ [opt us_dash] @ lit_i (U ''key'')
     @ [star js_space, Chr colon_eq, star js_space, plus nonspace]"

definition p_token :: "piece list" where
  "p_token = lit_i (U ''token'') @ [star js_space, Chr colon_eq, star js_space, plus nonspace]"

definition p_bearer :: "piece list" where
  "p_bearer = lit_i (U ''bearer'') @ [plus js_space, plus nonspace]"

definition p_authorization :: "piece list" where
  "p_authorization = lit_i (U ''authorization'')
     @ [star js_space, Chr colon_eq, star js_space, plus nonspace]"

definition patterns :: "piece list list" where
  "patterns = [p_sk, p_api_key, p_token, p_bearer, p_authorization]"

text \<open>
  \<^verbatim>\<open>
  function redactSensitive(text, enabled) {
    if (!enabled || !text) return text || "";
    let out = text;
    for (const pattern of patterns) out = out.replace(pattern, "[redacted]");
    return out;
  }
  \<close>
\<close>

definition redactSensitive :: "jstring \<Rightarrow> bool \<Rightarrow> jstring" where
  "redactSensitive t enabled =
     (if \<not> enabled \<or> t = [] then t
      else fold (\<lambda>pattern out. replace_all pattern (U ''[redacted]'') out) patterns t)"

text \<open>
  The scan of \<open>replace_all\<close> over the part \<open>pre\<close> of the text \<open>pre @ rest\<close>: the
  replacement of \<open>pre\<close>, when no match that begins in \<open>pre\<close> extends into \<open>rest\<close>, and
  \<open>None\<close> when one does.
\<close>

fun replace_before :: "piece list \<Rightarrow> jstring \<Rightarrow> jstring \<Rightarrow> jstring \<Rightarrow> jstring option" where
  "replace_before pat rep [] rest = Some []"
| "replace_before pat rep (c # cs) rest =
     (case match_here pat (c # cs @ rest) of
        None \<Rightarrow> map_option ((#) c) (replace_before pat rep cs rest)
      | Some ns \<Rightarrow>
          if sum_list ns \<le> Suc (length cs)
          then map_option ((@) rep) (replace_before pat rep (drop (sum_list ns - 1) cs) rest)
          else None)"

text \<open>
  The text before a token span after the first three passes of \<open>redactSensitive\<close> (the
  token pattern is the third), each pass running on the output of the one before, when
  in none of them a match that begins before the span extends into it; \<open>rest\<close> is the
  text from the span on.
\<close>

definition before_span :: "jstring \<Rightarrow> jstring \<Rightarrow> jstring option" where
  "before_span pre rest =
     (case replace_before p_sk (U ''[redacted]'') pre rest of
        None \<Rightarrow> None
      | Some pre1 \<Rightarrow>
          (case replace_before p_api_key (U ''[redacted]'') pre1
                  (replace_all p_sk (U ''[redacted]'') rest) of
             None \<Rightarrow> None
           | Some pre2 \<Rightarrow>
               replace_before p_token (U ''[redacted]'') pre2
                 (replace_all p_api_key (U ''[redacted]'') (replace_all p_sk (U ''[redacted]'') rest))))"

section \<open>Shared helpers of the plugins\<close>

text \<open>\<open>parts.join(sep)\<close>.\<close>

fun js_join :: "jstring \<Rightarrow> jstring list \<Rightarrow> jstring" where
  "js_join sep [] = []"
| "js_join sep [x] = x"
| "js_join sep (x # y # ys) = x @ sep @ js_join sep (y # ys)"

text \<open>
  \<^verbatim>\<open>
  function extractTextContent(content) {
    if (typeof content === "string") return content;
    if (!Array.isArray(content)) return "";
    const parts = [];
    for (const block of content) {
      if (!block || typeof block !== "object") continue;
      if (block.type === "text" && typeof block.text === "string") parts.push(block.text);
    }
    return parts.join("\n");
  }
  \<close>
\<close>

fun block_texts :: "block list \<Rightarrow> jstring list" where
  "block_texts [] = []"
| "block_texts (TextBlock t # bs) = t # block_texts bs"
| "block_texts (OtherBlock # bs) = block_texts bs"

definition extractTextContent :: "content \<Rightarrow> jstring" where
  "extractTextContent c =
     (case c of CString s \<Rightarrow> s | CBlocks bs \<Rightarrow> js_join [10] (block_texts bs) | COther \<Rightarrow> [])"

text \<open>
  The texts a capture handler collects: the non-empty text of every user and assistant
  message.
  \<^verbatim>\<open>
  for (const msg of event.messages) {
    if (!msg || typeof msg !== "object") continue;
    if (msg.role !== "user" && msg.role !== "assistant") continue;
    const text = extractTextContent(msg.content);
    if (text) texts.push(text);
  }
  \<close>
\<close>

fun collect_texts :: "message option list \<Rightarrow> jstring list" where
  "collect_texts [] = []"
| "collect_texts (None # ms) = collect_texts ms"
| "collect_texts (Some msg # ms) =
     (if role msg \<noteq> U ''user'' \<and> role msg \<noteq> U ''assistant'' then collect_texts ms
      else let t = extractTextContent (content msg)
           in if t = [] then collect_texts ms else t # collect_texts ms)"

text \<open>\<open>String(err)\<close> of a thrown error.\<close>

definition err_string :: "error \<Rightarrow> jstring" where
  "err_string e = (case e of ExternalCallError m \<Rightarrow> U ''Error: '' @ m)"

text \<open>The decimal digits of a non-negative integer, as a template literal prints it.\<close>

fun js_nat :: "nat \<Rightarrow> jstring" where
  "js_nat n = (if n < 10 then [48 + n] else js_nat (n div 10) @ [48 + n mod 10])"

text \<open>
  \<open>regex.test(s)\<close> for an unanchored alternation of piece sequences: some alternative
  matches at some position.
\<close>

fun regex_test :: "piece list list \<Rightarrow> jstring \<Rightarrow> bool" where
  "regex_test alts [] = list_ex (\<lambda>alt. match_here alt [] \<noteq> None) alts"
| "regex_test alts (c # cs) =
     (list_ex (\<lambda>alt. match_here alt (c # cs) \<noteq> None) alts \<or> regex_test alts cs)"

text \<open>
  The condition of the first statement of every recall handler,
  \<open>!event?.prompt || event.prompt.length < n\<close>; a missing event or prompt is \<open>None\<close>.
\<close>

definition prompt_too_short :: "nat \<Rightarrow> jstring option \<Rightarrow> bool" where
  "prompt_too_short n prompt = (case prompt of None \<Rightarrow> True | Some p \<Rightarrow> p = [] \<or> length p < n)"

section \<open>Goal plugin\<close>

text \<open>
  \<^verbatim>\<open>
  function shouldRecallGoals(prompt) {
    const p = String(prompt || "").toLowerCase();
    return /goal|objetivo|meta|intent|plan|task|prioridad|priority/.test(p);
  }
  \<close>
\<close>

definition shouldRecallGoals :: "(jstring \<Rightarrow> jstring) \<Rightarrow> jstring \<Rightarrow> bool" where
  "shouldRecallGoals lower prompt =
     regex_test (map (\<lambda>w. lit (U w))
       [''goal'', ''objetivo'', ''meta'', ''intent'', ''plan'', ''task'', ''prioridad'', ''priority''])
       (lower prompt)"

text \<open>
  The rescoring of the recall handler: score \<open>1 / (1 + distance)\<close> (\<open>row._distance ?? 0\<close>),
  decay, floor, order (active goals first, then by adjusted score, descending; the sort
  is stable) and limit.
  \<^verbatim>\<open>
  const rescored = results
    .map((item) => ({ ...item, adjusted: computeDecayScore(item.score, item.entry.updatedAt, cfg.halfLifeDays) }))
    .filter((item) => item.adjusted >= cfg.minScore)
    .sort((a, b) => {
      const aActive = String(a.entry.status || "").toLowerCase() === "active";
      const bActive = String(b.entry.status || "").toLowerCase() === "active";
      if (aActive !== bActive) return aActive ? -1 : 1;
      return b.adjusted - a.adjusted;
    })
    .slice(0, cfg.recallLimit);
  \<close>
\<close>

definition goal_score :: "goal_found \<Rightarrow> real" where
  "goal_score row = 1 / (1 + (case gf_distance row of None \<Rightarrow> 0 | Some d \<Rightarrow> d))"

definition goal_adjusted :: "int \<Rightarrow> goal_cfg \<Rightarrow> goal_found \<Rightarrow> real" where
  "goal_adjusted now cfg row =
     computeDecayScore now (goal_score row) (gf_updatedAt row) (g_halfLifeDays cfg)"

definition goal_rescored :: "(jstring \<Rightarrow> jstring) \<Rightarrow> int \<Rightarrow> goal_cfg \<Rightarrow> goal_found list \<Rightarrow> goal_found list" where
  "goal_rescored lower now cfg results =
     js_slice0
       (sort_key (\<lambda>row. (if lower (gf_status row) = U ''active'' then 0 else 1 :: nat,
                           - goal_adjusted now cfg row))
          (filter (\<lambda>row. goal_adjusted now cfg row \<ge> g_minScore cfg) results))
       (g_recallLimit cfg)"

text \<open>
  \<^verbatim>\<open>
  const lines = rescored.map((item, idx) => {
    const status = item.entry.status ? ` (${item.entry.status})` : "";
    const priority = item.entry.priority ? ` [${item.entry.priority}]` : "";
    return `${idx + 1}. ${truncate(item.entry.text || "", 400)}${priority}${status}`;
  });
  \<close>
\<close>

fun goal_lines :: "nat \<Rightarrow> goal_found list \<Rightarrow> jstring list" where
  "goal_lines idx [] = []"
| "goal_lines idx (row # rows) =
     (js_nat (idx + 1) @ U ''. '' @ truncate (gf_text row) 400
        @ (if gf_priority row = [] then [] else U '' ['' @ gf_priority row @ U '']'')
        @ (if gf_status row = [] then [] else U '' ('' @ gf_status row @ U '')''))
     # goal_lines (idx + 1) rows"

text \<open>
  The recall handler (\<open>before_agent_start\<close>). Its result is the injected context, if
  any, and the actions appended to the trace \<open>tr\<close>.
  \<^verbatim>\<open>
  async (event) => {
    if (!event?.prompt || event.prompt.length < 3) return;
    if (!cfg.alwaysRecall && !shouldRecallGoals(event.prompt)) return;
    try {
      const vector = await embeddings.embed(event.prompt);
      const results = await table.search(vector, cfg.recallLimit * 3);
      const rescored = ...;
      if (!rescored.length) return;
      const lines = ...;
      const body = truncate(lines.join("\n"), cfg.maxChars);
      recordRouting("goal", body.length);
      return { prependContext: `<goal-intent>\n${body}\n</goal-intent>` };
    } catch (err) {
      api.logger?.warn?.(`memory-goal: recall failed: ${String(err)}`);
    }
  }
  \<close>
\<close>

definition before_agent_start_goal ::
  "goal_cfg \<Rightarrow> ('v, 'w, goal_found) env \<Rightarrow> jstring option \<Rightarrow> ('v, 'w) call list
     \<Rightarrow> (error + jstring option) \<times> ('v, 'w) call list" where
  "before_agent_start_goal cfg e prompt tr =
     (case prompt of
        None \<Rightarrow> (Inr None, tr)
      | Some p \<Rightarrow>
          if p = [] \<or> length p < 3 then (Inr None, tr)
          else if \<not> g_alwaysRecall cfg \<and> \<not> shouldRecallGoals (toLowerCase e) p then (Inr None, tr)
          else
            (case embed e (length tr) p of
               Inl err \<Rightarrow>
                 (Inr None, tr @ [Embed p, Warn (U ''memory-goal: recall failed: '' @ err_string err)])
             | Inr vector \<Rightarrow>
                 (let tr1 = tr @ [Embed p]
                  in (case vectorSearch e (length tr1) (U ''goals'') vector (g_recallLimit cfg * 3) of
                        Inl err \<Rightarrow>
                          (Inr None, tr1 @ [Search (U ''goals'') vector (g_recallLimit cfg * 3),
                                            Warn (U ''memory-goal: recall failed: '' @ err_string err)])
                      | Inr results \<Rightarrow>
                          (let tr2 = tr1 @ [Search (U ''goals'') vector (g_recallLimit cfg * 3)];
                               rescored = goal_rescored (toLowerCase e) (date_now e) cfg results
                           in if rescored = [] then (Inr None, tr2)
                              else
                                (let body = truncate (js_join [10] (goal_lines 0 rescored)) (g_maxChars cfg)
                                 in (Inr (Some (U ''<goal-intent>'' @ [10] @ body @ [10] @ U ''</goal-intent>'')),
                                     tr2 @ [Routing (U ''goal'') (int (length body))])))))))"

text \<open>
  The capture handler (\<open>agent_end\<close>); \<open>seen\<close> is the set of goal keys of this turn.
  \<open>parseGoals\<close> (a pure function of the text and the capture mode) is a parameter: the
  handler is modelled on the drafts it returns.
  \<^verbatim>\<open>
  for (const raw of texts) {
    const goals = parseGoals(raw, cfg);
    for (const goal of goals) {
      if (!goal.goal) continue;
      const key = goal.goal.toLowerCase();
      if (seen.has(key)) continue;
      seen.add(key);
      const details = goal.details && goal.details.length ? goal.details.join(" ") : "";
      const summary = redactSensitive(
        truncate(`Goal: ${goal.goal}\nStatus: ${goal.status || "active"}\nPriority: ${goal.priority || ""}\nOwner: ${goal.owner || ""}\nDetails: ${details}`,
          cfg.maxChars),
        cfg.redaction.enabled);
      try {
        const vector = await embeddings.embed(summary);
        await table.store({ text: summary, vector, status: goal.status || "active", ...,
          meta: JSON.stringify({ goal: goal.goal, ..., details, capturedAt: Date.now() }) });
      } catch (err) {
        api.logger?.warn?.(`memory-goal: capture failed: ${String(err)}`);
      }
    }
  }
  \<close>
\<close>

definition goal_summary :: "goal_cfg \<Rightarrow> goal \<Rightarrow> jstring" where
  "goal_summary cfg g =
     redactSensitive
       (truncate
          (U ''Goal: '' @ goal_goal g @ [10]
             @ U ''Status: '' @ (if goal_status g = [] then U ''active'' else goal_status g) @ [10]
             @ U ''Priority: '' @ goal_priority g @ [10]
             @ U ''Owner: '' @ goal_owner g @ [10]
             @ U ''Details: '' @ js_join (U '' '') (goal_details g))
          (g_maxChars cfg))
       (g_redaction_enabled cfg)"

definition goal_row_of :: "goal_cfg \<Rightarrow> int \<Rightarrow> goal \<Rightarrow> 'v \<Rightarrow> 'v goal_row" where
  "goal_row_of cfg now g vector =
     \<lparr>gr_text = goal_summary cfg g, gr_vector = vector,
      gr_status = (if goal_status g = [] then U ''active'' else goal_status g),
      gr_priority = goal_priority g, gr_owner = goal_owner g,
      gr_meta = \<lparr>gm_goal = goal_goal g,
                 gm_status = (if goal_status g = [] then U ''active'' else goal_status g),
                 gm_priority = goal_priority g, gm_owner = goal_owner g,
                 gm_details = js_join (U '' '') (goal_details g), gm_capturedAt = now\<rparr>\<rparr>"

fun goal_capture_loop ::
  "goal_cfg \<Rightarrow> ('v, 'v goal_row, 'f) env \<Rightarrow> jstring list \<Rightarrow> goal list
     \<Rightarrow> ('v, 'v goal_row) call list \<Rightarrow> ('v, 'v goal_row) call list" where
  "goal_capture_loop cfg e seen [] tr = tr"
| "goal_capture_loop cfg e seen (g # gs) tr =
     (if goal_goal g = [] then goal_capture_loop cfg e seen gs tr
      else if toLowerCase e (goal_goal g) \<in> set seen then goal_capture_loop cfg e seen gs tr
      else
        (case embed e (length tr) (goal_summary cfg g) of
           Inl err \<Rightarrow>
             goal_capture_loop cfg e (toLowerCase e (goal_goal g) # seen) gs
               (tr @ [Embed (goal_summary cfg g),
                      Warn (U ''memory-goal: capture failed: '' @ err_string err)])
         | Inr vector \<Rightarrow>
             (case store e (Suc (length tr)) (U ''goals'') (goal_row_of cfg (date_now e) g vector) of
                Inl err \<Rightarrow>
                  goal_capture_loop cfg e (toLowerCase e (goal_goal g) # seen) gs
                    (tr @ [Embed (goal_summary cfg g),
                           Store (U ''goals'') (goal_row_of cfg (date_now e) g vector),
                           Warn (U ''memory-goal: capture failed: '' @ err_string err)])
              | Inr u \<Rightarrow>
                  goal_capture_loop cfg e (toLowerCase e (goal_goal g) # seen) gs
                    (tr @ [Embed (goal_summary cfg g),
                           Store (U ''goals'') (goal_row_of cfg (date_now e) g vector)]))))"

definition agent_end_goal ::
  "(jstring \<Rightarrow> goal list) \<Rightarrow> goal_cfg \<Rightarrow> ('v, 'v goal_row, 'f) env \<Rightarrow> message option list option
     \<Rightarrow> ('v, 'v goal_row) call list \<Rightarrow> (error + unit) \<times> ('v, 'v goal_row) call list" where
  "agent_end_goal parseGoals cfg e event tr =
     (case event of
        None \<Rightarrow> (Inr (), tr)
      | Some messages \<Rightarrow>
          if messages = [] then (Inr (), tr)
          else if collect_texts messages = [] then (Inr (), tr)
          else (Inr (), goal_capture_loop cfg e [] (concat (map parseGoals (collect_texts messages))) tr))"

section \<open>Timeline plugin\<close>

text \<open>\<open>text.split(/\r?\n/)\<close>: split at every line feed, dropping one carriage return before it.\<close>

fun split_lines :: "jstring \<Rightarrow> jstring \<Rightarrow> jstring list" where
  "split_lines acc [] = [rev acc]"
| "split_lines acc (c # cs) =
     (if c = 10 then rev (case acc of [] \<Rightarrow> [] | a # as \<Rightarrow> if a = 13 then as else a # as) # split_lines [] cs
      else split_lines (c # acc) cs)"

definition colon_dash :: "nat \<Rightarrow> bool" where
  "colon_dash u = (u = 58 \<or> u = 45)"

text \<open>The class \<open>.\<close>: any code unit but a line terminator.\<close>

definition dot :: "nat \<Rightarrow> bool" where
  "dot u = (u \<noteq> 10 \<and> u \<noteq> 13 \<and> u \<noteq> 8232 \<and> u \<noteq> 8233)"

text \<open>
  \<open>line.match(/^\s*(w1|w2|...)\s*[:\-]\s*(.+)$/i)\<close>: the second capture group of the
  first alternative that matches. (Leading white space can only be consumed whole,
  because every alternative starts with a letter, so trying the alternatives in order
  is the order of the backtracking matcher.)
\<close>

fun prefix_capture :: "string list \<Rightarrow> jstring \<Rightarrow> jstring option" where
  "prefix_capture [] line = None"
| "prefix_capture (w # ws) line =
     (case match_here ([star js_space] @ lit_i (U w)
                        @ [star js_space, Chr colon_dash, star js_space, plus dot, Eos]) line of
        None \<Rightarrow> prefix_capture ws line
      | Some ns \<Rightarrow> Some (take (ns ! (length w + 4)) (drop (sum_list (take (length w + 4) ns)) line)))"

text \<open>
  \<^verbatim>\<open>
  function extractEvents(text) {
    if (!text || typeof text !== "string") return [];
    const lines = text.split(/\r?\n/);
    const events = [];
    const prefixRegex = /^\s*(event|evento|timeline|time|fecha|when|incident|incidente|deploy|release)\s*[:\-]\s*(.+)$/i;
    for (const raw of lines) {
      const line = raw.trim();
      if (!line) continue;
      const match = line.match(prefixRegex);
      if (match) events.push(match[2].trim());
    }
    return events;
  }
  \<close>
\<close>

fun events_of_lines :: "jstring list \<Rightarrow> jstring list" where
  "events_of_lines [] = []"
| "events_of_lines (raw # lines) =
     (if js_trim raw = [] then events_of_lines lines
      else case prefix_capture
                  [''event'', ''evento'', ''timeline'', ''time'', ''fecha'', ''when'', ''incident'',
                   ''incidente'', ''deploy'', ''release''] (js_trim raw) of
             None \<Rightarrow> events_of_lines lines
           | Some m \<Rightarrow> js_trim m # events_of_lines lines)"

definition extractEvents :: "jstring \<Rightarrow> jstring list" where
  "extractEvents t = (if t = [] then [] else events_of_lines (split_lines [] t))"

text \<open>
  The capture handler of the timeline plugin. \<open>parseDateFromText\<close> (which rests on
  \<open>Date.parse\<close>) and \<open>formatIso\<close> (\<open>Date.prototype.toISOString\<close>) are parameters. The
  summary goes to the embedding provider and to the store as it is: this plugin has no
  redaction step and no \<open>redaction\<close> configuration.
  \<^verbatim>\<open>
  for (const raw of texts) {
    const events = extractEvents(raw);
    for (const evt of events) {
      if (!evt) continue;
      const occurredAt = parseDateFromText(evt) || Date.now();
      const recordedAt = Date.now();
      const summary = truncate(`Event: ${evt}\nOccurred: ${formatIso(occurredAt)}\nRecorded: ${formatIso(recordedAt)}`, cfg.maxChars);
      try {
        const vector = await embeddings.embed(summary);
        await table.store({ text: summary, vector, occurredAt, recordedAt,
          meta: JSON.stringify({ event: evt, occurredAt, recordedAt }) });
      } catch (err) {
        api.logger?.warn?.(`memory-timeline: capture failed: ${String(err)}`);
      }
    }
  }
  \<close>
\<close>

definition timeline_occurredAt :: "(jstring \<Rightarrow> int option) \<Rightarrow> int \<Rightarrow> jstring \<Rightarrow> int" where
  "timeline_occurredAt parseDateFromText now evt =
     (case parseDateFromText evt of None \<Rightarrow> now | Some t \<Rightarrow> if t = 0 then now else t)"

definition timeline_summary ::
  "(jstring \<Rightarrow> int option) \<Rightarrow> (int \<Rightarrow> jstring) \<Rightarrow> int \<Rightarrow> int \<Rightarrow> jstring \<Rightarrow> jstring" where
  "timeline_summary parseDateFromText formatIso maxChars now evt =
     truncate
       (U ''Event: '' @ evt @ [10]
          @ U ''Occurred: '' @ formatIso (timeline_occurredAt parseDateFromText now evt) @ [10]
          @ U ''Recorded: '' @ formatIso now)
       maxChars"

definition timeline_row_of ::
  "(jstring \<Rightarrow> int option) \<Rightarrow> (int \<Rightarrow> jstring) \<Rightarrow> int \<Rightarrow> int \<Rightarrow> jstring \<Rightarrow> 'v
     \<Rightarrow> 'v timeline_row" where
  "timeline_row_of parseDateFromText formatIso maxChars now evt vector =
     \<lparr>tr_text = timeline_summary parseDateFromText formatIso maxChars now evt,
      tr_vector = vector,
      tr_occurredAt = timeline_occurredAt parseDateFromText now evt,
      tr_recordedAt = now,
      tr_meta = \<lparr>tm_event = evt,
                 tm_occurredAt = timeline_occurredAt parseDateFromText now evt,
                 tm_recordedAt = now\<rparr>\<rparr>"

fun timeline_capture_loop ::
  "(jstring \<Rightarrow> int option) \<Rightarrow> (int \<Rightarrow> jstring) \<Rightarrow> int \<Rightarrow> ('v, 'v timeline_row, 'f) env
     \<Rightarrow> jstring list \<Rightarrow> ('v, 'v timeline_row) call list \<Rightarrow> ('v, 'v timeline_row) call list" where
  "timeline_capture_loop pd fmt maxChars e [] tr = tr"
| "timeline_capture_loop pd fmt maxChars e (evt # evts) tr =
     (if evt = [] then timeline_capture_loop pd fmt maxChars e evts tr
      else
        (case embed e (length tr) (timeline_summary pd fmt maxChars (date_now e) evt) of
           Inl err \<Rightarrow>
             timeline_capture_loop pd fmt maxChars e evts
               (tr @ [Embed (timeline_summary pd fmt maxChars (date_now e) evt),
                      Warn (U ''memory-timeline: capture failed: '' @ err_string err)])
         | Inr vector \<Rightarrow>
             (case store e (Suc (length tr)) (U ''timeline'')
                     (timeline_row_of pd fmt maxChars (date_now e) evt vector) of
                Inl err \<Rightarrow>
                  timeline_capture_loop pd fmt maxChars e evts
                    (tr @ [Embed (timeline_summary pd fmt maxChars (date_now e) evt),
                           Store (U ''timeline'') (timeline_row_of pd fmt maxChars (date_now e) evt vector),
                           Warn (U ''memory-timeline: capture failed: '' @ err_string err)])
              | Inr u \<Rightarrow>
                  timeline_capture_loop pd fmt maxChars e evts
                    (tr @ [Embed (timeline_summary pd fmt maxChars (date_now e) evt),
                           Store (U ''timeline'') (timeline_row_of pd fmt maxChars (date_now e) evt vector)]))))"

definition agent_end_timeline ::
  "(jstring \<Rightarrow> int option) \<Rightarrow> (int \<Rightarrow> jstring) \<Rightarrow> timeline_cfg \<Rightarrow> ('v, 'v timeline_row, 'f) env
     \<Rightarrow> message option list option \<Rightarrow> ('v, 'v timeline_row) call list
     \<Rightarrow> (error + unit) \<times> ('v, 'v timeline_row) call list" where
  "agent_end_timeline parseDateFromText formatIso cfg e event tr =
     (case event of
        None \<Rightarrow> (Inr (), tr)
      | Some messages \<Rightarrow>
          if messages = [] then (Inr (), tr)
          else if collect_texts messages = [] then (Inr (), tr)
          else (Inr (), timeline_capture_loop parseDateFromText formatIso (t_maxChars cfg) e
                          (concat (map extractEvents (collect_texts messages))) tr))"

text \<open>
  The recall handler of the timeline plugin; its \<open>computeDecayScore\<close> is the copy with the
  \<open>||\<close> fallback, on \<open>occurredAt\<close>. In the source file the sixth alternative of the
  keyword test is mis-encoded (the code units 195 and 186 followed by \<open>ltima vez\<close>).
  \<^verbatim>\<open>
  function shouldRecall(prompt) {
    const p = String(prompt || "").toLowerCase();
    return /timeline|historial|cuando|fecha|ultima vez|..ltima vez|event|evento|incident|incidente/.test(p);
  }
  async (event) => {
    if (!event?.prompt || event.prompt.length < 3) return;
    if (!cfg.alwaysRecall && !shouldRecall(event.prompt)) return;
    try {
      const vector = await embeddings.embed(event.prompt);
      const results = await table.search(vector, cfg.recallLimit * 3);
      const rescored = results
        .map((item) => ({ ...item, adjusted: computeDecayScore(item.score, item.entry.occurredAt, cfg.halfLifeDays) }))
        .filter((item) => item.adjusted >= cfg.minScore)
        .sort((a, b) => b.adjusted - a.adjusted)
        .slice(0, cfg.recallLimit);
      if (!rescored.length) return;
      const lines = rescored.map((item) => {
        const when = item.entry.occurredAt ? formatIso(item.entry.occurredAt) : "";
        const recorded = item.entry.recordedAt ? formatIso(item.entry.recordedAt) : "";
        const prefix = when ? `[${when}]` : "[unknown]";
        const rec = recorded ? ` (recorded ${recorded})` : "";
        return `${prefix} ${truncate(item.entry.text || "", 360)}${rec}`;
      });
      const body = truncate(lines.join("\n"), cfg.maxChars);
      recordRouting("timeline", body.length);
      return { prependContext: `<timeline>\n${body}\n</timeline>` };
    } catch (err) {
      api.logger?.warn?.(`memory-timeline: recall failed: ${String(err)}`);
    }
  }
  \<close>
\<close>

definition shouldRecall_timeline :: "(jstring \<Rightarrow> jstring) \<Rightarrow> jstring \<Rightarrow> bool" where
  "shouldRecall_timeline lower prompt =
     regex_test
       (map lit
          [U ''timeline'', U ''historial'', U ''cuando'', U ''fecha'', U ''ultima vez'',
           [195, 186] @ U ''ltima vez'', U ''event'', U ''evento'', U ''incident'', U ''incidente''])
       (lower prompt)"

definition timeline_adjusted :: "int \<Rightarrow> timeline_cfg \<Rightarrow> timeline_found \<Rightarrow> real" where
  "timeline_adjusted now cfg row =
     computeDecayScore now
       (1 / (1 + (case tf_distance row of None \<Rightarrow> 0 | Some d \<Rightarrow> d)))
       (tf_occurredAt row) (t_halfLifeDays cfg)"

definition iso_or_empty :: "(int \<Rightarrow> jstring) \<Rightarrow> int option \<Rightarrow> jstring" where
  "iso_or_empty formatIso ts =
     (case ts of None \<Rightarrow> [] | Some t \<Rightarrow> if t = 0 then [] else formatIso t)"

definition timeline_line :: "(int \<Rightarrow> jstring) \<Rightarrow> timeline_found \<Rightarrow> jstring" where
  "timeline_line formatIso row =
     (if iso_or_empty formatIso (tf_occurredAt row) = [] then U ''[unknown]''
      else U ''['' @ iso_or_empty formatIso (tf_occurredAt row) @ U '']'')
     @ U '' '' @ truncate (tf_text row) 360
     @ (if iso_or_empty formatIso (tf_recordedAt row) = [] then []
        else U '' (recorded '' @ iso_or_empty formatIso (tf_recordedAt row) @ U '')'')"

definition before_agent_start_timeline ::
  "(int \<Rightarrow> jstring) \<Rightarrow> timeline_cfg \<Rightarrow> ('v, 'w, timeline_found) env \<Rightarrow> jstring option
     \<Rightarrow> ('v, 'w) call list \<Rightarrow> (error + jstring option) \<times> ('v, 'w) call list" where
  "before_agent_start_timeline formatIso cfg e prompt tr =
     (case prompt of
        None \<Rightarrow> (Inr None, tr)
      | Some p \<Rightarrow>
          if p = [] \<or> length p < 3 then (Inr None, tr)
          else if \<not> t_alwaysRecall cfg \<and> \<not> shouldRecall_timeline (toLowerCase e) p then (Inr None, tr)
          else
            (case embed e (length tr) p of
               Inl err \<Rightarrow>
                 (Inr None, tr @ [Embed p, Warn (U ''memory-timeline: recall failed: '' @ err_string err)])
             | Inr vector \<Rightarrow>
                 (case vectorSearch e (Suc (length tr)) (U ''timeline'') vector (t_recallLimit cfg * 3) of
                    Inl err \<Rightarrow>
                      (Inr None, tr @ [Embed p, Search (U ''timeline'') vector (t_recallLimit cfg * 3),
                                       Warn (U ''memory-timeline: recall failed: '' @ err_string err)])
                  | Inr results \<Rightarrow>
                      (let tr2 = tr @ [Embed p, Search (U ''timeline'') vector (t_recallLimit cfg * 3)];
                           rescored =
                             js_slice0
                               (sort_key (\<lambda>row. - timeline_adjusted (date_now e) cfg row)
                                  (filter (\<lambda>row. timeline_adjusted (date_now e) cfg row \<ge> t_minScore cfg)
                                     results))
                               (t_recallLimit cfg)
                       in if rescored = [] then (Inr None, tr2)
                          else
                            (let body = truncate (js_join [10] (map (timeline_line formatIso) rescored))
                                          (t_maxChars cfg)
                             in (Inr (Some (U ''<timeline>'' @ [10] @ body @ [10] @ U ''</timeline>'')),
                                 tr2 @ [Routing (U ''timeline'') (int (length body))]))))))"

section \<open>Graph plugin\<close>

text \<open>
  The recall handler of the graph plugin; its \<open>computeDecayScore\<close> is the copy without the
  fallback, on \<open>createdAt\<close>. In the source file two alternatives of the keyword test are
  mis-encoded (\<open>qui\<close>, 195, 272, \<open>n\<close> and \<open>relaci\<close>, 195, 291, \<open>n\<close>).
  \<^verbatim>\<open>
  function shouldRecallGraph(prompt) {
    const p = prompt.toLowerCase();
    return /quien|qui..n|who|causa|causal|relacion|relaci..n|relation|dependency|dependencia|impacto|impact|responsable|hizo|did|root cause|why/.test(p);
  }
  async (event) => {
    if (!event?.prompt || event.prompt.length < 3) return;
    if (!cfg.alwaysRecall && !shouldRecallGraph(event.prompt)) return;
    try {
      const vector = await embeddings.embed(event.prompt);
      const results = await table.search(vector, cfg.recallLimit * 3);
      const rescored = results
        .map((item) => ({ ...item, adjusted: computeDecayScore(item.score, item.entry.createdAt, cfg.halfLifeDays) }))
        .filter((item) => item.adjusted >= cfg.minScore)
        .sort((a, b) => b.adjusted - a.adjusted)
        .slice(0, cfg.recallLimit);
      if (!rescored.length) return;
      const lines = rescored.map((item, idx) => `${idx + 1}. ${truncate(item.entry.text || "", 400)}`);
      const body = truncate(lines.join("\n"), cfg.maxChars);
      recordRouting("graph", body.length);
      return { prependContext: `<causal-graph>\n${body}\n</causal-graph>` };
    } catch (err) {
      api.logger?.warn?.(`memory-graph: recall failed: ${String(err)}`);
    }
  }
  \<close>
\<close>

definition shouldRecallGraph :: "(jstring \<Rightarrow> jstring) \<Rightarrow> jstring \<Rightarrow> bool" where
  "shouldRecallGraph lower prompt =
     regex_test
       (map lit
          [U ''quien'', U ''qui'' @ [195, 272] @ U ''n'', U ''who'', U ''causa'', U ''causal'',
           U ''relacion'', U ''relaci'' @ [195, 291] @ U ''n'', U ''relation'', U ''dependency'',
           U ''dependencia'', U ''impacto'', U ''impact'', U ''responsable'', U ''hizo'', U ''did'',
           U ''root cause'', U ''why''])
       (lower prompt)"

definition graph_adjusted :: "int \<Rightarrow> graph_cfg \<Rightarrow> graph_found \<Rightarrow> real" where
  "graph_adjusted now cfg row =
     computeDecayScore_createdAt now
       (1 / (1 + (case xf_distance row of None \<Rightarrow> 0 | Some d \<Rightarrow> d)))
       (xf_createdAt row) (x_halfLifeDays cfg)"

fun graph_lines :: "nat \<Rightarrow> graph_found list \<Rightarrow> jstring list" where
  "graph_lines idx [] = []"
| "graph_lines idx (row # rows) =
     (js_nat (idx + 1) @ U ''. '' @ truncate (xf_text row) 400) # graph_lines (idx + 1) rows"

definition before_agent_start_graph ::
  "graph_cfg \<Rightarrow> ('v, 'w, graph_found) env \<Rightarrow> jstring option
     \<Rightarrow> ('v, 'w) call list \<Rightarrow> (error + jstring option) \<times> ('v, 'w) call list" where
  "before_agent_start_graph cfg e prompt tr =
     (case prompt of
        None \<Rightarrow> (Inr None, tr)
      | Some p \<Rightarrow>
          if p = [] \<or> length p < 3 then (Inr None, tr)
          else if \<not> x_alwaysRecall cfg \<and> \<not> shouldRecallGraph (toLowerCase e) p then (Inr None, tr)
          else
            (case embed e (length tr) p of
               Inl err \<Rightarrow>
                 (Inr None, tr @ [Embed p, Warn (U ''memory-graph: recall failed: '' @ err_string err)])
             | Inr vector \<Rightarrow>
                 (case vectorSearch e (Suc (length tr)) (U ''edges'') vector (x_recallLimit cfg * 3) of
                    Inl err \<Rightarrow>
                      (Inr None, tr @ [Embed p, Search (U ''edges'') vector (x_recallLimit cfg * 3),
                                       Warn (U ''memory-graph: recall failed: '' @ err_string err)])
                  | Inr results \<Rightarrow>
                      (let tr2 = tr @ [Embed p, Search (U ''edges'') vector (x_recallLimit cfg * 3)];
                           rescored =
                             js_slice0
                               (sort_key (\<lambda>row. - graph_adjusted (date_now e) cfg row)
                                  (filter (\<lambda>row. graph_adjusted (date_now e) cfg row \<ge> x_minScore cfg)
                                     results))
                               (x_recallLimit cfg)
                       in if rescored = [] then (Inr None, tr2)
                          else
                            (let body = truncate (js_join [10] (graph_lines 0 rescored)) (x_maxChars cfg)
                             in (Inr (Some (U ''<causal-graph>'' @ [10] @ body @ [10] @ U ''</causal-graph>'')),
                                 tr2 @ [Routing (U ''graph'') (int (length body))]))))))"

section \<open>Entity plugin\<close>

text \<open>
  The capture handler of the entity plugin. \<open>extractEntitiesFromText\<close> (a pure function
  of the text and the capture mode) is a parameter, and \<open>index0\<close> is the content of the
  index file as \<open>loadIndex\<close> returns it (an object, kept as an association list in
  insertion order). The two awaited calls are not inside a \<open>try\<close>: a failure of either
  leaves the handler at once, the index unsaved.
  \<^verbatim>\<open>
  const index = loadIndex(indexPath);
  const created = [];
  for (const raw of texts) {
    const entities = extractEntitiesFromText(raw, cfg);
    for (const entity of entities) {
      if (!entity.name) continue;
      const details = entity.details && entity.details.length ? entity.details.join(" ") : "";
      const summary = redactSensitive(
        truncate(`Entity: ${entity.name}\nType: ${entity.type}\nDetails: ${details}`, cfg.maxChars),
        cfg.redaction.enabled);
      const vector = await embeddings.embed(summary);
      await table.store({ text: summary, vector, name: entity.name, type: entity.type,
        meta: JSON.stringify({ name: entity.name, type: entity.type, details, capturedAt: Date.now() }) });
      const key = `${String(entity.type).toLowerCase()}::${String(entity.name).toLowerCase()}`;
      index.entities[key] = { name: entity.name, type: entity.type, summary, updatedAt: Date.now() };
      created.push(key);
    }
  }
  if (created.length) saveIndex(indexPath, index);
  \<close>
\<close>

definition entity_summary :: "entity_cfg \<Rightarrow> entity \<Rightarrow> jstring" where
  "entity_summary cfg en =
     redactSensitive
       (truncate
          (U ''Entity: '' @ en_name en @ [10]
             @ U ''Type: '' @ en_type en @ [10]
             @ U ''Details: '' @ js_join (U '' '') (en_details en))
          (e_maxChars cfg))
       (e_redaction_enabled cfg)"

definition entity_row_of :: "entity_cfg \<Rightarrow> int \<Rightarrow> entity \<Rightarrow> 'v \<Rightarrow> 'v entity_row" where
  "entity_row_of cfg now en vector =
     \<lparr>er_text = entity_summary cfg en, er_vector = vector,
      er_name = en_name en, er_type = en_type en,
      er_meta = \<lparr>em_name = en_name en, em_type = en_type en,
                 em_details = js_join (U '' '') (en_details en), em_capturedAt = now\<rparr>\<rparr>"

definition entity_key :: "(jstring \<Rightarrow> jstring) \<Rightarrow> entity \<Rightarrow> jstring" where
  "entity_key lower en = lower (en_type en) @ U ''::'' @ lower (en_name en)"

fun entity_capture_loop ::
  "entity_cfg \<Rightarrow> ('v, 'v entity_row, 'f) env \<Rightarrow> (jstring \<times> index_entry) list \<Rightarrow> jstring list
     \<Rightarrow> entity list \<Rightarrow> ('v, 'v entity_row) call list
     \<Rightarrow> (error + (jstring \<times> index_entry) list \<times> jstring list) \<times> ('v, 'v entity_row) call list" where
  "entity_capture_loop cfg e index created [] tr = (Inr (index, created), tr)"
| "entity_capture_loop cfg e index created (en # ens) tr =
     (if en_name en = [] then entity_capture_loop cfg e index created ens tr
      else
        (case embed e (length tr) (entity_summary cfg en) of
           Inl err \<Rightarrow> (Inl err, tr @ [Embed (entity_summary cfg en)])
         | Inr vector \<Rightarrow>
             (case store e (Suc (length tr)) (U ''entities'') (entity_row_of cfg (date_now e) en vector) of
                Inl err \<Rightarrow>
                  (Inl err, tr @ [Embed (entity_summary cfg en),
                                  Store (U ''entities'') (entity_row_of cfg (date_now e) en vector)])
              | Inr u \<Rightarrow>
                  entity_capture_loop cfg e
                    (AList.update (entity_key (toLowerCase e) en)
                       \<lparr>ix_name = en_name en, ix_type = en_type en,
                        ix_summary = entity_summary cfg en, ix_updatedAt = date_now e\<rparr> index)
                    (created @ [entity_key (toLowerCase e) en]) ens
                    (tr @ [Embed (entity_summary cfg en),
                           Store (U ''entities'') (entity_row_of cfg (date_now e) en vector)]))))"

definition agent_end_entity ::
  "(jstring \<Rightarrow> entity list) \<Rightarrow> entity_cfg \<Rightarrow> ('v, 'v entity_row, 'f) env
     \<Rightarrow> (jstring \<times> index_entry) list \<Rightarrow> message option list option
     \<Rightarrow> ('v, 'v entity_row) call list \<Rightarrow> (error + unit) \<times> ('v, 'v entity_row) call list" where
  "agent_end_entity extractEntitiesFromText cfg e index0 event tr =
     (case event of
        None \<Rightarrow> (Inr (), tr)
      | Some messages \<Rightarrow>
          if messages = [] then (Inr (), tr)
          else if collect_texts messages = [] then (Inr (), tr)
          else
            (case entity_capture_loop cfg e index0 []
                    (concat (map extractEntitiesFromText (collect_texts messages))) tr of
               (Inl err, tr') \<Rightarrow> (Inl err, tr')
             | (Inr (index, created), tr') \<Rightarrow>
                 if created = [] then (Inr (), tr') else (Inr (), tr' @ [SaveIndex index])))"

text \<open>
  The recall handler of the entity plugin. The length test is its first statement; the
  index is then matched by name, and \<open>alwaysRecall\<close> or the keyword test only decides
  whether the embedding provider and the vector table are consulted as well.
  \<^verbatim>\<open>
  async (event) => {
    if (!event?.prompt || event.prompt.length < 3) return;
    const prompt = event.prompt;
    const index = loadIndex(indexPath);
    const promptLower = prompt.toLowerCase();
    const matched = [];
    for (const key of Object.keys(index.entities || {})) {
      const entry = index.entities[key];
      if (!entry || !entry.name) continue;
      if (promptLower.includes(String(entry.name).toLowerCase())) matched.push(entry);
    }
    const allowVector = cfg.alwaysRecall || shouldRecallEntities(prompt);
    const vectorResults = [];
    if (allowVector) {
      try {
        const vector = await embeddings.embed(prompt);
        const results = await table.search(vector, cfg.recallLimit, cfg.minScore);
        for (const item of results)
          vectorResults.push({ name: item.entry.name, type: item.entry.type, summary: item.entry.text });
      } catch (err) {
        api.logger?.warn?.(`memory-entity: recall failed: ${String(err)}`);
      }
    }
    const combined = [];
    const seen = new Set();
    for (const entry of [...matched, ...vectorResults]) {
      if (!entry) continue;
      const key = `${String(entry.type || "entity").toLowerCase()}::${String(entry.name || "").toLowerCase()}`;
      if (seen.has(key)) continue;
      seen.add(key);
      combined.push(entry);
      if (combined.length >= cfg.recallLimit) break;
    }
    if (!combined.length) return;
    const lines = combined.map((entry, idx) => {
      const summary = entry.summary || "";
      const label = entry.type ? `[${entry.type}]` : "[entity]";
      return `${idx + 1}. ${label} ${truncate(summary, 400)}`;
    });
    const body = truncate(lines.join("\n"), cfg.maxChars);
    recordRouting("entity", body.length);
    return { prependContext: `<entity-memories>\n${body}\n</entity-memories>` };
  }
  \<close>
\<close>

definition shouldRecallEntities :: "(jstring \<Rightarrow> jstring) \<Rightarrow> jstring \<Rightarrow> bool" where
  "shouldRecallEntities lower prompt =
     regex_test
       (map (\<lambda>w. lit (U w))
          [''cliente'', ''client'', ''perfil'', ''profile'', ''entity'', ''staff'', ''equipo'', ''team'',
           ''service'', ''svc'', ''vendor'', ''proveedor'', ''partner'', ''project'', ''producto'',
           ''product'', ''account'', ''cuenta''])
       (lower prompt)"

fun index_matches :: "(jstring \<Rightarrow> jstring) \<Rightarrow> jstring \<Rightarrow> (jstring \<times> index_entry) list \<Rightarrow> entity_view list" where
  "index_matches lower promptLower [] = []"
| "index_matches lower promptLower ((key, entry) # rest) =
     (if ix_name entry = [] then index_matches lower promptLower rest
      else if regex_test [lit (lower (ix_name entry))] promptLower
      then \<lparr>ev_name = ix_name entry, ev_type = ix_type entry, ev_summary = ix_summary entry\<rparr>
             # index_matches lower promptLower rest
      else index_matches lower promptLower rest)"

definition entity_vector_results :: "entity_cfg \<Rightarrow> entity_found list \<Rightarrow> entity_view list" where
  "entity_vector_results cfg rows =
     map (\<lambda>row. \<lparr>ev_name = nf_name row, ev_type = nf_type row, ev_summary = nf_text row\<rparr>)
       (filter (\<lambda>row. 1 / (1 + (case nf_distance row of None \<Rightarrow> 0 | Some d \<Rightarrow> d)) \<ge> e_minScore cfg)
          rows)"

fun combine_loop :: "(jstring \<Rightarrow> jstring) \<Rightarrow> int \<Rightarrow> jstring list \<Rightarrow> entity_view list \<Rightarrow> entity_view list
    \<Rightarrow> entity_view list" where
  "combine_loop lower limit seen combined [] = combined"
| "combine_loop lower limit seen combined (entry # entries) =
     (let key = lower (if ev_type entry = [] then U ''entity'' else ev_type entry) @ U ''::''
                  @ lower (ev_name entry)
      in if key \<in> set seen then combine_loop lower limit seen combined entries
         else if int (length (combined @ [entry])) \<ge> limit then combined @ [entry]
         else combine_loop lower limit (key # seen) (combined @ [entry]) entries)"

fun entity_lines :: "nat \<Rightarrow> entity_view list \<Rightarrow> jstring list" where
  "entity_lines idx [] = []"
| "entity_lines idx (entry # entries) =
     (js_nat (idx + 1) @ U ''. ''
        @ (if ev_type entry = [] then U ''[entity]'' else U ''['' @ ev_type entry @ U '']'')
        @ U '' '' @ truncate (ev_summary entry) 400)
     # entity_lines (idx + 1) entries"

definition entity_vector_part ::
  "entity_cfg \<Rightarrow> ('v, 'w, entity_found) env \<Rightarrow> jstring \<Rightarrow> ('v, 'w) call list
     \<Rightarrow> entity_view list \<times> ('v, 'w) call list" where
  "entity_vector_part cfg e p tr =
     (case embed e (length tr) p of
        Inl err \<Rightarrow> ([], tr @ [Embed p, Warn (U ''memory-entity: recall failed: '' @ err_string err)])
      | Inr vector \<Rightarrow>
          (case vectorSearch e (Suc (length tr)) (U ''entities'') vector (e_recallLimit cfg) of
             Inl err \<Rightarrow>
               ([], tr @ [Embed p, Search (U ''entities'') vector (e_recallLimit cfg),
                          Warn (U ''memory-entity: recall failed: '' @ err_string err)])
           | Inr rows \<Rightarrow>
               (entity_vector_results cfg rows,
                tr @ [Embed p, Search (U ''entities'') vector (e_recallLimit cfg)])))"

definition before_agent_start_entity ::
  "entity_cfg \<Rightarrow> ('v, 'w, entity_found) env \<Rightarrow> (jstring \<times> index_entry) list \<Rightarrow> jstring option
     \<Rightarrow> ('v, 'w) call list \<Rightarrow> (error + jstring option) \<times> ('v, 'w) call list" where
  "before_agent_start_entity cfg e index prompt tr =
     (case prompt of
        None \<Rightarrow> (Inr None, tr)
      | Some p \<Rightarrow>
          if p = [] \<or> length p < 3 then (Inr None, tr)
          else
            (let matched = index_matches (toLowerCase e) (toLowerCase e p) index;
                 (vectorResults, tr1) =
                   (if e_alwaysRecall cfg \<or> shouldRecallEntities (toLowerCase e) p
                    then entity_vector_part cfg e p tr else ([], tr));
                 combined = combine_loop (toLowerCase e) (e_recallLimit cfg) [] [] (matched @ vectorResults)
             in if combined = [] then (Inr None, tr1)
                else
                  (let body = truncate (js_join [10] (entity_lines 0 combined)) (e_maxChars cfg)
                   in (Inr (Some (U ''<entity-memories>'' @ [10] @ body @ [10] @ U ''</entity-memories>'')),
                       tr1 @ [Routing (U ''entity'') (int (length body))]))))"

section \<open>Episodic and procedural plugin\<close>

definition digit :: "nat \<Rightarrow> bool" where
  "digit u = (48 \<le> u \<and> u \<le> 57)"

text \<open>
  The keyword tests of the two layers, on \<open>prompt.toLowerCase()\<close>; the accented letters
  are the code units 243 (o acute), 250 (u acute) and 237 (i acute), and one
  alternative is \<open>hace \d+\<close>.
\<close>

definition shouldRecallEpisodic :: "(jstring \<Rightarrow> jstring) \<Rightarrow> jstring \<Rightarrow> bool" where
  "shouldRecallEpisodic lower prompt =
     regex_test
       (map lit
          [U ''que paso'', U ''que ha pasado'', U ''que ocurri'' @ [243], U ''que ocurrio'',
           U ''cuando'', U ''ayer'', U ''hace un'', U ''hace una'', U ''hace poco'']
        @ [lit (U ''hace '') @ [plus digit]]
        @ map lit
          [U ''la otra vez'', U ''ultima vez'', [250] @ U ''ltima vez'', U ''reciente'', U ''recent'',
           U ''recently'', U ''semana pasada'', U ''mes pasado'', U ''la vez pasada'', U ''last week'',
           U ''yesterday'', U ''previous'', U ''previously'', U ''earlier'', U ''the other day'',
           U ''historial'', U ''historia'', U ''registro'', U ''log'', U ''evento'', U ''timeline''])
       (lower prompt)"

definition shouldRecallProcedural :: "(jstring \<Rightarrow> jstring) \<Rightarrow> jstring \<Rightarrow> bool" where
  "shouldRecallProcedural lower prompt =
     regex_test
       (map lit
          [U ''como'', U ''c'' @ [243] @ U ''mo'', U ''how'', U ''procedimiento'', U ''pasos'',
           U ''paso a paso'', U ''instrucciones'', U ''guia'', U ''gu'' @ [237] @ U ''a'', U ''tutorial'',
           U ''checklist'', U ''check list'', U ''comandos'', U ''comando'', U ''runbook'', U ''playbook'',
           U ''workflow'', U ''orquest'', U ''arregl'', U ''resolv'', U ''fix'', U ''solved'',
           U ''solucion'', U ''soluci'' @ [243] @ U ''n'', U ''diagnostic'', U ''diagnostico'',
           U ''diagn'' @ [243] @ U ''stico'', U ''setup'', U ''instal'', U ''configur'', U ''verificar'',
           U ''verificacion'', U ''verificaci'' @ [243] @ U ''n''])
       (lower prompt)"

text \<open>
  \<^verbatim>\<open>
  async function recallEntries(table, embeddings, query, cfg) {
    const vector = await embeddings.embed(query);
    const raw = await table.search(vector, cfg.recallLimit * 3);
    const scored = raw.map((item) => {
      const adjusted = computeDecayScore(item.score, item.entry.createdAt, cfg.halfLifeDays);
      return { ...item, adjustedScore: adjusted };
    });
    scored.sort((a, b) => b.adjustedScore - a.adjustedScore);
    const filtered = scored.filter((item) => item.adjustedScore >= cfg.minScore);
    return filtered.slice(0, cfg.recallLimit);
  }
  \<close>
\<close>

definition epiproc_adjusted :: "int \<Rightarrow> layer_cfg \<Rightarrow> epiproc_found \<Rightarrow> real" where
  "epiproc_adjusted now cfg row =
     computeDecayScore_createdAt now
       (1 / (1 + (case ef_distance row of None \<Rightarrow> 0 | Some d \<Rightarrow> d)))
       (ef_createdAt row) (l_halfLifeDays cfg)"

definition recallEntries ::
  "jstring \<Rightarrow> layer_cfg \<Rightarrow> ('v, 'w, epiproc_found) env \<Rightarrow> jstring \<Rightarrow> ('v, 'w) call list
     \<Rightarrow> (error + epiproc_found list) \<times> ('v, 'w) call list" where
  "recallEntries table cfg e query tr =
     (case embed e (length tr) query of
        Inl err \<Rightarrow> (Inl err, tr @ [Embed query])
      | Inr vector \<Rightarrow>
          (case vectorSearch e (Suc (length tr)) table vector (l_recallLimit cfg * 3) of
             Inl err \<Rightarrow> (Inl err, tr @ [Embed query, Search table vector (l_recallLimit cfg * 3)])
           | Inr raw \<Rightarrow>
               (Inr (js_slice0
                       (filter (\<lambda>row. epiproc_adjusted (date_now e) cfg row \<ge> l_minScore cfg)
                          (sort_key (\<lambda>row. - epiproc_adjusted (date_now e) cfg row) raw))
                       (l_recallLimit cfg)),
                tr @ [Embed query, Search table vector (l_recallLimit cfg * 3)])))"

text \<open>
  \<open>formatEpisodicContext\<close> and \<open>formatProceduralContext\<close>; the empty string is the falsy
  result for no entries.
\<close>

fun episodic_lines :: "nat \<Rightarrow> epiproc_found list \<Rightarrow> jstring list" where
  "episodic_lines idx [] = []"
| "episodic_lines idx (row # rows) =
     (js_nat (idx + 1) @ U ''. '' @ truncate (ef_text row) 400) # episodic_lines (idx + 1) rows"

definition formatEpisodicContext :: "epiproc_found list \<Rightarrow> jstring" where
  "formatEpisodicContext entries =
     (if entries = [] then []
      else U ''<episodic-memories>'' @ [10] @ js_join [10] (episodic_lines 0 entries) @ [10]
             @ U ''</episodic-memories>'')"

fun procedural_lines :: "(jstring \<rightharpoonup> nat \<times> nat) \<Rightarrow> nat \<Rightarrow> epiproc_found list \<Rightarrow> jstring list" where
  "procedural_lines stats idx [] = []"
| "procedural_lines stats idx (row # rows) =
     (js_nat (idx + 1) @ U ''. '' @ truncate (ef_text row) 420 @ [10] @ U ''   Success rate: ''
        @ (if ef_patternKey row = [] then U ''n/a''
           else case stats (ef_patternKey row) of
                  None \<Rightarrow> U ''n/a''
                | Some (n_success, n_total) \<Rightarrow> js_nat n_success @ U ''/'' @ js_nat n_total))
     # procedural_lines stats (idx + 1) rows"

definition formatProceduralContext :: "epiproc_found list \<Rightarrow> (jstring \<rightharpoonup> nat \<times> nat) \<Rightarrow> jstring" where
  "formatProceduralContext entries stats =
     (if entries = [] then []
      else U ''<procedural-memories>'' @ [10] @ js_join [10] (procedural_lines stats 0 entries) @ [10]
             @ U ''</procedural-memories>'')"

text \<open>
  One layer of the recall handler: the body of a \<open>try\<close> whose \<open>catch\<close> logs a warning.
  The result is the formatted part, empty when there is none.
  \<^verbatim>\<open>
  try {
    const episodic = await recallEntries(episodicTable, embeddings, prompt, cfg.episodic);
    const formatted = formatEpisodicContext(episodic);
    if (formatted) { recordRouting("episodic", formatted.length); parts.push(formatted); }
  } catch (err) {
    api.logger?.warn?.(`memory-epiproc: episodic recall failed: ${String(err)}`);
  }
  \<close>
\<close>

definition recall_layer ::
  "jstring \<Rightarrow> jstring \<Rightarrow> (epiproc_found list \<Rightarrow> jstring) \<Rightarrow> layer_cfg
     \<Rightarrow> ('v, 'w, epiproc_found) env \<Rightarrow> jstring \<Rightarrow> ('v, 'w) call list
     \<Rightarrow> jstring \<times> ('v, 'w) call list" where
  "recall_layer table layer format cfg e prompt tr =
     (case recallEntries table cfg e prompt tr of
        (Inl err, tr') \<Rightarrow>
          ([], tr' @ [Warn (U ''memory-epiproc: '' @ layer @ U '' recall failed: '' @ err_string err)])
      | (Inr entries, tr') \<Rightarrow>
          if format entries = [] then ([], tr')
          else (format entries, tr' @ [Routing layer (int (length (format entries)))]))"

text \<open>
  \<^verbatim>\<open>
  async (event, ctx) => {
    if (!event?.prompt || event.prompt.length < 5) return;
    const prompt = event.prompt;
    const episodicAllowed = cfg.episodic.enabled && (cfg.episodic.alwaysRecall || shouldRecallEpisodic(prompt));
    const proceduralAllowed = cfg.procedural.enabled && (cfg.procedural.alwaysRecall || shouldRecallProcedural(prompt));
    if (!episodicAllowed && !proceduralAllowed) return;
    const parts = [];
    const stats = loadStats(statsPath);
    if (episodicAllowed) { ... }
    if (proceduralAllowed) { ... }
    if (!parts.length) return;
    return { prependContext: parts.join("\n\n") };
  }
  \<close>
  \<open>stats\<close> is the content of the statistics file as \<open>loadStats\<close> returns it.
\<close>

definition before_agent_start_epiproc ::
  "epiproc_cfg \<Rightarrow> ('v, 'w, epiproc_found) env \<Rightarrow> (jstring \<rightharpoonup> nat \<times> nat) \<Rightarrow> jstring option
     \<Rightarrow> ('v, 'w) call list \<Rightarrow> (error + jstring option) \<times> ('v, 'w) call list" where
  "before_agent_start_epiproc cfg e stats prompt tr =
     (case prompt of
        None \<Rightarrow> (Inr None, tr)
      | Some p \<Rightarrow>
          if p = [] \<or> length p < 5 then (Inr None, tr)
          else
            (let episodicAllowed = (l_enabled (episodic cfg)
                   \<and> (l_alwaysRecall (episodic cfg) \<or> shouldRecallEpisodic (toLowerCase e) p));
                 proceduralAllowed = (l_enabled (procedural cfg)
                   \<and> (l_alwaysRecall (procedural cfg) \<or> shouldRecallProcedural (toLowerCase e) p))
             in if \<not> episodicAllowed \<and> \<not> proceduralAllowed then (Inr None, tr)
                else
                  (let (part1, tr1) =
                         (if episodicAllowed
                          then recall_layer (U ''episodes'') (U ''episodic'') formatEpisodicContext
                                 (episodic cfg) e p tr
                          else ([], tr));
                       (part2, tr2) =
                         (if proceduralAllowed
                          then recall_layer (U ''procedures'') (U ''procedural'')
                                 (\<lambda>entries. formatProceduralContext entries stats)
                                 (procedural cfg) e p tr1
                          else ([], tr1));
                       parts = filter (\<lambda>part. part \<noteq> []) [part1, part2]
                   in if parts = [] then (Inr None, tr2)
                      else (Inr (Some (js_join [10, 10] parts)), tr2))))"

section \<open>Environments for concrete runs\<close>

text \<open>
  An environment in which every external call succeeds: the embedding is the vector 0,
  the store accepts every row, the search finds nothing; lower-casing is the identity
  (enough for strings without capital letters).
\<close>

definition quiet_env :: "(nat, 'w, 'f) env" where
  "quiet_env = \<lparr>embed = (\<lambda>n t. Inr 0), store = (\<lambda>n table row. Inr ()),
      vectorSearch = (\<lambda>n table v limit. Inr []), date_now = 1793577600000, toLowerCase = (\<lambda>s. s)\<rparr>"

text \<open>An environment in which the embedding provider refuses every request.\<close>

definition refusing_env :: "(nat, 'w, 'f) env" where
  "refusing_env = \<lparr>embed = (\<lambda>n t. Inl (ExternalCallError (U ''Connection error.''))),
      store = (\<lambda>n table row. Inr ()), vectorSearch = (\<lambda>n table v limit. Inr []),
      date_now = 1793577600000, toLowerCase = (\<lambda>s. s)\<rparr>"

text \<open>
  The summary that the timeline plugin builds for the message
  \<open>event: rotated token=abcdef123456\<close> when the clock prints as
  \<open>2026-11-02T00:00:00.000Z\<close>.
\<close>

definition leak_summary :: jstring where
  "leak_summary = U ''Event: rotated token=abcdef123456'' @ [10]
     @ U ''Occurred: 2026-11-02T00:00:00.000Z'' @ [10] @ U ''Recorded: 2026-11-02T00:00:00.000Z''"

section \<open>Properties of double-precision rounding\<close>

lemma bitlen_unique:
  assumes "2 ^ k \<le> n" "n < 2 ^ (Suc k)"
  shows "bitlen n = int k + 1"
proof -
  have pos: "0 < n" using assms(1) by (smt (verit) zero_less_power)
  from bitlen_bounds[OF pos] have b1: "2 ^ nat (bitlen n - 1) \<le> n" and b2: "n < 2 ^ nat (bitlen n)" by auto
  have bl: "1 \<le> bitlen n" using pos by (auto simp: bitlen_alt_def)
  have "(2::int) ^ k < 2 ^ nat (bitlen n)" using assms(1) b2 by linarith
  then have "k < nat (bitlen n)" by simp
  moreover have "(2::int) ^ nat (bitlen n - 1) < 2 ^ Suc k" using assms(2) b1 by linarith
  then have "nat (bitlen n - 1) < Suc k" by (simp del: power_Suc)
  ultimately show ?thesis using bl by linarith
qed

lemma flog2_eq:
  assumes x: "0 < x" and lo: "2 powi e \<le> x" and hi: "x < 2 powi (e + 1)"
  shows "flog2 x = e"
proof (cases "1 \<le> x")
  case True
  have e0: "0 \<le> e"
  proof (rule ccontr)
    assume "\<not> 0 \<le> e"
    then have "e + 1 \<le> 0" by simp
    then have "(2::rat) powi (e + 1) \<le> 2 powi 0" by (intro power_int_increasing) auto
    with hi True show False by simp
  qed
  define k where "k = nat e"
  have ek: "e = int k" using e0 by (simp add: k_def)
  have lo': "(2::rat) ^ k \<le> x" using lo by (simp add: ek)
  have hi': "x < (2::rat) ^ Suc k" using hi by (simp add: ek power_int_add)
  have "of_int (2 ^ k) \<le> x" using lo' by simp
  then have a: "2 ^ k \<le> \<lfloor>x\<rfloor>" by (simp only: le_floor_iff)
  have "x < of_int (2 ^ Suc k)" using hi' by simp
  then have b: "\<lfloor>x\<rfloor> < 2 ^ Suc k" by (simp only: floor_less_iff)
  from bitlen_unique[OF a b] show ?thesis using True by (simp add: flog2_def ek)
next
  case False
  then have x1: "x < 1" by simp
  have e0: "e < 0"
  proof (rule ccontr)
    assume "\<not> e < 0"
    then have "(2::rat) powi 0 \<le> 2 powi e" by (intro power_int_increasing) auto
    with lo x1 show False by simp
  qed
  define k where "k = nat (- e - 1)"
  have ek: "e = - int k - 1" using e0 by (simp add: k_def)
  have p1: "(2::rat) powi (e + 1) = 1 / 2 ^ k" by (simp add: ek power_int_minus field_simps)
  have p0: "(2::rat) powi e = 1 / 2 ^ Suc k"
  proof -
    have "e = - int (Suc k)" using ek by simp
    then show ?thesis by (simp only: power_int_minus power_int_of_nat) (simp add: field_simps)
  qed
  have y1: "1 / x \<le> 2 ^ Suc k" using lo x unfolding p0 by (simp add: field_simps)
  have y0: "2 ^ k < 1 / x" using hi x unfolding p1 by (simp add: field_simps)
  have "1 / x \<le> of_int (2 ^ Suc k)" using y1 by simp
  then have c1: "\<lceil>1 / x\<rceil> \<le> 2 ^ Suc k" by (simp only: ceiling_le_iff)
  have "of_int (2 ^ k) < 1 / x" using y0 by simp
  then have c0: "2 ^ k < \<lceil>1 / x\<rceil>" by (simp only: less_ceiling_iff)
  have a: "2 ^ k \<le> \<lceil>1 / x\<rceil> - 1" using c0 by simp
  have b: "\<lceil>1 / x\<rceil> - 1 < 2 ^ Suc k" using c1 by simp
  from bitlen_unique[OF a b] show ?thesis using False by (simp add: flog2_def ek)
qed

lemma rne_div:
  "0 < b \<Longrightarrow> rne (of_int a / of_int b) =
     (if 2 * (a mod b) < b then a div b
      else if b < 2 * (a mod b) then a div b + 1
      else if even (a div b) then a div b else a div b + 1)"
proof -
  assume b: "0 < b"
  have f: "\<lfloor>(of_int a / of_int b :: rat)\<rfloor> = a div b" by (simp only: floor_divide_of_int_eq)
  have "(of_int a :: rat) = of_int (a div b * b + a mod b)" by simp
  also have "\<dots> = of_int (a div b) * of_int b + of_int (a mod b)"
    by (simp only: of_int_add of_int_mult)
  finally have "(of_int a / of_int b :: rat) = of_int (a div b) + of_int (a mod b) / of_int b"
    using b by (simp add: add_divide_distrib)
  then have d: "(of_int a / of_int b :: rat) - of_int (a div b) = of_int (a mod b) / of_int b" by simp
  have l: "(of_int (a mod b) / of_int b < (1 / 2 :: rat)) = (2 * (a mod b) < b)"
  proof -
    have "(of_int (a mod b) / of_int b < (1 / 2 :: rat)) = ((of_int (2 * (a mod b)) :: rat) < of_int b)"
      using b by (simp add: field_simps)
    then show ?thesis by (simp only: of_int_less_iff)
  qed
  have g: "((1 / 2 :: rat) < of_int (a mod b) / of_int b) = (b < 2 * (a mod b))"
  proof -
    have "((1 / 2 :: rat) < of_int (a mod b) / of_int b) = ((of_int b :: rat) < of_int (2 * (a mod b)))"
      using b by (simp add: field_simps)
    then show ?thesis by (simp only: of_int_less_iff)
  qed
  show ?thesis unfolding rne_def f d Let_def l g ..
qed

lemma fround_binade:
  assumes "x \<noteq> 0" and "2 powi k \<le> \<bar>x\<bar>" and "\<bar>x\<bar> < 2 powi (k + 1)" and "- 1022 \<le> k"
  shows "fround x = of_int (rne (x / 2 powi (k - 52))) * 2 powi (k - 52)"
proof -
  have "flog2 \<bar>x\<bar> = k" using assms by (intro flog2_eq) auto
  then show ?thesis using assms by (simp add: fround_def max_def Let_def)
qed


lemma fround_frac:
  assumes b: "0 < b" and n: "n \<le> 1074"
    and lo: "2 ^ 52 * b \<le> a * 2 ^ n" and hi: "a * 2 ^ n < 2 ^ 53 * b"
  shows "fround (of_int a / of_int b) =
           of_int (if 2 * ((a * 2 ^ n) mod b) < b then (a * 2 ^ n) div b
                   else if b < 2 * ((a * 2 ^ n) mod b) then (a * 2 ^ n) div b + 1
                   else if even ((a * 2 ^ n) div b) then (a * 2 ^ n) div b
                   else (a * 2 ^ n) div b + 1) / 2 ^ n"
proof -
  let ?x = "of_int a / of_int b :: rat"
  let ?k = "52 - int n"
  have apos: "0 < a"
  proof (rule ccontr)
    assume "\<not> 0 < a"
    then have "a * 2 ^ n \<le> 0" by (simp add: mult_le_0_iff)
    moreover have "(0::int) < 2 ^ 52 * b" using b by simp
    ultimately show False using lo by linarith
  qed
  have xpos: "0 < ?x" using apos b by simp
  have pk: "(2::rat) powi ?k = 2 ^ 52 / 2 ^ n"
    by (simp add: power_int_diff)
  have pk1: "(2::rat) powi (?k + 1) = 2 ^ 53 / 2 ^ n"
  proof -
    have "?k + 1 = 53 - int n" by simp
    then show ?thesis using power_int_diff[of "2::rat" 53 "int n"] by simp
  qed
  have ax: "\<bar>?x\<bar> = ?x" using xpos by (rule abs_of_pos)
  have lo': "(2::rat) powi ?k \<le> \<bar>?x\<bar>"
  proof -
    have "(of_int (2 ^ 52 * b) :: rat) \<le> of_int (a * 2 ^ n)" using lo by (simp only: of_int_le_iff)
    then have "(2 ^ 52 :: rat) * of_int b \<le> of_int a * 2 ^ n" by simp
    then have "(2 ^ 52 / 2 ^ n :: rat) \<le> of_int a / of_int b"
      using b by (simp add: field_simps)
    then show ?thesis unfolding pk ax .
  qed
  have hi': "\<bar>?x\<bar> < (2::rat) powi (?k + 1)"
  proof -
    have "(of_int (a * 2 ^ n) :: rat) < of_int (2 ^ 53 * b)" using hi by (simp only: of_int_less_iff)
    then have "of_int a * 2 ^ n < (2 ^ 53 :: rat) * of_int b" by simp
    then have "of_int a / of_int b < (2 ^ 53 / 2 ^ n :: rat)"
      using b by (simp add: field_simps)
    then show ?thesis unfolding pk1 ax .
  qed
  have kk: "- 1022 \<le> ?k" using n by simp
  have x0: "?x \<noteq> 0" using apos b by simp
  have e: "?k - 52 = - int n" by simp
  have pe: "(2::rat) powi (?k - 52) = 1 / 2 ^ n"
    unfolding e by (simp add: power_int_minus field_simps)
  have q: "?x / (2 powi (?k - 52)) = of_int (a * 2 ^ n) / of_int b"
    unfolding pe by simp
  have "fround ?x = of_int (rne (?x / 2 powi (?k - 52))) * 2 powi (?k - 52)"
    using x0 lo' hi' kk by (rule fround_binade)
  also have "\<dots> = of_int (rne (of_int (a * 2 ^ n) / of_int b)) / 2 ^ n"
    unfolding q pe by simp
  finally show ?thesis unfolding rne_div[OF b] .
qed

text \<open>The doubles of some decimal literals.\<close>

lemma d090: "fround (9 / 10) = 8106479329266893 / 2 ^ 53"
  using fround_frac[of "10" 53 "9"] by simp

lemma d085: "fround (85 / 100) = 7656119366529843 / 2 ^ 53"
  using fround_frac[of "20" 53 "17"] by simp

lemma d060: "fround (6 / 10) = 5404319552844595 / 2 ^ 53"
  using fround_frac[of "5" 53 "3"] by simp

lemma d030: "fround (3 / 10) = 5404319552844595 / 2 ^ 54"
  using fround_frac[of "10" 54 "3"] by simp

lemma d040: "fround (4 / 10) = 3602879701896397 / 2 ^ 53"
  using fround_frac[of "5" 54 "2"] by simp

lemma d008: "fround (8 / 100) = 5764607523034235 / 2 ^ 56"
  using fround_frac[of "25" 56 "2"] by simp

lemma d070: "fround (7 / 10) = 3152519739159347 / 2 ^ 52"
  using fround_frac[of "10" 53 "7"] by simp

lemma d082: "fround (82 / 100) = 7385903388887613 / 2 ^ 53"
  using fround_frac[of "50" 53 "41"] by simp

section \<open>Properties of the top-cluster selection\<close>

text \<open>The double differences of the scores used below.\<close>

lemma g_090_085: "fround (8106479329266893 / 2 ^ 53 - 7656119366529843 / 2 ^ 53) = 225179981368525 / 2 ^ 52"
  using fround_frac[of "2 ^ 52" 57 "225179981368525"] by simp

lemma g_085_060: "fround (7656119366529843 / 2 ^ 53 - 5404319552844595 / 2 ^ 53) = 1 / 2 ^ 2"
  using fround_frac[of "4" 54 "1"] by simp

lemma g_1_030: "fround (1 - 5404319552844595 / 2 ^ 54) = 3152519739159347 / 2 ^ 52"
  using fround_frac[of "2 ^ 54" 53 "12610078956637389"] by simp

lemma g_090_082: "fround (8106479329266893 / 2 ^ 53 - 7385903388887613 / 2 ^ 53) = 45035996273705 / 2 ^ 49"
  using fround_frac[of "2 ^ 49" 56 "45035996273705"] by simp

lemma gap_scenario_1: "fround (fround (9 / 10) - fround (85 / 100)) \<le> fround (8 / 100)"
  unfolding d090 d085 d008 g_090_085 by simp

lemma gap_scenario_2: "\<not> fround (fround (85 / 100) - fround (6 / 10)) \<le> fround (8 / 100)"
  unfolding d085 d060 d008 g_085_060 by simp

lemma gap_tie: "fround (1 - fround (3 / 10)) \<le> fround (7 / 10)"
  and gap_tie_exact: "\<not> 1 - fround (3 / 10) \<le> fround (7 / 10)"
  unfolding d030 d070 g_1_030 by simp_all

lemma gap_decimal: "\<not> fround (fround (9 / 10) - fround (82 / 100)) \<le> fround (8 / 100)"
  and gap_decimal_exact: "(9 / 10 :: rat) - 82 / 100 \<le> 8 / 100"
  unfolding d090 d082 d008 g_090_082 by simp_all

lemma scenario_scores:
  "\<not> fround (9 / 10) < fround (4 / 10)" "\<not> fround (85 / 100) < fround (4 / 10)"
  "\<not> fround (6 / 10) < fround (4 / 10)" "fround (3 / 10) < fround (4 / 10)"
  "\<not> fround (9 / 10) < fround (82 / 100)" "\<not> fround (82 / 100) < fround (82 / 100)"
  unfolding d090 d085 d060 d030 d040 d082 by simp_all

lemma take_prefix_enough: "n \<le> length xs \<Longrightarrow> take n (xs @ zs) = take n xs"
  by simp

lemma js_slice0_trunc: "0 \<le> m \<Longrightarrow> js_slice0 xs (js_trunc m) = take (nat \<lfloor>m\<rfloor>) xs"
  by (simp add: js_slice0_def js_trunc_def)

lemma floor_le_length: "(m::rat) \<le> of_nat n \<Longrightarrow> nat \<lfloor>m\<rfloor> \<le> n"
proof -
  assume "m \<le> of_nat n"
  then have "\<lfloor>m\<rfloor> \<le> \<lfloor>(of_nat n :: rat)\<rfloor>" by (rule floor_mono)
  then show ?thesis by simp
qed

lemma cluster_loop_nonempty: "selected \<noteq> [] \<Longrightarrow> cluster_loop cfg selected rest \<noteq> []"
  by (induction rest arbitrary: selected) (auto simp: Let_def)

lemma cluster_loop_acc:
  "selected \<noteq> [] \<Longrightarrow>
   take (nat \<lfloor>rr_maxDocuments cfg\<rfloor>) (cluster_loop cfg selected rest) =
   take (nat \<lfloor>rr_maxDocuments cfg\<rfloor>)
     (selected @ gap_from double_drop (rr_minGap cfg) (s_score (last selected))
        (filter (\<lambda>i. \<not> s_score i < rr_minScore cfg) rest))"
proof (induction rest arbitrary: selected)
  case Nil
  then show ?case by simp
next
  case (Cons item rest)
  let ?n = "nat \<lfloor>rr_maxDocuments cfg\<rfloor>"
  let ?f = "filter (\<lambda>i. \<not> s_score i < rr_minScore cfg)"
  show ?case
  proof (cases "s_score item < rr_minScore cfg")
    case True
    with Cons show ?thesis by simp
  next
    case False
    show ?thesis
    proof (cases "fround (s_score (last selected) - s_score item) \<le> rr_minGap cfg")
      case gap: True
      have gf: "gap_from double_drop (rr_minGap cfg) (s_score (last selected)) (?f (item # rest)) =
              item # gap_from double_drop (rr_minGap cfg) (s_score item) (?f rest)"
        using False gap by (simp add: double_drop_def)
      show ?thesis
      proof (cases "of_nat (length (selected @ [item])) \<ge> rr_maxDocuments cfg")
        case True
        then have "?n \<le> length (selected @ [item])" by (rule floor_le_length)
        then have "take ?n ((selected @ [item]) @ zs) = take ?n (selected @ [item])" for zs
          by (rule take_prefix_enough)
        from this[of "gap_from double_drop (rr_minGap cfg) (s_score item) (?f rest)"]
        have "take ?n (selected @ [item]) =
              take ?n (selected @ item # gap_from double_drop (rr_minGap cfg) (s_score item) (?f rest))"
          by simp
        moreover have "cluster_loop cfg selected (item # rest) = selected @ [item]"
          using False gap True Cons.prems by (simp add: Let_def)
        ultimately show ?thesis unfolding gf by simp
      next
        case nf: False
        have "take ?n (cluster_loop cfg (selected @ [item]) rest) =
              take ?n ((selected @ [item]) @ gap_from double_drop (rr_minGap cfg)
                (s_score (last (selected @ [item]))) (?f rest))"
          by (rule Cons.IH) simp
        moreover have "cluster_loop cfg selected (item # rest) = cluster_loop cfg (selected @ [item]) rest"
          using False gap nf Cons.prems by (simp add: Let_def)
        ultimately show ?thesis unfolding gf by simp
      qed
    next
      case False2: False
      then show ?thesis using False Cons.prems by (simp add: double_drop_def)
    qed
  qed
qed

lemma cluster_loop_empty_acc:
  "cluster_loop cfg [] items =
     (case filter (\<lambda>i. \<not> s_score i < rr_minScore cfg) items of
        [] \<Rightarrow> [] | x # xs \<Rightarrow> cluster_loop cfg [x] (tl (dropWhile (\<lambda>i. s_score i < rr_minScore cfg) items)))"
  by (induction items) (auto split: list.splits)

lemma filter_dropWhile_tl:
  "filter (\<lambda>i. \<not> P i) items = x # xs \<Longrightarrow> filter (\<lambda>i. \<not> P i) (tl (dropWhile P items)) = xs"
  by (induction items) (auto split: if_splits)

lemma selectTopCluster_refines:
  assumes "0 \<le> rr_maxDocuments cfg"
  shows "selectTopCluster items cfg =
         selectCluster_spec double_drop items (rr_minScore cfg) (rr_minGap cfg) (nat \<lfloor>rr_maxDocuments cfg\<rfloor>)"
proof (cases "filter (\<lambda>i. \<not> s_score i < rr_minScore cfg) items")
  case Nil
  then have "cluster_loop cfg [] items = []" by (simp add: cluster_loop_empty_acc)
  with Nil assms show ?thesis
    by (simp add: selectTopCluster_def selectCluster_spec_def js_slice0_trunc)
next
  case (Cons x xs)
  let ?rest = "tl (dropWhile (\<lambda>i. s_score i < rr_minScore cfg) items)"
  have cl: "cluster_loop cfg [] items = cluster_loop cfg [x] ?rest"
    using Cons by (simp add: cluster_loop_empty_acc)
  have ne: "cluster_loop cfg [] items \<noteq> []" unfolding cl by (rule cluster_loop_nonempty) simp
  have fx: "filter (\<lambda>i. \<not> s_score i < rr_minScore cfg) ?rest = xs"
    using Cons by (rule filter_dropWhile_tl)
  have "take (nat \<lfloor>rr_maxDocuments cfg\<rfloor>) (cluster_loop cfg [x] ?rest) =
        take (nat \<lfloor>rr_maxDocuments cfg\<rfloor>) ([x] @ gap_from double_drop (rr_minGap cfg) (s_score (last [x])) xs)"
    using cluster_loop_acc[of "[x]" cfg ?rest] fx by simp
  then show ?thesis using ne cl Cons assms
    by (simp add: selectTopCluster_def selectCluster_spec_def js_slice0_trunc Let_def)
qed

lemma selectCluster_spec_length: "length (selectCluster_spec diff items lo g n) \<le> n"
  by (simp add: selectCluster_spec_def Let_def)

lemma selectCluster_spec_fallback:
  "\<forall>i\<in>set items. s_score i < lo \<Longrightarrow> selectCluster_spec diff items lo g n = take n items"
proof -
  assume "\<forall>i\<in>set items. s_score i < lo"
  then have "filter (\<lambda>i. \<not> s_score i < lo) items = []"
    by (simp add: filter_empty_conv)
  then show ?thesis by (simp add: selectCluster_spec_def)
qed

text \<open>
  C3, as stated, fails: the code does not test the drop itself against the gap but the
  double difference. With the scores 1 and 0.3 and \<open>minGap\<close> 0.7 (all three as the doubles
  they are) the drop exceeds the gap, the double 0.3 being below 3/10 and the double 0.7
  below 7/10; but the double difference rounds to the double 0.7, and the code selects
  both items. Read on the decimal values, the claim fails the other way:
  with the scores 0.9 and 0.82 and the default gap 0.08 the drop is the gap, but the
  double difference is larger than the double 0.08, and the code selects one item.
\<close>

theorem selectTopCluster_counterexample:
  "selectTopCluster
      [\<lparr>s_text = U ''a'', s_category = U ''fact'', s_score = 1\<rparr>,
       \<lparr>s_text = U ''b'', s_category = U ''fact'', s_score = fround (3 / 10)\<rparr>]
      \<lparr>rr_minScore = 0, rr_minGap = fround (7 / 10), rr_maxDocuments = 8\<rparr>
     = [\<lparr>s_text = U ''a'', s_category = U ''fact'', s_score = 1\<rparr>,
        \<lparr>s_text = U ''b'', s_category = U ''fact'', s_score = fround (3 / 10)\<rparr>]
   \<and> selectCluster_spec exact_drop
      [\<lparr>s_text = U ''a'', s_category = U ''fact'', s_score = 1\<rparr>,
       \<lparr>s_text = U ''b'', s_category = U ''fact'', s_score = fround (3 / 10)\<rparr>]
      0 (fround (7 / 10)) 8
     = [\<lparr>s_text = U ''a'', s_category = U ''fact'', s_score = 1\<rparr>]
   \<and> map s_text (selectTopCluster
      [\<lparr>s_text = U ''a'', s_category = U ''fact'', s_score = fround (9 / 10)\<rparr>,
       \<lparr>s_text = U ''b'', s_category = U ''fact'', s_score = fround (82 / 100)\<rparr>]
      \<lparr>rr_minScore = fround (82 / 100), rr_minGap = fround (8 / 100), rr_maxDocuments = 8\<rparr>)
     = [U ''a'']
   \<and> map s_text (selectCluster_spec exact_drop
      [\<lparr>s_text = U ''a'', s_category = U ''fact'', s_score = 9 / 10\<rparr>,
       \<lparr>s_text = U ''b'', s_category = U ''fact'', s_score = 82 / 100\<rparr>]
      (82 / 100) (8 / 100) 8)
     = [U ''a'', U ''b'']"
proof -
  have p0: "\<not> fround (3 / 10) < 0" unfolding d030 by simp
  have a: "selectTopCluster
      [\<lparr>s_text = U ''a'', s_category = U ''fact'', s_score = 1\<rparr>,
       \<lparr>s_text = U ''b'', s_category = U ''fact'', s_score = fround (3 / 10)\<rparr>]
      \<lparr>rr_minScore = 0, rr_minGap = fround (7 / 10), rr_maxDocuments = 8\<rparr>
     = [\<lparr>s_text = U ''a'', s_category = U ''fact'', s_score = 1\<rparr>,
        \<lparr>s_text = U ''b'', s_category = U ''fact'', s_score = fround (3 / 10)\<rparr>]"
    using gap_tie p0 by (simp add: selectTopCluster_def js_slice0_def js_trunc_def)
  have b: "selectCluster_spec exact_drop
      [\<lparr>s_text = U ''a'', s_category = U ''fact'', s_score = 1\<rparr>,
       \<lparr>s_text = U ''b'', s_category = U ''fact'', s_score = fround (3 / 10)\<rparr>]
      0 (fround (7 / 10)) 8
     = [\<lparr>s_text = U ''a'', s_category = U ''fact'', s_score = 1\<rparr>]"
    using gap_tie_exact p0 by (simp add: selectCluster_spec_def exact_drop_def)
  have c: "map s_text (selectTopCluster
      [\<lparr>s_text = U ''a'', s_category = U ''fact'', s_score = fround (9 / 10)\<rparr>,
       \<lparr>s_text = U ''b'', s_category = U ''fact'', s_score = fround (82 / 100)\<rparr>]
      \<lparr>rr_minScore = fround (82 / 100), rr_minGap = fround (8 / 100), rr_maxDocuments = 8\<rparr>)
     = [U ''a'']"
    using gap_decimal scenario_scores(5,6) by (simp add: selectTopCluster_def js_slice0_def js_trunc_def)
  have d: "map s_text (selectCluster_spec exact_drop
      [\<lparr>s_text = U ''a'', s_category = U ''fact'', s_score = 9 / 10\<rparr>,
       \<lparr>s_text = U ''b'', s_category = U ''fact'', s_score = 82 / 100\<rparr>]
      (82 / 100) (8 / 100) 8)
     = [U ''a'', U ''b'']"
    by (simp add: selectCluster_spec_def exact_drop_def)
  from a b c d show ?thesis by blast
qed

text \<open>
  C3, amended. On every input list (sorted or not) and for every non-negative
  \<open>maxDocuments\<close>, \<open>selectTopCluster\<close> computes exactly the selection the specification
  describes, with the drop taken as the code computes it, the difference of the two
  scores rounded to the nearest double: items below \<open>minScore\<close> are skipped without
  stopping, later items are accepted while this drop from the previously selected item
  is at most the gap, the walk stops at the first gap break or at \<open>maxDocuments\<close> items.
  It never returns more than \<open>maxDocuments\<close> items; when no item reaches \<open>minScore\<close> it
  returns the first \<open>maxDocuments\<close> input items in order; and with
  \<open>{minScore: 0.4, maxGap: 0.08, maxCount: 3}\<close> and scores \<open>[0.9, 0.85, 0.6, 0.3]\<close> it
  returns the items scored \<open>[0.9, 0.85]\<close>.
\<close>

theorem selectTopCluster_cluster:
  "0 \<le> rr_maxDocuments cfg \<Longrightarrow>
     selectTopCluster items cfg =
       selectCluster_spec double_drop items (rr_minScore cfg) (rr_minGap cfg) (nat \<lfloor>rr_maxDocuments cfg\<rfloor>)
   \<and> of_nat (length (selectTopCluster items cfg)) \<le> rr_maxDocuments cfg
   \<and> ((\<forall>i\<in>set items. s_score i < rr_minScore cfg) \<longrightarrow>
        selectTopCluster items cfg = take (nat \<lfloor>rr_maxDocuments cfg\<rfloor>) items)
   \<and> selectTopCluster
        [\<lparr>s_text = t1, s_category = c1, s_score = fround (9 / 10)\<rparr>,
         \<lparr>s_text = t2, s_category = c2, s_score = fround (85 / 100)\<rparr>,
         \<lparr>s_text = t3, s_category = c3, s_score = fround (6 / 10)\<rparr>,
         \<lparr>s_text = t4, s_category = c4, s_score = fround (3 / 10)\<rparr>]
        \<lparr>rr_minScore = fround (4 / 10), rr_minGap = fround (8 / 100), rr_maxDocuments = 3\<rparr> =
        [\<lparr>s_text = t1, s_category = c1, s_score = fround (9 / 10)\<rparr>,
         \<lparr>s_text = t2, s_category = c2, s_score = fround (85 / 100)\<rparr>]"
proof -
  assume m: "0 \<le> rr_maxDocuments cfg"
  let ?n = "nat \<lfloor>rr_maxDocuments cfg\<rfloor>"
  have r: "selectTopCluster items cfg =
       selectCluster_spec double_drop items (rr_minScore cfg) (rr_minGap cfg) ?n"
    using m by (rule selectTopCluster_refines)
  have "length (selectTopCluster items cfg) \<le> ?n"
    unfolding r by (rule selectCluster_spec_length)
  then have "(of_nat (length (selectTopCluster items cfg)) :: rat) \<le> of_nat ?n" by simp
  also have "(of_nat ?n :: rat) = of_int \<lfloor>rr_maxDocuments cfg\<rfloor>" using m by simp
  also have "\<dots> \<le> rr_maxDocuments cfg" by (rule of_int_floor_le)
  finally have l: "of_nat (length (selectTopCluster items cfg)) \<le> rr_maxDocuments cfg" .
  have f: "(\<forall>i\<in>set items. s_score i < rr_minScore cfg) \<longrightarrow>
        selectTopCluster items cfg = take ?n items"
    unfolding r by (simp add: selectCluster_spec_fallback)
  have e: "selectTopCluster
        [\<lparr>s_text = t1, s_category = c1, s_score = fround (9 / 10)\<rparr>,
         \<lparr>s_text = t2, s_category = c2, s_score = fround (85 / 100)\<rparr>,
         \<lparr>s_text = t3, s_category = c3, s_score = fround (6 / 10)\<rparr>,
         \<lparr>s_text = t4, s_category = c4, s_score = fround (3 / 10)\<rparr>]
        \<lparr>rr_minScore = fround (4 / 10), rr_minGap = fround (8 / 100), rr_maxDocuments = 3\<rparr> =
        [\<lparr>s_text = t1, s_category = c1, s_score = fround (9 / 10)\<rparr>,
         \<lparr>s_text = t2, s_category = c2, s_score = fround (85 / 100)\<rparr>]"
    using gap_scenario_1 gap_scenario_2 scenario_scores(1-4)
    by (simp add: selectTopCluster_def js_slice0_def js_trunc_def)
  from r l f e show ?thesis by blast
qed

theorem selectTopCluster_cluster_witness:
  "(0::rat) \<le> rr_maxDocuments \<lparr>rr_minScore = fround (4 / 10), rr_minGap = fround (8 / 100), rr_maxDocuments = 1\<rparr>
   \<and> list_all (\<lambda>i. s_score i < rr_minScore \<lparr>rr_minScore = fround (4 / 10), rr_minGap = fround (8 / 100), rr_maxDocuments = 1\<rparr>)
        [\<lparr>s_text = U ''a'', s_category = U ''fact'', s_score = fround (3 / 10)\<rparr>,
         \<lparr>s_text = U ''b'', s_category = U ''fact'', s_score = fround (2 / 10)\<rparr>]
   \<and> selectTopCluster
        [\<lparr>s_text = U ''a'', s_category = U ''fact'', s_score = fround (3 / 10)\<rparr>,
         \<lparr>s_text = U ''b'', s_category = U ''fact'', s_score = fround (2 / 10)\<rparr>]
        \<lparr>rr_minScore = fround (4 / 10), rr_minGap = fround (8 / 100), rr_maxDocuments = 1\<rparr> =
       [\<lparr>s_text = U ''a'', s_category = U ''fact'', s_score = fround (3 / 10)\<rparr>]"
proof -
  let ?cfg = "\<lparr>rr_minScore = fround (4 / 10), rr_minGap = fround (8 / 100), rr_maxDocuments = 1\<rparr>"
  let ?items = "[\<lparr>s_text = U ''a'', s_category = U ''fact'', s_score = fround (3 / 10)\<rparr>,
                 \<lparr>s_text = U ''b'', s_category = U ''fact'', s_score = fround (2 / 10)\<rparr>]"
  have h: "0 \<le> rr_maxDocuments ?cfg" by simp
  have d020: "fround (2 / 10) = 3602879701896397 / 2 ^ 54"
    using fround_frac[of 5 55 1] by simp
  have lt: "fround (3 / 10) < fround (4 / 10)" "fround (2 / 10) < fround (4 / 10)"
    unfolding d030 d040 d020 by simp_all
  then have b: "\<forall>i\<in>set ?items. s_score i < rr_minScore ?cfg" by simp
  from selectTopCluster_cluster [OF h, of ?items]
  have "(\<forall>i\<in>set ?items. s_score i < rr_minScore ?cfg) \<longrightarrow>
        selectTopCluster ?items ?cfg = take (nat \<lfloor>rr_maxDocuments ?cfg\<rfloor>) ?items"
    by blast
  with b have "selectTopCluster ?items ?cfg = take (nat \<lfloor>rr_maxDocuments ?cfg\<rfloor>) ?items"
    by blast
  then have "selectTopCluster ?items ?cfg = [\<lparr>s_text = U ''a'', s_category = U ''fact'', s_score = fround (3 / 10)\<rparr>]"
    by simp
  with h b show ?thesis by (simp add: list_all_iff)
qed

section \<open>Properties of truncation\<close>

lemma length_js_trim: "length (js_trim s) \<le> length s"
proof -
  have "length (js_trimEnd t) \<le> length t" for t
    unfolding js_trimEnd_def using length_dropWhile_le[of js_space "rev t"] by simp
  moreover have "length (js_trimStart s) \<le> length s"
    unfolding js_trimStart_def by (rule length_dropWhile_le)
  ultimately show ?thesis unfolding js_trim_def using order_trans by blast
qed

lemma U_length: "length (U s) = length s"
  by (simp add: U_def)

text \<open>
  C10, as stated, fails: \<open>trim()\<close> strips white space at both ends of the slice, so
  leading white space is lost too (\<open>truncate("  abcdef", 4)\<close> is \<open>"ab..."\<close>, not
  \<open>"  ab..."\<close>), and the reranker's copy appends one character, not three.
\<close>

theorem truncate_counterexample:
  "truncate (U ''  abcdef'') 4 \<noteq> truncate_spec (U ''  abcdef'') 4
   \<and> truncate_rerank (U ''abcdef'') 3 \<noteq> truncate_spec (U ''abcdef'') 3"
  by (simp add: truncate_def truncate_rerank_def truncate_spec_def U_def js_trim_def
      js_trimEnd_def js_trimStart_def js_slice0_def js_space_def)

text \<open>
  C10, amended. Truncation is not a strict length bound: for every string \<open>s\<close>,
  \<open>truncate\<close> returns \<open>s\<close> unchanged when \<open>s\<close> has at most \<open>maxChars\<close> characters;
  otherwise, for a non-negative limit, it returns the first \<open>maxChars\<close> characters
  with white space trimmed at both ends, plus the three characters \<open>...\<close> (plus the
  single character U+2026 in the reranker's copy). The result can therefore exceed
  \<open>maxChars\<close> by up to 3 characters (by 1 in the reranker), and the bound is reached:
  \<open>truncate("abcdef", 3)\<close> has 6 characters.
\<close>

theorem truncate_not_strict:
  "(int (length s) \<le> maxChars \<longrightarrow> truncate s maxChars = s \<and> truncate_rerank s maxChars = s)
   \<and> (0 \<le> maxChars \<and> maxChars < int (length s) \<longrightarrow>
        truncate s maxChars = js_trim (take (nat maxChars) s) @ U ''...''
      \<and> truncate_rerank s maxChars = js_trim (take (nat maxChars) s) @ [8230]
      \<and> int (length (truncate s maxChars)) \<le> maxChars + 3
      \<and> int (length (truncate_rerank s maxChars)) \<le> maxChars + 1)
   \<and> truncate (U ''abcdef'') 3 = U ''abc...''
   \<and> int (length (truncate (U ''abcdef'') 3)) = 3 + 3"
proof -
  have a: "int (length s) \<le> maxChars \<longrightarrow> truncate s maxChars = s \<and> truncate_rerank s maxChars = s"
    by (simp add: truncate_def truncate_rerank_def)
  have b: "truncate s maxChars = js_trim (take (nat maxChars) s) @ U ''...''
      \<and> truncate_rerank s maxChars = js_trim (take (nat maxChars) s) @ [8230]
      \<and> int (length (truncate s maxChars)) \<le> maxChars + 3
      \<and> int (length (truncate_rerank s maxChars)) \<le> maxChars + 1"
    if h: "0 \<le> maxChars" "maxChars < int (length s)"
  proof -
    from h have ne: "s \<noteq> []" by auto
    have t: "truncate s maxChars = js_trim (take (nat maxChars) s) @ U ''...''"
      using h ne by (simp add: truncate_def js_slice0_def)
    have r: "truncate_rerank s maxChars = js_trim (take (nat maxChars) s) @ [8230]"
      using h ne by (simp add: truncate_rerank_def js_slice0_def)
    have "length (js_trim (take (nat maxChars) s)) \<le> nat maxChars"
      using length_js_trim[of "take (nat maxChars) s"] by simp
    then show ?thesis using h t r by (simp add: U_length)
  qed
  have c: "truncate (U ''abcdef'') 3 = U ''abc...''"
    by (simp add: truncate_def U_def js_trim_def js_trimEnd_def js_trimStart_def
      js_slice0_def js_space_def)
  have d: "int (length (truncate (U ''abcdef'') 3)) = 3 + 3"
    unfolding c by (simp add: U_def)
  from a b c d show ?thesis by blast
qed

theorem truncate_not_strict_witness:
  "(0::int) \<le> 4 \<and> 4 < int (length (U ''  abcdef''))
   \<and> truncate (U ''  abcdef'') 4 = U ''ab...''
   \<and> int (length (U ''abc'')) \<le> 4 \<and> truncate (U ''abc'') 4 = U ''abc''"
proof -
  have h: "(0::int) \<le> 4 \<and> 4 < int (length (U ''  abcdef''))" by (simp add: U_def)
  have k: "int (length (U ''abc'')) \<le> 4" by (simp add: U_def)
  from truncate_not_strict [of "U ''  abcdef''" 4] h
  have "truncate (U ''  abcdef'') 4 = js_trim (take (nat 4) (U ''  abcdef'')) @ U ''...''"
    by blast
  then have 1: "truncate (U ''  abcdef'') 4 = U ''ab...''"
    by (simp add: U_def js_trim_def js_trimEnd_def js_trimStart_def js_space_def)
  from truncate_not_strict [of "U ''abc''" 4] k
  have 2: "truncate (U ''abc'') 4 = U ''abc''" by blast
  from h k 1 2 show ?thesis by blast
qed

section \<open>Properties of temporal decay\<close>

lemma decay_le: "0 \<le> s \<Longrightarrow> 0 < h \<Longrightarrow> 0 \<le> a \<Longrightarrow> s * exp (- a / h) \<le> (s::real)"
proof -
  assume s: "0 \<le> s" and h: "0 < h" and a: "0 \<le> a"
  have "- a / h \<le> 0" using h a by (simp add: divide_nonpos_pos)
  then have "exp (- a / h) \<le> 1" by simp
  then show ?thesis using s by (simp add: mult_left_le)
qed

lemma createdAt_refines:
  "computeDecayScore_createdAt now score ts hl = adjust_spec now score ts hl"
  by (simp add: computeDecayScore_createdAt_def adjust_spec_def Let_def zero_less_mult_iff mult_le_0_iff)

lemma updatedAt_refines:
  "computeDecayScore now score updatedAt hl =
     adjust_spec now score (case updatedAt of None \<Rightarrow> now | Some t \<Rightarrow> if t = 0 then now else t) hl"
  by (simp add: computeDecayScore_def adjust_spec_def Let_def)

lemma adjust_spec_le:
  "0 \<le> s \<Longrightarrow> adjust_spec now s ts hl \<le> s"
proof (cases "hl \<le> 0")
  case True
  then show ?thesis by (simp add: adjust_spec_def)
next
  case False
  assume s: "0 \<le> s"
  from False have h: "0 < hl * 86400000" by simp
  have a: "0 \<le> real_of_int (max 0 (now - ts))" by simp
  from decay_le [OF s h a] False show ?thesis by (simp add: adjust_spec_def)
qed

lemma adjust_spec_eq_iff:
  "0 < s \<Longrightarrow> 0 < hl \<Longrightarrow> adjust_spec now s ts hl = s \<longleftrightarrow> max 0 (now - ts) = 0"
  by (simp add: adjust_spec_def)

text \<open>
  C4, as stated, fails for the goal and timeline copy at the record timestamp 0: a
  falsy timestamp is replaced by the clock, so the age is 0 instead of \<open>now - 0\<close> and
  the score is returned undecayed.
\<close>

theorem computeDecayScore_counterexample:
  "computeDecayScore 86400000 1 (Some 0) 1 \<noteq> adjust_spec 86400000 1 0 1"
  by (simp add: computeDecayScore_def adjust_spec_def)

text \<open>
  C4, amended. For every raw score in \<open>(0,1]\<close>: if \<open>halfLifeDays > 0\<close>, the adjusted
  score of the episodic/procedural and graph copy is
  \<open>rawScore * exp(-ageMs / halfLifeMs)\<close> with \<open>ageMs = max(0, now - recordTimestamp)\<close> for
  every timestamp, and so is that of the goal and timeline copy for every non-zero
  timestamp, while a zero or missing timestamp there counts as \<open>now\<close> (age 0, score
  unchanged). In every case the adjusted score is at most \<open>rawScore\<close>, with equality
  only at age 0. If \<open>halfLifeDays \<le> 0\<close> the score is returned unchanged.
\<close>

theorem computeDecayScore_decay:
  "0 < rawScore \<and> rawScore \<le> 1 \<Longrightarrow>
     (0 < halfLifeDays \<longrightarrow>
        computeDecayScore_createdAt now rawScore ts halfLifeDays =
          rawScore * exp (- real_of_int (max 0 (now - ts)) / (halfLifeDays * 86400000))
      \<and> (ts \<noteq> 0 \<longrightarrow> computeDecayScore now rawScore (Some ts) halfLifeDays =
          rawScore * exp (- real_of_int (max 0 (now - ts)) / (halfLifeDays * 86400000)))
      \<and> computeDecayScore now rawScore (Some 0) halfLifeDays = rawScore
      \<and> computeDecayScore now rawScore None halfLifeDays = rawScore
      \<and> computeDecayScore_createdAt now rawScore ts halfLifeDays \<le> rawScore
      \<and> computeDecayScore now rawScore updatedAt halfLifeDays \<le> rawScore
      \<and> (computeDecayScore_createdAt now rawScore ts halfLifeDays = rawScore
           \<longleftrightarrow> max 0 (now - ts) = 0)
      \<and> (ts \<noteq> 0 \<longrightarrow> (computeDecayScore now rawScore (Some ts) halfLifeDays = rawScore
           \<longleftrightarrow> max 0 (now - ts) = 0)))
   \<and> (halfLifeDays \<le> 0 \<longrightarrow>
        computeDecayScore_createdAt now rawScore ts halfLifeDays = rawScore
      \<and> computeDecayScore now rawScore updatedAt halfLifeDays = rawScore)"
proof -
  assume r: "0 < rawScore \<and> rawScore \<le> 1"
  then have r0: "0 \<le> rawScore" and rp: "0 < rawScore" by simp_all
  have pos: "?thesis" if h: "0 < halfLifeDays"
  proof -
    have 1: "computeDecayScore_createdAt now rawScore ts halfLifeDays =
          rawScore * exp (- real_of_int (max 0 (now - ts)) / (halfLifeDays * 86400000))"
      using h by (simp add: createdAt_refines adjust_spec_def)
    have 2: "ts \<noteq> 0 \<longrightarrow> computeDecayScore now rawScore (Some ts) halfLifeDays =
          rawScore * exp (- real_of_int (max 0 (now - ts)) / (halfLifeDays * 86400000))"
      using h by (simp add: updatedAt_refines adjust_spec_def)
    have 3: "computeDecayScore now rawScore (Some 0) halfLifeDays = rawScore"
      using h by (simp add: updatedAt_refines adjust_spec_def)
    have 4: "computeDecayScore now rawScore None halfLifeDays = rawScore"
      using h by (simp add: updatedAt_refines adjust_spec_def)
    have 5: "computeDecayScore_createdAt now rawScore ts halfLifeDays \<le> rawScore"
      unfolding createdAt_refines using r0 by (rule adjust_spec_le)
    have 6: "computeDecayScore now rawScore updatedAt halfLifeDays \<le> rawScore"
      unfolding updatedAt_refines using r0 by (rule adjust_spec_le)
    have 7: "computeDecayScore_createdAt now rawScore ts halfLifeDays = rawScore
           \<longleftrightarrow> max 0 (now - ts) = 0"
      unfolding createdAt_refines using rp h by (rule adjust_spec_eq_iff)
    have 8: "ts \<noteq> 0 \<longrightarrow> (computeDecayScore now rawScore (Some ts) halfLifeDays = rawScore
           \<longleftrightarrow> max 0 (now - ts) = 0)"
      using adjust_spec_eq_iff[OF rp h, of now ts] by (simp add: updatedAt_refines)
    from 1 2 3 4 5 6 7 8 h show ?thesis by simp
  qed
  have nonpos: "?thesis" if h: "halfLifeDays \<le> 0"
    using h by (simp add: createdAt_refines updatedAt_refines adjust_spec_def)
  from pos nonpos show ?thesis by linarith
qed

theorem computeDecayScore_decay_witness:
  "(0::real) < 1 / 2 \<and> (1::real) / 2 \<le> 1 \<and> (0::real) < 1
   \<and> computeDecayScore_createdAt 172800000 (1 / 2) 86400000 1 = 1 / 2 * exp (- 1)
   \<and> computeDecayScore 172800000 (1 / 2) (Some 86400000) 1 = 1 / 2 * exp (- 1)
   \<and> computeDecayScore 172800000 (1 / 2) (Some 86400000) 1 \<le> 1 / 2
   \<and> (0::real) \<le> 0
   \<and> computeDecayScore 172800000 (1 / 2) (Some 86400000) 0 = 1 / 2"
proof -
  have r: "(0::real) < 1 / 2 \<and> (1::real) / 2 \<le> 1" by simp
  have h: "(0::real) < 1" by simp
  have z: "(0::real) \<le> 0" by simp
  have n: "(86400000::int) \<noteq> 0" by simp
  from computeDecayScore_decay [OF r, of 1 172800000 86400000 "Some 86400000"] h n
  have a: "computeDecayScore_createdAt 172800000 (1 / 2) 86400000 1 =
           1 / 2 * exp (- real_of_int (max 0 (172800000 - 86400000)) / (1 * 86400000))"
    and b: "computeDecayScore 172800000 (1 / 2) (Some 86400000) 1 =
           1 / 2 * exp (- real_of_int (max 0 (172800000 - 86400000)) / (1 * 86400000))"
    and c: "computeDecayScore 172800000 (1 / 2) (Some 86400000) 1 \<le> 1 / 2"
    by blast+
  from computeDecayScore_decay [OF r, of 0 172800000 86400000 "Some 86400000"] z
  have d: "computeDecayScore 172800000 (1 / 2) (Some 86400000) 0 = 1 / 2"
    by blast
  from a have a': "computeDecayScore_createdAt 172800000 (1 / 2) 86400000 1 = 1 / 2 * exp (- 1)"
    by simp
  from b have b': "computeDecayScore 172800000 (1 / 2) (Some 86400000) 1 = 1 / 2 * exp (- 1)"
    by simp
  from r h z a' b' c d show ?thesis by blast
qed

section \<open>Properties of the routing ledger\<close>

lemma js_round_div: "0 < b \<Longrightarrow> js_round (of_int a / of_int b) = (2 * a + b) div (2 * b)"
proof -
  assume b: "0 < b"
  have "(of_int a / of_int b + 1 / 2 :: rat) = of_int (2 * a + b) / of_int (2 * b)"
    using b by (simp add: field_simps)
  then show ?thesis unfolding js_round_def by (simp only: floor_divide_of_int_eq)
qed

lemma stats_of_finalize:
  "stats_of (finalizeRoutingSession m) =
     (stats_of m)\<lparr>
        sessions := Some (or0 (sessions (stats_of m)) + 1),
        total_session_chars := Some (or0 (total_session_chars (stats_of m)) + or0 (current_session_chars (stats_of m))),
        total_session_activations := Some (or0 (total_session_activations (stats_of m)) + or0 (current_session_activations (stats_of m))),
        after_routing_avg :=
          Some (if or0 (sessions (stats_of m)) + 1 \<noteq> 0
                then js_round (of_int (or0 (total_session_chars (stats_of m)) + or0 (current_session_chars (stats_of m)))
                        / of_int (or0 (sessions (stats_of m)) + 1))
                else 0),
        last_session_chars := Some (or0 (current_session_chars (stats_of m))),
        last_session_activations := Some (or0 (current_session_activations (stats_of m))),
        current_session_chars := Some 0,
        current_session_activations := Some 0\<rparr>"
  by (simp add: finalizeRoutingSession_def stats_of_def Let_def)

text \<open>
  C5, as stated, fails: the second finalization increments \<open>sessions\<close> again and
  recomputes the average over the larger count (in the scenario, 3 sessions and an
  average of 500 become 4 sessions and 375).
\<close>

theorem finalize_twice_counterexample:
  "sessions (stats_of (finalizeRoutingSession (finalizeRoutingSession scenario_ledger)))
     \<noteq> sessions (stats_of (finalizeRoutingSession scenario_ledger))
   \<and> after_routing_avg (stats_of (finalizeRoutingSession (finalizeRoutingSession scenario_ledger)))
     \<noteq> after_routing_avg (stats_of (finalizeRoutingSession scenario_ledger))"
  using js_round_div[of 4 1500] js_round_div[of 3 1500]
  by (simp add: stats_of_finalize)
     (simp add: scenario_ledger_def stats_of_def empty_stats_def or0_def)

text \<open>
  C5, amended. Running session finalization twice in a row without an intervening
  activation leaves \<open>total_session_chars\<close> and \<open>total_session_activations\<close> unchanged the
  second time and keeps the current-session counters at zero, but it is not a no-op:
  \<open>sessions\<close> grows by one more, and the all-time average is recomputed as
  \<open>round(total_session_chars / sessions)\<close> over the incremented count. In the scenario
  the first run gives 3 sessions, 1500 characters and an average of 500, the second run
  4 sessions, 1500 characters and an average of 375.
\<close>

theorem finalize_twice:
  "total_session_chars (stats_of (finalizeRoutingSession (finalizeRoutingSession m)))
     = total_session_chars (stats_of (finalizeRoutingSession m))
   \<and> total_session_activations (stats_of (finalizeRoutingSession (finalizeRoutingSession m)))
     = total_session_activations (stats_of (finalizeRoutingSession m))
   \<and> sessions (stats_of (finalizeRoutingSession (finalizeRoutingSession m)))
     = Some (or0 (sessions (stats_of (finalizeRoutingSession m))) + 1)
   \<and> after_routing_avg (stats_of (finalizeRoutingSession (finalizeRoutingSession m)))
     = Some (if or0 (sessions (stats_of (finalizeRoutingSession m))) + 1 = 0 then 0
             else js_round (of_int (or0 (total_session_chars (stats_of (finalizeRoutingSession m))))
                    / of_int (or0 (sessions (stats_of (finalizeRoutingSession m))) + 1)))
   \<and> current_session_chars (stats_of (finalizeRoutingSession (finalizeRoutingSession m))) = Some 0
   \<and> current_session_activations (stats_of (finalizeRoutingSession (finalizeRoutingSession m))) = Some 0
   \<and> sessions (stats_of (finalizeRoutingSession scenario_ledger)) = Some 3
   \<and> total_session_chars (stats_of (finalizeRoutingSession scenario_ledger)) = Some 1500
   \<and> after_routing_avg (stats_of (finalizeRoutingSession scenario_ledger)) = Some 500
   \<and> sessions (stats_of (finalizeRoutingSession (finalizeRoutingSession scenario_ledger))) = Some 4
   \<and> total_session_chars (stats_of (finalizeRoutingSession (finalizeRoutingSession scenario_ledger))) = Some 1500
   \<and> after_routing_avg (stats_of (finalizeRoutingSession (finalizeRoutingSession scenario_ledger))) = Some 375"
proof -
  have g: "total_session_chars (stats_of (finalizeRoutingSession (finalizeRoutingSession m)))
     = total_session_chars (stats_of (finalizeRoutingSession m))
   \<and> total_session_activations (stats_of (finalizeRoutingSession (finalizeRoutingSession m)))
     = total_session_activations (stats_of (finalizeRoutingSession m))
   \<and> sessions (stats_of (finalizeRoutingSession (finalizeRoutingSession m)))
     = Some (or0 (sessions (stats_of (finalizeRoutingSession m))) + 1)
   \<and> after_routing_avg (stats_of (finalizeRoutingSession (finalizeRoutingSession m)))
     = Some (if or0 (sessions (stats_of (finalizeRoutingSession m))) + 1 = 0 then 0
             else js_round (of_int (or0 (total_session_chars (stats_of (finalizeRoutingSession m))))
                    / of_int (or0 (sessions (stats_of (finalizeRoutingSession m))) + 1)))
   \<and> current_session_chars (stats_of (finalizeRoutingSession (finalizeRoutingSession m))) = Some 0
   \<and> current_session_activations (stats_of (finalizeRoutingSession (finalizeRoutingSession m))) = Some 0"
    by (simp add: stats_of_finalize[of "finalizeRoutingSession m"])
       (simp add: stats_of_finalize[of m] or0_def)
  have e: "sessions (stats_of (finalizeRoutingSession scenario_ledger)) = Some 3
   \<and> total_session_chars (stats_of (finalizeRoutingSession scenario_ledger)) = Some 1500
   \<and> after_routing_avg (stats_of (finalizeRoutingSession scenario_ledger)) = Some 500
   \<and> sessions (stats_of (finalizeRoutingSession (finalizeRoutingSession scenario_ledger))) = Some 4
   \<and> total_session_chars (stats_of (finalizeRoutingSession (finalizeRoutingSession scenario_ledger))) = Some 1500
   \<and> after_routing_avg (stats_of (finalizeRoutingSession (finalizeRoutingSession scenario_ledger))) = Some 375"
    using js_round_div[of 4 1500] js_round_div[of 3 1500]
    by (simp add: stats_of_finalize)
       (simp add: scenario_ledger_def stats_of_def empty_stats_def or0_def)
  from g e show ?thesis by blast
qed

lemma toFixed2_div:
  "0 \<le> a \<Longrightarrow> 0 < b \<Longrightarrow> toFixed2 (of_int a / of_int b) = of_int ((200 * a + b) div (2 * b)) / 100"
proof -
  assume a: "0 \<le> a" and b: "0 < b"
  have nn: "\<not> (of_int a / of_int b :: rat) < 0" using a b by (simp add: not_less)
  have "(of_int a / of_int b * 100 + 1 / 2 :: rat) = of_int (200 * a + b) / of_int (2 * b)"
    using b by (simp add: field_simps)
  then have "\<lfloor>(of_int a / of_int b * 100 + 1 / 2 :: rat)\<rfloor> = (200 * a + b) div (2 * b)"
    by (simp only: floor_divide_of_int_eq)
  then show ?thesis using nn by (simp add: toFixed2_def)
qed


lemma fround_nonneg: "0 \<le> x \<Longrightarrow> 0 \<le> fround x"
proof (cases "x = 0")
  case True
  then show ?thesis by (simp add: fround_def)
next
  case False
  assume "0 \<le> x"
  with False have x: "0 < x" by simp
  define e where "e = max (flog2 \<bar>x\<bar>) (- 1022) - 52"
  have p: "(0::rat) < 2 powi e" by (simp add: power_int_def)
  have "0 \<le> x / 2 powi e" using x p by simp
  then have "0 \<le> \<lfloor>x / 2 powi e\<rfloor>" by simp
  then have "0 \<le> rne (x / 2 powi e)" by (simp add: rne_def Let_def)
  then have "0 \<le> (of_int (rne (x / 2 powi e)) :: rat) * 2 powi e" using p by simp
  then show ?thesis using False by (simp add: fround_def Let_def e_def)
qed

lemma toFixed2_nearest:
  assumes "0 \<le> x"
  shows "\<exists>k. toFixed2 x = of_int k / 100 \<and> of_int k / 100 - 1 / 200 \<le> x \<and> x < of_int k / 100 + 1 / 200"
proof -
  let ?k = "\<lfloor>x * 100 + 1 / 2\<rfloor>"
  have a: "of_int ?k \<le> x * 100 + 1 / 2" by (rule of_int_floor_le)
  have b: "x * 100 + 1 / 2 < of_int ?k + 1" using floor_correct[of "x * 100 + 1 / 2"] by simp
  have "toFixed2 x = of_int ?k / 100" using assms by (simp add: toFixed2_def not_less)
  moreover have "of_int ?k / 100 - 1 / 200 \<le> x" using a by (simp add: field_simps)
  moreover have "x < of_int ?k / 100 + 1 / 200" using b by (simp add: field_simps)
  ultimately show ?thesis by blast
qed

lemma feedback_entry_fields:
  assumes "useful_up e = Some u" and "useful_down e = Some d" and "0 \<le> u" and "0 \<le> d"
  shows "useful_up (feedback_entry now b proto e) = Some (u + (if b then 1 else 0))"
    and "useful_down (feedback_entry now b proto e) = Some (d + (if b then 0 else 1))"
    and "useful_rate (feedback_entry now b proto e) =
       Some (Num (fround (toFixed2 (fround (of_int (u + (if b then 1 else 0)) / of_int (u + d + 1))))))"
  using assms by (simp_all add: feedback_entry_def read_prop_def or0_def Let_def add_ac)

lemma count_fb_Cons:
  "count_fb l u ((l', u') # fbs) = (if l' = l \<and> u' = u then 1 else 0) + count_fb l u fbs"
  by (simp add: count_fb_def)

lemma count_fb_Nil: "count_fb l u [] = 0"
  by (simp add: count_fb_def)

lemma feedback_at_plain:
  "plain_layer r l \<Longrightarrow>
   feedback_at now r ls l u = Inr (r, ls(l \<mapsto> feedback_entry now u (object_prototype r) (entry_at ls l)))"
  by (simp add: feedback_at_def lookup_layer_def plain_layer_def entry_at_def split: option.splits)

lemma applyFeedback_loop_step:
  "l \<noteq> [] \<Longrightarrow> plain_layer r l \<Longrightarrow>
   applyFeedback_loop now r ls ((l, u) # fbs) =
     applyFeedback_loop now r (ls(l \<mapsto> feedback_entry now u (object_prototype r) (entry_at ls l))) fbs"
  by (simp add: feedback_at_plain)

lemma applyFeedback_loop_plain:
  "list_all (\<lambda>fb. plain_layer r (fst fb)) fbs \<Longrightarrow>
   fst (applyFeedback_loop now r ls fbs) = None \<and> fst (snd (applyFeedback_loop now r ls fbs)) = r"
proof (induction fbs arbitrary: ls)
  case Nil
  then show ?case by simp
next
  case (Cons fb fbs)
  obtain l u where fb: "fb = (l, u)" by (cases fb)
  from Cons.prems have pl: "plain_layer r l" and rest: "list_all (\<lambda>fb. plain_layer r (fst fb)) fbs"
    by (simp_all add: fb)
  show ?case
  proof (cases "l = []")
    case True
    then show ?thesis using Cons.IH[OF rest] by (simp add: fb)
  next
    case False
    show ?thesis unfolding fb applyFeedback_loop_step[OF False pl] by (rule Cons.IH[OF rest])
  qed
qed

lemma applyFeedback_loop_entry:
  assumes "layer \<noteq> []" and "list_all (\<lambda>fb. plain_layer r (fst fb)) fbs"
    and "useful_up (entry_at ls layer) = Some u" and "useful_down (entry_at ls layer) = Some d"
    and "0 \<le> u" and "0 \<le> d"
  shows "useful_up (entry_at (snd (snd (applyFeedback_loop now r ls fbs))) layer)
           = Some (u + int (count_fb layer True fbs))
       \<and> useful_down (entry_at (snd (snd (applyFeedback_loop now r ls fbs))) layer)
           = Some (d + int (count_fb layer False fbs))
       \<and> useful_rate (entry_at (snd (snd (applyFeedback_loop now r ls fbs))) layer)
           = (if count_fb layer True fbs + count_fb layer False fbs = 0
              then useful_rate (entry_at ls layer)
              else Some (Num (fround (toFixed2 (fround
                     (of_int (u + int (count_fb layer True fbs))
                      / of_int (u + d + int (count_fb layer True fbs) + int (count_fb layer False fbs))))))))"
  using assms
proof (induction fbs arbitrary: ls u d)
  case Nil
  then show ?case by (simp add: count_fb_Nil)
next
  case (Cons fb fbs)
  obtain l' u' where fb: "fb = (l', u')" by (cases fb)
  from Cons.prems(2) have pl: "plain_layer r l'" and rest: "list_all (\<lambda>fb. plain_layer r (fst fb)) fbs"
    by (simp_all add: fb)
  show ?case
  proof (cases "l' = layer")
    case False
    have cnt: "count_fb layer b (fb # fbs) = count_fb layer b fbs" for b
      using False by (simp add: fb count_fb_Cons)
    show ?thesis
    proof (cases "l' = []")
      case True
      have step: "applyFeedback_loop now r ls (fb # fbs) = applyFeedback_loop now r ls fbs"
        using True by (simp add: fb)
      show ?thesis unfolding step cnt
        by (rule Cons.IH[OF Cons.prems(1) rest Cons.prems(3-6)])
    next
      case ne: False
      let ?ls' = "ls(l' \<mapsto> feedback_entry now u' (object_prototype r) (entry_at ls l'))"
      have same: "entry_at ?ls' layer = entry_at ls layer"
        using False by (simp add: entry_at_def)
      have step: "applyFeedback_loop now r ls (fb # fbs) = applyFeedback_loop now r ?ls' fbs"
        unfolding fb by (rule applyFeedback_loop_step[OF ne pl])
      note IH = Cons.IH[of ?ls' u d, unfolded same, OF Cons.prems(1) rest Cons.prems(3-6)]
      show ?thesis unfolding step cnt by (rule IH)
    qed
  next
    case True
    let ?e0 = "entry_at ls layer"
    let ?e1 = "feedback_entry now u' (object_prototype r) ?e0"
    let ?ls1 = "ls(layer \<mapsto> ?e1)"
    let ?u1 = "u + (if u' then 1 else 0)"
    let ?d1 = "d + (if u' then 0 else 1)"
    let ?e' = "entry_at (snd (snd (applyFeedback_loop now r ?ls1 fbs))) layer"
    have step: "applyFeedback_loop now r ls (fb # fbs) = applyFeedback_loop now r ?ls1 fbs"
      unfolding fb True by (rule applyFeedback_loop_step[OF Cons.prems(1) pl[unfolded True]])
    have e1: "entry_at ?ls1 layer = ?e1" by (simp add: entry_at_def)
    note f = feedback_entry_fields[OF Cons.prems(3) Cons.prems(4) Cons.prems(5) Cons.prems(6),
        of now u' "object_prototype r"]
    have p1: "0 \<le> ?u1" and p2: "0 \<le> ?d1" using Cons.prems(5,6) by simp_all
    have "useful_up (entry_at ?ls1 layer) = Some ?u1" and "useful_down (entry_at ?ls1 layer) = Some ?d1"
      unfolding e1 using f by simp_all
    note IH = Cons.IH[OF Cons.prems(1) rest this p1 p2, unfolded e1]
    have cT: "count_fb layer True (fb # fbs) = (if u' then 1 else 0) + count_fb layer True fbs"
      and cF: "count_fb layer False (fb # fbs) = (if u' then 0 else 1) + count_fb layer False fbs"
      using True by (auto simp: fb count_fb_Cons)
    have IHu: "useful_up ?e' = Some (?u1 + int (count_fb layer True fbs))"
      and IHd: "useful_down ?e' = Some (?d1 + int (count_fb layer False fbs))"
      and IHr: "useful_rate ?e' =
        (if count_fb layer True fbs + count_fb layer False fbs = 0 then useful_rate ?e1
         else Some (Num (fround (toFixed2 (fround
                (of_int (?u1 + int (count_fb layer True fbs))
                 / of_int (?u1 + ?d1 + int (count_fb layer True fbs) + int (count_fb layer False fbs))))))))"
      using IH by blast+
    have up: "useful_up ?e' = Some (u + int (count_fb layer True (fb # fbs)))"
      unfolding IHu cT by (cases u') simp_all
    have down: "useful_down ?e' = Some (d + int (count_fb layer False (fb # fbs)))"
      unfolding IHd cF by (cases u') simp_all
    have pos: "count_fb layer True (fb # fbs) + count_fb layer False (fb # fbs) \<noteq> 0"
      unfolding cT cF by simp
    have tot: "?u1 + ?d1 = u + d + 1" by simp
    have rate: "useful_rate ?e' = Some (Num (fround (toFixed2 (fround
                (of_int (u + int (count_fb layer True (fb # fbs)))
                 / of_int (u + d + int (count_fb layer True (fb # fbs)) + int (count_fb layer False (fb # fbs))))))))"
    proof (cases "count_fb layer True fbs + count_fb layer False fbs = 0")
      case z: True
      then have z1: "count_fb layer True fbs = 0" and z2: "count_fb layer False fbs = 0" by simp_all
      have "useful_rate ?e' = useful_rate ?e1" using IHr z by simp
      also have "\<dots> = Some (Num (fround (toFixed2 (fround (of_int ?u1 / of_int (u + d + 1))))))"
        using f(3) .
      finally show ?thesis unfolding cT cF z1 z2 by (cases u') simp_all
    next
      case False
      with IHr have "useful_rate ?e' = Some (Num (fround (toFixed2 (fround
                (of_int (?u1 + int (count_fb layer True fbs))
                 / of_int (?u1 + ?d1 + int (count_fb layer True fbs) + int (count_fb layer False fbs)))))))"
        by (simp only: if_False)
      then show ?thesis unfolding cT cF by (cases u') (simp_all add: algebra_simps)
    qed
    have rate': "useful_rate ?e' =
        (if count_fb layer True (fb # fbs) + count_fb layer False (fb # fbs) = 0
         then useful_rate ?e0
         else Some (Num (fround (toFixed2 (fround
                (of_int (u + int (count_fb layer True (fb # fbs)))
                 / of_int (u + d + int (count_fb layer True (fb # fbs)) + int (count_fb layer False (fb # fbs)))))))))"
      using rate pos by (simp only: if_False)
    show ?thesis unfolding step using up down rate' by blast
  qed
qed

lemma layers_applyFeedback:
  "list_all (\<lambda>fb. plain_layer r (fst fb)) fbs \<Longrightarrow>
   fst (applyFeedback now r m fbs) = None \<and> fst (snd (applyFeedback now r m fbs)) = r
   \<and> layers (stats_of (snd (snd (applyFeedback now r m fbs))))
       = snd (snd (applyFeedback_loop now r (layers (stats_of m)) fbs))"
proof (cases "fbs = []")
  case True
  then show ?thesis by (simp add: applyFeedback_def)
next
  case False
  assume "list_all (\<lambda>fb. plain_layer r (fst fb)) fbs"
  from applyFeedback_loop_plain[OF this, of now "layers (stats_of m)"]
  obtain ls' where "applyFeedback_loop now r (layers (stats_of m)) fbs = (None, r, ls')"
    by (cases "applyFeedback_loop now r (layers (stats_of m)) fbs") auto
  then show ?thesis using False by (simp add: applyFeedback_def stats_of_def Let_def)
qed

lemma layers_record_each:
  "list_all (\<lambda>fb. plain_layer r (fst fb)) fbs \<Longrightarrow>
   fst (record_each now fbs (r, m)) = r
   \<and> layers (stats_of (snd (record_each now fbs (r, m))))
       = snd (snd (applyFeedback_loop now r (layers (stats_of m)) fbs))"
proof (induction fbs arbitrary: m)
  case Nil
  then show ?case by (simp add: record_each_def)
next
  case (Cons fb fbs)
  obtain l u where fb: "fb = (l, u)" by (cases fb)
  from Cons.prems have pl: "plain_layer r l" and rest: "list_all (\<lambda>fb. plain_layer r (fst fb)) fbs"
    by (simp_all add: fb)
  have unf: "record_each now ((l, u) # fbs) (r, m) = record_each now fbs (snd (recordRoutingFeedback now r l u m))"
    by (simp add: record_each_def)
  show ?case
  proof (cases "l = []")
    case True
    have "snd (recordRoutingFeedback now r l u m) = (r, m)" using True by (simp add: recordRoutingFeedback_def)
    then show ?thesis unfolding fb unf using Cons.IH[OF rest, of m] True by simp
  next
    case False
    let ?ls' = "(layers (stats_of m))(l \<mapsto> feedback_entry now u (object_prototype r) (entry_at (layers (stats_of m)) l))"
    let ?m' = "m\<lparr>routing_stats := Some ((stats_of m)\<lparr>layers := ?ls', last_updated_at := Some now\<rparr>)\<rparr>"
    have s: "snd (recordRoutingFeedback now r l u m) = (r, ?m')"
      using False by (simp add: recordRoutingFeedback_def feedback_at_plain[OF pl] Let_def)
    have l': "layers (stats_of ?m') = ?ls'" by (simp add: stats_of_def)
    show ?thesis unfolding fb unf s applyFeedback_loop_step[OF False pl]
      using Cons.IH[OF rest, of ?m'] unfolding l' .
  qed
qed

lemma feedback_rate:
  assumes l: "layer \<noteq> []" and p: "list_all (\<lambda>fb. plain_layer r (fst fb)) fbs"
    and fr: "no_feedback_yet m layer"
    and n: "count_fb layer True fbs = N" and mm: "count_fb layer False fbs = M"
  shows "useful_rate (entry_at (layers (stats_of (snd (snd (applyFeedback now r m fbs))))) layer)
           = (if N + M = 0 then None
              else Some (Num (fround (toFixed2 (fround (of_nat N / of_nat (N + M)))))))"
proof -
  let ?ls = "layers (stats_of m)"
  from fr have u0: "useful_up (entry_at ?ls layer) = Some 0" and d0: "useful_down (entry_at ?ls layer) = Some 0"
    and r0: "useful_rate (entry_at ?ls layer) = None"
    by (simp_all add: no_feedback_yet_def)
  have la: "layers (stats_of (snd (snd (applyFeedback now r m fbs))))
      = snd (snd (applyFeedback_loop now r ?ls fbs))"
    using layers_applyFeedback[OF p, of now m] by blast
  note L = applyFeedback_loop_entry[OF l p u0 d0, of now, unfolded n mm r0]
  show ?thesis unfolding la using L by simp
qed

lemma count_fb_replicate:
  "count_fb l u (replicate a (l, True) @ replicate b (l, False)) = (if u then a else b)"
  by (cases u) (simp_all add: count_fb_def)

lemma plain_goal: "plain_layer pristine_realm (U ''goal'')"
  and plain_entity: "plain_layer pristine_realm (U ''entity'')"
  by (simp_all add: plain_layer_def inherited_def pristine_realm_def no_props_def
      number_on_prototype_def object_prototype_functions_def U_def)

lemma fresh_goal: "no_feedback_yet \<lparr>routing_stats = None, token_savings = None\<rparr> (U ''goal'')"
  by (simp add: no_feedback_yet_def stats_of_def empty_stats_def entry_at_def fresh_entry_def)

lemma goal_name: "U ''goal'' \<noteq> []"
  by (simp add: U_def)

lemma rate_3_of_40: "fround (toFixed2 (fround (3 / 40))) = fround (7 / 100)"
proof -
  have q: "fround (3 / 40) = 5404319552844595 / 2 ^ 56"
    using fround_frac[of 40 56 3] by simp
  have t: "toFixed2 (5404319552844595 / 2 ^ 56) = 7 / 100"
    using toFixed2_div[of 5404319552844595 "2 ^ 56"] by simp
  show ?thesis unfolding q t ..
qed

lemma rate_1_of_40: "fround (toFixed2 (fround (1 / 40))) = fround (3 / 100)"
proof -
  have q: "fround (1 / 40) = 3602879701896397 / 2 ^ 57"
    using fround_frac[of 40 58 1] by simp
  have t: "toFixed2 (3602879701896397 / 2 ^ 57) = 3 / 100"
    using toFixed2_div[of 3602879701896397 "2 ^ 57"] by simp
  show ?thesis unfolding q t ..
qed

lemma d007: "fround (7 / 100) = 1261007895663739 / 2 ^ 54"
  using fround_frac[of 100 56 7] by simp

lemma d033: "fround (33 / 100) = 5944751508129055 / 2 ^ 54"
  using fround_frac[of 100 54 33] by simp

lemma d_third: "fround (1 / 3) = 6004799503160661 / 2 ^ 54"
  using fround_frac[of 3 54 1] by simp

text \<open>
  A layer name that the table inherits gets no entry: the counters go to
  \<open>Object.prototype\<close>, and a later event for a layer named like one of them throws.
\<close>

lemma feedback_on_number_throws:
  "fst (applyFeedback 0 pristine_realm \<lparr>routing_stats = None, token_savings = None\<rparr>
          [(U ''__proto__'', True), (U ''useful_up'', True)]) = Some TypeError"
proof -
  have n1: "U ''__proto__'' \<noteq> []" and n2: "U ''useful_up'' \<noteq> []" by (simp_all add: U_def)
  have l1: "lookup_layer pristine_realm Map.empty (U ''__proto__'') = ObjectPrototype"
    by (simp add: lookup_layer_def inherited_def)
  let ?r = "pristine_realm\<lparr>object_prototype :=
              feedback_entry 0 True no_props (object_prototype pristine_realm)\<rparr>"
  have up: "useful_up (object_prototype ?r) = Some 1"
    by (simp add: feedback_entry_def pristine_realm_def no_props_def read_prop_def or0_def Let_def)
  have l2: "lookup_layer ?r Map.empty (U ''useful_up'') = Primitive"
    unfolding lookup_layer_def inherited_def number_on_prototype_def up
    by (simp add: object_prototype_functions_def U_def)
  have "applyFeedback_loop 0 pristine_realm Map.empty [(U ''__proto__'', True), (U ''useful_up'', True)]
      = (Some TypeError, ?r, Map.empty)"
    using n1 n2 by (simp add: feedback_at_def l1 l2)
  then show ?thesis
    by (simp add: applyFeedback_def stats_of_def empty_stats_def del: applyFeedback_loop.simps)
qed




lemma ordinary_plain: "ordinary_layer name \<Longrightarrow> plain_layer r name"
  by (simp add: ordinary_layer_def plain_layer_def inherited_def number_on_prototype_def
      entry_properties_def)

lemma feedback_at_other:
  "feedback_at now r ls l u = Inr (r', ls') \<Longrightarrow> l \<noteq> layer \<Longrightarrow> entry_at ls' layer = entry_at ls layer"
  by (auto simp: feedback_at_def entry_at_def split: found.splits)

lemma applyFeedback_loop_entry_any:
  assumes "layer \<noteq> []" and "ordinary_layer layer"
    and "useful_up (entry_at ls layer) = Some u" and "useful_down (entry_at ls layer) = Some d"
    and "0 \<le> u" and "0 \<le> d"
    and "fst (applyFeedback_loop now r ls fbs) = None"
  shows "useful_up (entry_at (snd (snd (applyFeedback_loop now r ls fbs))) layer)
           = Some (u + int (count_fb layer True fbs))
       \<and> useful_down (entry_at (snd (snd (applyFeedback_loop now r ls fbs))) layer)
           = Some (d + int (count_fb layer False fbs))
       \<and> useful_rate (entry_at (snd (snd (applyFeedback_loop now r ls fbs))) layer)
           = (if count_fb layer True fbs + count_fb layer False fbs = 0
              then useful_rate (entry_at ls layer)
              else Some (Num (fround (toFixed2 (fround
                     (of_int (u + int (count_fb layer True fbs))
                      / of_int (u + d + int (count_fb layer True fbs) + int (count_fb layer False fbs))))))))"
  using assms
proof (induction fbs arbitrary: r ls u d)
  case Nil
  then show ?case by (simp add: count_fb_Nil)
next
  case (Cons fb fbs)
  obtain l' u' where fb: "fb = (l', u')" by (cases fb)
  show ?case
  proof (cases "l' = layer")
    case False
    have cnt: "count_fb layer b (fb # fbs) = count_fb layer b fbs" for b
      using False by (simp add: fb count_fb_Cons)
    show ?thesis
    proof (cases "l' = []")
      case True
      have step: "applyFeedback_loop now r ls (fb # fbs) = applyFeedback_loop now r ls fbs"
        using True by (simp add: fb)
      show ?thesis unfolding step cnt
        by (rule Cons.IH[OF Cons.prems(1-6) Cons.prems(7)[unfolded step]])
    next
      case ne: False
      show ?thesis
      proof (cases "feedback_at now r ls l' u'")
        case (Inl ex)
        then have "applyFeedback_loop now r ls (fb # fbs) = (Some ex, r, ls)"
          using ne by (simp add: fb)
        with Cons.prems(7) show ?thesis by simp
      next
        case (Inr res)
        obtain r' ls' where res: "res = (r', ls')" by (cases res)
        have step: "applyFeedback_loop now r ls (fb # fbs) = applyFeedback_loop now r' ls' fbs"
          using ne Inr by (simp add: fb res)
        have same: "entry_at ls' layer = entry_at ls layer"
          using feedback_at_other[OF Inr[unfolded res] False] .
        note IH = Cons.IH[of ls' u d r', unfolded same,
            OF Cons.prems(1-6) Cons.prems(7)[unfolded step]]
        show ?thesis unfolding step cnt by (rule IH)
      qed
    qed
  next
    case True
    have pl: "plain_layer r layer" using Cons.prems(2) by (rule ordinary_plain)
    let ?e0 = "entry_at ls layer"
    let ?e1 = "feedback_entry now u' (object_prototype r) ?e0"
    let ?ls1 = "ls(layer \<mapsto> ?e1)"
    let ?u1 = "u + (if u' then 1 else 0)"
    let ?d1 = "d + (if u' then 0 else 1)"
    let ?e' = "entry_at (snd (snd (applyFeedback_loop now r ?ls1 fbs))) layer"
    have step: "applyFeedback_loop now r ls (fb # fbs) = applyFeedback_loop now r ?ls1 fbs"
      unfolding fb True by (rule applyFeedback_loop_step[OF Cons.prems(1) pl])
    have e1: "entry_at ?ls1 layer = ?e1" by (simp add: entry_at_def)
    note f = feedback_entry_fields[OF Cons.prems(3) Cons.prems(4) Cons.prems(5) Cons.prems(6),
        of now u' "object_prototype r"]
    have p1: "0 \<le> ?u1" and p2: "0 \<le> ?d1" using Cons.prems(5,6) by simp_all
    have "useful_up (entry_at ?ls1 layer) = Some ?u1" and "useful_down (entry_at ?ls1 layer) = Some ?d1"
      unfolding e1 using f by simp_all
    note IH = Cons.IH[OF Cons.prems(1,2) this p1 p2 Cons.prems(7)[unfolded step], unfolded e1]
    have cT: "count_fb layer True (fb # fbs) = (if u' then 1 else 0) + count_fb layer True fbs"
      and cF: "count_fb layer False (fb # fbs) = (if u' then 0 else 1) + count_fb layer False fbs"
      using True by (auto simp: fb count_fb_Cons)
    have IHu: "useful_up ?e' = Some (?u1 + int (count_fb layer True fbs))"
      and IHd: "useful_down ?e' = Some (?d1 + int (count_fb layer False fbs))"
      and IHr: "useful_rate ?e' =
        (if count_fb layer True fbs + count_fb layer False fbs = 0 then useful_rate ?e1
         else Some (Num (fround (toFixed2 (fround
                (of_int (?u1 + int (count_fb layer True fbs))
                 / of_int (?u1 + ?d1 + int (count_fb layer True fbs) + int (count_fb layer False fbs))))))))"
      using IH by blast+
    have up: "useful_up ?e' = Some (u + int (count_fb layer True (fb # fbs)))"
      unfolding IHu cT by (cases u') simp_all
    have down: "useful_down ?e' = Some (d + int (count_fb layer False (fb # fbs)))"
      unfolding IHd cF by (cases u') simp_all
    have pos: "count_fb layer True (fb # fbs) + count_fb layer False (fb # fbs) \<noteq> 0"
      unfolding cT cF by simp
    have rate: "useful_rate ?e' = Some (Num (fround (toFixed2 (fround
                (of_int (u + int (count_fb layer True (fb # fbs)))
                 / of_int (u + d + int (count_fb layer True (fb # fbs)) + int (count_fb layer False (fb # fbs))))))))"
    proof (cases "count_fb layer True fbs + count_fb layer False fbs = 0")
      case z: True
      then have z1: "count_fb layer True fbs = 0" and z2: "count_fb layer False fbs = 0" by simp_all
      have "useful_rate ?e' = useful_rate ?e1" using IHr z by simp
      also have "\<dots> = Some (Num (fround (toFixed2 (fround (of_int ?u1 / of_int (u + d + 1))))))"
        using f(3) .
      finally show ?thesis unfolding cT cF z1 z2 by (cases u') simp_all
    next
      case False
      with IHr have "useful_rate ?e' = Some (Num (fround (toFixed2 (fround
                (of_int (?u1 + int (count_fb layer True fbs))
                 / of_int (?u1 + ?d1 + int (count_fb layer True fbs) + int (count_fb layer False fbs)))))))"
        by (simp only: if_False)
      then show ?thesis unfolding cT cF by (cases u') (simp_all add: algebra_simps)
    qed
    have rate': "useful_rate ?e' =
        (if count_fb layer True (fb # fbs) + count_fb layer False (fb # fbs) = 0
         then useful_rate ?e0
         else Some (Num (fround (toFixed2 (fround
                (of_int (u + int (count_fb layer True (fb # fbs)))
                 / of_int (u + d + int (count_fb layer True (fb # fbs)) + int (count_fb layer False (fb # fbs)))))))))"
      using rate pos by (simp only: if_False)
    show ?thesis unfolding step using up down rate' by blast
  qed
qed

text \<open>
  The events for other layers may be for any names, those that the table inherits
  included, as long as the call returns: an ordinary layer with a fresh entry gets its
  counters and its rate all the same.
\<close>

lemma feedback_among_any_events:
  assumes l: "layer \<noteq> []" and o: "ordinary_layer layer" and fr: "no_feedback_yet m layer"
    and n: "count_fb layer True fbs = N" and mm: "count_fb layer False fbs = M"
    and ret: "fst (applyFeedback now r m fbs) = None"
  shows "useful_up (entry_at (layers (stats_of (snd (snd (applyFeedback now r m fbs))))) layer) = Some (int N)
       \<and> useful_down (entry_at (layers (stats_of (snd (snd (applyFeedback now r m fbs))))) layer) = Some (int M)
       \<and> useful_rate (entry_at (layers (stats_of (snd (snd (applyFeedback now r m fbs))))) layer)
           = (if N + M = 0 then None
              else Some (Num (fround (toFixed2 (fround (of_nat N / of_nat (N + M)))))))"
proof (cases "fbs = []")
  case True
  then have "N = 0" "M = 0" using n mm by (simp_all add: count_fb_Nil)
  then show ?thesis using True fr by (simp add: applyFeedback_def no_feedback_yet_def)
next
  case False
  let ?ls = "layers (stats_of m)"
  obtain ex r' ls' where lp: "applyFeedback_loop now r ?ls fbs = (ex, r', ls')"
    by (cases "applyFeedback_loop now r ?ls fbs") auto
  have ex: "ex = None" using ret False lp by (cases ex) (simp_all add: applyFeedback_def Let_def)
  have la: "layers (stats_of (snd (snd (applyFeedback now r m fbs))))
      = snd (snd (applyFeedback_loop now r ?ls fbs))"
    using False lp ex by (simp add: applyFeedback_def stats_of_def Let_def)
  from fr have u0: "useful_up (entry_at ?ls layer) = Some 0" and d0: "useful_down (entry_at ?ls layer) = Some 0"
    and r0: "useful_rate (entry_at ?ls layer) = None"
    by (simp_all add: no_feedback_yet_def)
  have f: "fst (applyFeedback_loop now r ?ls fbs) = None" using lp ex by simp
  note L = applyFeedback_loop_entry_any[OF l o u0 d0 _ _ f, unfolded n mm r0]
  show ?thesis unfolding la using L by simp
qed

lemma feedback_among_any_events_example:
  "fst (applyFeedback 0 pristine_realm \<lparr>routing_stats = None, token_savings = None\<rparr>
          [(U ''goal'', True), (U ''constructor'', False), (U ''goal'', False)]) = None
   \<and> ordinary_layer (U ''goal'')
   \<and> useful_rate (entry_at (layers (stats_of (snd (snd (applyFeedback 0 pristine_realm
         \<lparr>routing_stats = None, token_savings = None\<rparr>
         [(U ''goal'', True), (U ''constructor'', False), (U ''goal'', False)]))))) (U ''goal''))
       = Some (Num (1 / 2))
   \<and> useful_rate (prototype_functions (fst (snd (applyFeedback 0 pristine_realm
         \<lparr>routing_stats = None, token_savings = None\<rparr>
         [(U ''goal'', True), (U ''constructor'', False), (U ''goal'', False)]))) (U ''constructor''))
       = Some NaN"
proof -
  let ?m = "\<lparr>routing_stats = None, token_savings = None\<rparr>"
  let ?fbs = "[(U ''goal'', True), (U ''constructor'', False), (U ''goal'', False)]"
  have g: "U ''goal'' \<noteq> []" and c: "U ''constructor'' \<noteq> []" by (simp_all add: U_def)
  have o: "ordinary_layer (U ''goal'')"
    by (simp add: ordinary_layer_def object_prototype_functions_def entry_properties_def U_def)
  have lc: "lookup_layer r ls (U ''constructor'') = PrototypeFunction (U ''constructor'')"
    if "ls (U ''constructor'') = None" for r ls
    using that by (simp add: lookup_layer_def inherited_def object_prototype_functions_def U_def)
  let ?e1 = "feedback_entry 0 True (object_prototype pristine_realm) (entry_at Map.empty (U ''goal''))"
  let ?ls1 = "[U ''goal'' \<mapsto> ?e1]"
  let ?r2 = "pristine_realm\<lparr>prototype_functions := (prototype_functions pristine_realm)
      (U ''constructor'' := feedback_entry 0 False (object_prototype pristine_realm)
          (prototype_functions pristine_realm (U ''constructor'')))\<rparr>"
  have gc: "U ''goal'' \<noteq> U ''constructor''" by (simp add: U_def)
  have s1: "applyFeedback_loop 0 pristine_realm Map.empty ?fbs
      = applyFeedback_loop 0 pristine_realm ?ls1 [(U ''constructor'', False), (U ''goal'', False)]"
    by (rule applyFeedback_loop_step[OF g plain_goal])
  have s2: "applyFeedback_loop 0 pristine_realm ?ls1 [(U ''constructor'', False), (U ''goal'', False)]
      = applyFeedback_loop 0 ?r2 ?ls1 [(U ''goal'', False)]"
  proof -
    have look: "lookup_layer pristine_realm ?ls1 (U ''constructor'') = PrototypeFunction (U ''constructor'')"
      by (rule lc) (use gc in simp)
    have fa: "feedback_at 0 pristine_realm ?ls1 (U ''constructor'') False = Inr (?r2, ?ls1)"
      unfolding feedback_at_def look by simp
    show ?thesis using c by (simp add: fa)
  qed
  have p2: "plain_layer ?r2 (U ''goal'')" using o by (rule ordinary_plain)
  have run: "fst (applyFeedback_loop 0 pristine_realm Map.empty ?fbs) = None
      \<and> fst (snd (applyFeedback_loop 0 pristine_realm Map.empty ?fbs)) = ?r2"
    unfolding s1 s2 applyFeedback_loop_step[OF g p2] by simp
  have ne: "?fbs \<noteq> []" by simp
  obtain ls' where lp: "applyFeedback_loop 0 pristine_realm Map.empty ?fbs = (None, ?r2, ls')"
    using run by (cases "applyFeedback_loop 0 pristine_realm Map.empty ?fbs") auto
  have res: "applyFeedback 0 pristine_realm ?m ?fbs
      = (None, ?r2, ?m\<lparr>routing_stats := Some (empty_stats\<lparr>layers := ls', last_updated_at := Some 0\<rparr>)\<rparr>)"
    using lp by (simp add: applyFeedback_def stats_of_def empty_stats_def del: applyFeedback_loop.simps)
  have a: "fst (applyFeedback 0 pristine_realm ?m ?fbs) = None" unfolding res by simp
  have cT: "count_fb (U ''goal'') True ?fbs = 1" and cF: "count_fb (U ''goal'') False ?fbs = 1"
    by (simp_all add: count_fb_def U_def)
  have half: "fround (toFixed2 (fround (of_nat 1 / of_nat (1 + 1)))) = 1 / 2"
  proof -
    have e: "(of_nat 1 / of_nat (1 + 1) :: rat) = 1 / 2" by simp
    have q: "fround (1 / 2) = 1 / 2" using fround_frac[of 2 53 1] by simp
    have t: "toFixed2 (1 / 2) = 1 / 2" using toFixed2_div[of 1 2] by simp
    show ?thesis unfolding e q t q ..
  qed
  from feedback_among_any_events[OF g o fresh_goal cT cF a]
  have b: "useful_rate (entry_at (layers (stats_of (snd (snd (applyFeedback 0 pristine_realm ?m ?fbs)))))
      (U ''goal'')) = Some (Num (1 / 2))"
    unfolding half by simp
  have d: "useful_rate (prototype_functions (fst (snd (applyFeedback 0 pristine_realm ?m ?fbs)))
      (U ''constructor'')) = Some NaN"
    unfolding res
    by (simp add: feedback_entry_def pristine_realm_def no_props_def read_prop_def or0_def Let_def)
  from a o b d show ?thesis by blast
qed

lemma finalize_scenario:
  "finalizeRoutingSession scenario_ledger =
     \<lparr>routing_stats = Some (empty_stats\<lparr>sessions := Some 3, total_session_chars := Some 1500,
        total_session_activations := Some 0, after_routing_avg := Some 500,
        last_session_chars := Some 500, last_session_activations := Some 0,
        current_session_chars := Some 0, current_session_activations := Some 0\<rparr>),
      token_savings = None\<rparr>"
  using js_round_div[of 3 1500]
  by (simp add: finalizeRoutingSession_def scenario_ledger_def stats_of_def empty_stats_def or0_def Let_def)




section \<open>Evaluation of the regular expressions\<close>

lemmas rx_simps = lit_def lit_i_def opt_def star_def plus_def ch_def ci_def alnum_def
  nonspace_def colon_eq_def us_dash_def js_space_def U_def greedy_def

lemmas pattern_defs = p_sk_def p_api_key_def p_token_def p_bearer_def p_authorization_def

section \<open>Properties of redaction\<close>

lemma replace_all_skip:
  "\<not> cls c \<Longrightarrow> replace_all (Chr cls # ps) rep (c # s) = c # replace_all (Chr cls # ps) rep s"
  by simp

lemma replace_all_skip_prefix:
  "\<forall>c\<in>set pre. \<not> cls c \<Longrightarrow>
   replace_all (Chr cls # ps) rep (pre @ s) = pre @ replace_all (Chr cls # ps) rep s"
  by (induction pre) simp_all

lemma p_sk_head: "p_sk = Chr (ch 115) # tl p_sk"
  and p_api_key_head: "p_api_key = Chr (ci 97) # tl p_api_key"
  and p_token_head: "p_token = Chr (ci 116) # tl p_token"
  and p_bearer_head: "p_bearer = Chr (ci 98) # tl p_bearer"
  and p_authorization_head: "p_authorization = Chr (ci 97) # tl p_authorization"
  by (simp_all add: pattern_defs lit_def lit_i_def U_def)

lemma skip_sk: "\<forall>c\<in>set pre. c \<noteq> 115 \<Longrightarrow> replace_all p_sk r (pre @ s) = pre @ replace_all p_sk r s"
  using replace_all_skip_prefix[of pre "ch 115" "tl p_sk" r s] p_sk_head by (simp add: ch_def)

lemma skip_api_key: "\<forall>c\<in>set pre. c \<noteq> 97 \<and> c \<noteq> 65 \<Longrightarrow> replace_all p_api_key r (pre @ s) = pre @ replace_all p_api_key r s"
  using replace_all_skip_prefix[of pre "ci 97" "tl p_api_key" r s] p_api_key_head by (simp add: ci_def)

lemma skip_token: "\<forall>c\<in>set pre. c \<noteq> 116 \<and> c \<noteq> 84 \<Longrightarrow> replace_all p_token r (pre @ s) = pre @ replace_all p_token r s"
  using replace_all_skip_prefix[of pre "ci 116" "tl p_token" r s] p_token_head by (simp add: ci_def)

lemma skip_bearer: "\<forall>c\<in>set pre. c \<noteq> 98 \<and> c \<noteq> 66 \<Longrightarrow> replace_all p_bearer r (pre @ s) = pre @ replace_all p_bearer r s"
  using replace_all_skip_prefix[of pre "ci 98" "tl p_bearer" r s] p_bearer_head by (simp add: ci_def)

lemma skip_authorization: "\<forall>c\<in>set pre. c \<noteq> 97 \<and> c \<noteq> 65 \<Longrightarrow> replace_all p_authorization r (pre @ s) = pre @ replace_all p_authorization r s"
  using replace_all_skip_prefix[of pre "ci 97" "tl p_authorization" r s] p_authorization_head by (simp add: ci_def)


lemma token_word:
  "list_all2 ci (U ''token'') w \<Longrightarrow>
   \<exists>c1 c2 c3 c4 c5. w = [c1, c2, c3, c4, c5] \<and> ci 116 c1 \<and> ci 111 c2 \<and> ci 107 c3 \<and> ci 101 c4 \<and> ci 110 c5"
  by (auto simp: U_def list_all2_Cons1)

lemma token_word_chars:
  "list_all2 ci (U ''token'') w \<Longrightarrow> \<forall>c\<in>set w. c \<noteq> 115 \<and> c \<noteq> 97 \<and> c \<noteq> 65 \<and> c \<noteq> 98 \<and> c \<noteq> 66"
  by (auto dest!: token_word simp: ci_def)


lemma keeps_space_head:
  "post = [] \<or> js_space (hd post) \<Longrightarrow> p = Chr cls # ps \<Longrightarrow> (\<And>c. cls c \<Longrightarrow> \<not> js_space c) \<Longrightarrow>
   replace_all p r post = [] \<or> js_space (hd (replace_all p r post))"
proof (cases post)
  case Nil
  then show ?thesis by simp
next
  case (Cons c cs)
  assume "post = [] \<or> js_space (hd post)" and p: "p = Chr cls # ps"
    and st: "\<And>c. cls c \<Longrightarrow> \<not> js_space c"
  then have sp: "js_space c" using Cons by simp
  then have "\<not> cls c" using st by blast
  then show ?thesis using Cons sp p by simp
qed

lemma start_sk: "ch 115 c \<Longrightarrow> \<not> js_space c"
  and start_a: "ci 97 c \<Longrightarrow> \<not> js_space c"
  and start_t: "ci 116 c \<Longrightarrow> \<not> js_space c"
  and start_b: "ci 98 c \<Longrightarrow> \<not> js_space c"
  by (auto simp: ch_def ci_def js_space_def)

lemma value_api_key:
  "replace_all p_api_key r (U ''abcdef123456'' @ post) = U ''abcdef123456'' @ replace_all p_api_key r post"
  by (simp add: p_api_key_def rx_simps)

lemma rd_authorization:
  "replace_all p_authorization r (U ''[redacted]'' @ post) = U ''[redacted]'' @ replace_all p_authorization r post"
  by (simp add: p_authorization_def rx_simps)

lemma rd_bearer:
  "replace_all p_bearer r (U ''[redacted]'' @ post) = U ''[redacted]'' @ replace_all p_bearer r post"
  by (simp add: p_bearer_def rx_simps)


lemma takeWhile_value:
  "post = [] \<or> js_space (hd post) \<Longrightarrow>
   takeWhile nonspace (U ''abcdef123456'' @ post) = U ''abcdef123456''"
proof (cases post)
  case Nil
  then show ?thesis by (simp add: U_def nonspace_def js_space_def)
next
  case (Cons c cs)
  assume "post = [] \<or> js_space (hd post)"
  then have "\<not> nonspace c" using Cons by (simp add: nonspace_def)
  then have "takeWhile nonspace post = []" using Cons by simp
  moreover have "\<forall>x\<in>set (U ''abcdef123456''). nonspace x"
    by (simp add: U_def nonspace_def js_space_def)
  ultimately show ?thesis by simp
qed

lemma match_Chr:
  "match_here (Chr cls # ps) (c # cs) = (if cls c then map_option ((#) 1) (match_here ps cs) else None)"
  by simp

lemma match_Rep:
  "match_here (Rep cls lo hi # ps) s = try_lengths (match_here ps) s lo (greedy cls hi s)"
  by simp

lemma match_token_tail:
  assumes "post = [] \<or> js_space (hd post)"
  shows "match_here [star js_space, Chr colon_eq, star js_space, plus nonspace]
           (U '': abcdef123456'' @ post) = Some [0, 1, 1, 12]"
proof -
  let ?v = "U ''abcdef123456'' @ post"
  have v: "U '': abcdef123456'' @ post = 58 # 32 # ?v"
    by (simp add: U_def)
  have g: "greedy nonspace None ?v = 12"
    using takeWhile_value[OF assms] by (simp add: greedy_def U_def)
  have d: "drop 12 ?v = post" by (simp add: U_def)
  have last: "match_here [plus nonspace] ?v = Some [12]"
    unfolding plus_def match_Rep g by (simp add: d del: match_here.simps(2))
  have sp: "greedy js_space None (32 # ?v) = 1"
    by (simp add: greedy_def U_def js_space_def)
  have mid: "match_here [star js_space, plus nonspace] (32 # ?v) = Some [1, 12]"
    unfolding star_def match_Rep sp using last by (simp del: match_here.simps(2))
  have col: "match_here [Chr colon_eq, star js_space, plus nonspace] (58 # 32 # ?v) = Some [1, 1, 12]"
    unfolding match_Chr using mid by (simp add: colon_eq_def del: match_here.simps(2))
  have g0: "greedy js_space None (58 # 32 # ?v) = 0"
    by (simp add: greedy_def js_space_def)
  have "match_here [star js_space, Chr colon_eq, star js_space, plus nonspace] (58 # 32 # ?v)
          = Some [0, 1, 1, 12]"
    unfolding star_def[of js_space] match_Rep g0 using col[unfolded star_def]
    by (simp del: match_here.simps(2))
  then show ?thesis unfolding v .
qed

lemma match_token:
  assumes w: "list_all2 ci (U ''token'') w" and post: "post = [] \<or> js_space (hd post)"
  shows "match_here p_token (w @ U '': abcdef123456'' @ post) = Some [1, 1, 1, 1, 1, 0, 1, 1, 12]"
proof -
  from token_word[OF w] obtain c1 c2 c3 c4 c5 where
    ww: "w = [c1, c2, c3, c4, c5]" and c: "ci 116 c1" "ci 111 c2" "ci 107 c3" "ci 101 c4" "ci 110 c5"
    by blast
  have p: "p_token = [Chr (ci 116), Chr (ci 111), Chr (ci 107), Chr (ci 101), Chr (ci 110)]
              @ [star js_space, Chr colon_eq, star js_space, plus nonspace]"
    by (simp add: p_token_def lit_i_def U_def)
  show ?thesis
    unfolding p ww using c match_token_tail[OF post] by (simp add: match_Chr del: match_here.simps(2))
qed

lemma replace_token:
  assumes w: "list_all2 ci (U ''token'') w" and post: "post = [] \<or> js_space (hd post)"
  shows "replace_all p_token r (w @ U '': abcdef123456'' @ post) = r @ replace_all p_token r post"
proof -
  from token_word[OF w] obtain c1 c2 c3 c4 c5 where ww: "w = [c1, c2, c3, c4, c5]" by blast
  have m: "match_here p_token (c1 # [c2, c3, c4, c5] @ U '': abcdef123456'' @ post)
             = Some [1, 1, 1, 1, 1, 0, 1, 1, 12]"
    using match_token[OF w post] unfolding ww by simp
  have d: "drop 18 ([c2, c3, c4, c5] @ U '': abcdef123456'' @ post) = post"
    by (simp add: U_def)
  have "replace_all p_token r (c1 # [c2, c3, c4, c5] @ U '': abcdef123456'' @ post)
          = r @ replace_all p_token r (drop (sum_list [1, 1, 1, 1, 1, 0, 1, 1, 12] - 1)
                 ([c2, c3, c4, c5] @ U '': abcdef123456'' @ post))"
    unfolding replace_all.simps m by simp
  then show ?thesis unfolding ww using d by simp
qed


lemma redactSensitive_fold:
  "redactSensitive t True =
     replace_all p_authorization (U ''[redacted]'')
       (replace_all p_bearer (U ''[redacted]'')
         (replace_all p_token (U ''[redacted]'')
           (replace_all p_api_key (U ''[redacted]'')
             (replace_all p_sk (U ''[redacted]'') t))))"
  by (cases t) (simp_all add: redactSensitive_def patterns_def)

text \<open>
  The scan of a pass up to a position that no match straddles, and the matches of the
  patterns that end in \<open>\S+\<close>: such a match ends before white space or at the end of
  the text, and it does not depend on what follows that white space.
\<close>

lemma replace_before_sound:
  "replace_before pat rep pre rest = Some pre' \<Longrightarrow>
   replace_all pat rep (pre @ rest) = pre' @ replace_all pat rep rest"
proof (induction pat rep pre rest arbitrary: pre' rule: replace_before.induct)
  case (1 pat rep rest)
  then show ?case by simp
next
  case (2 pat rep c cs rest)
  show ?case
  proof (cases "match_here pat (c # cs @ rest)")
    case None
    with "2.prems" obtain q where q: "replace_before pat rep cs rest = Some q" and p': "pre' = c # q"
      by auto
    have "replace_all pat rep (cs @ rest) = q @ replace_all pat rep rest"
      using "2.IH"(1)[OF None q] .
    then show ?thesis using None p' by simp
  next
    case (Some ns)
    with "2.prems" have le: "sum_list ns \<le> Suc (length cs)"
      by (simp split: if_splits)
    with Some "2.prems" obtain q where
      q: "replace_before pat rep (drop (sum_list ns - 1) cs) rest = Some q" and p': "pre' = rep @ q"
      by auto
    have d: "drop (sum_list ns - 1) (cs @ rest) = drop (sum_list ns - 1) cs @ rest"
      using le by simp
    have "replace_all pat rep (drop (sum_list ns - 1) cs @ rest) = q @ replace_all pat rep rest"
      using "2.IH"(2)[OF Some le q] .
    then show ?thesis using Some p' d by simp
  qed
qed

lemma try_lengths_none:
  "(\<And>j. j \<le> n \<Longrightarrow> K (drop j s) = None) \<Longrightarrow> try_lengths K s lo n = None"
proof (induction n)
  case 0
  then show ?case by simp
next
  case (Suc n)
  have a: "K (drop (Suc n) s) = None" using Suc.prems[of "Suc n"] by simp
  have "try_lengths K s lo n = None" by (rule Suc.IH) (use Suc.prems in simp)
  then show ?case using a by (subst try_lengths.simps) simp
qed

lemma try_lengths_greedy:
  "(\<And>j. j < n \<Longrightarrow> K (drop j s) = None) \<Longrightarrow>
   try_lengths K s lo n = (if n < lo then None else map_option ((#) n) (K (drop n s)))"
proof (cases n)
  case 0
  then show ?thesis by (cases "K s") simp_all
next
  case (Suc m)
  assume h: "\<And>j. j < n \<Longrightarrow> K (drop j s) = None"
  have "try_lengths K s lo m = None" by (rule try_lengths_none) (use h Suc in simp)
  then show ?thesis using Suc by (subst try_lengths.simps) (simp split: option.splits)
qed

lemma drop_in_takeWhile:
  assumes "j < length (takeWhile P s)"
  shows "\<exists>c t. drop j s = c # t \<and> P c"
proof -
  have js: "j < length s" using assms length_takeWhile_le[of P s] by (rule less_le_trans)
  have "takeWhile P s ! j = s ! j" using assms by (rule takeWhile_nth)
  moreover have "takeWhile P s ! j \<in> set (takeWhile P s)" using assms by (rule nth_mem)
  ultimately have "P (s ! j)" using set_takeWhileD by metis
  moreover have "drop j s = s ! j # drop (Suc j) s" using js by (simp add: Cons_nth_drop_Suc)
  ultimately show ?thesis by blast
qed

lemma match_plus_nonspace:
  "match_here [plus nonspace] t =
     (if takeWhile nonspace t = [] then None else Some [length (takeWhile nonspace t)])"
  unfolding plus_def match_Rep greedy_def by (subst try_lengths.simps) (simp add: Suc_le_eq)

lemma plus_nonspace_space: "js_space c \<Longrightarrow> match_here [plus nonspace] (c # t) = None"
  unfolding match_plus_nonspace by (simp add: nonspace_def)

lemma match_space_plus:
  "match_here [plus js_space, plus nonspace] s =
     (if takeWhile js_space s = [] then None
      else map_option ((#) (length (takeWhile js_space s)))
             (match_here [plus nonspace] (dropWhile js_space s)))"
proof -
  let ?k = "length (takeWhile js_space s)"
  have f: "match_here [plus nonspace] (drop j s) = None" if "j < ?k" for j
  proof -
    from drop_in_takeWhile[OF that] obtain c t where d: "drop j s = c # t" and c: "js_space c" by blast
    show ?thesis unfolding d using c by (rule plus_nonspace_space)
  qed
  have "match_here [plus js_space, plus nonspace] s
      = try_lengths (match_here [plus nonspace]) s 1 ?k"
    unfolding plus_def[of js_space] match_Rep greedy_def by simp
  also have "\<dots> = (if ?k < 1 then None
                    else map_option ((#) ?k) (match_here [plus nonspace] (drop ?k s)))"
    by (rule try_lengths_greedy) (rule f)
  finally show ?thesis by (simp add: dropWhile_eq_drop)
qed

lemma match_star_nonspace:
  "match_here [star js_space, plus nonspace] s =
     map_option ((#) (length (takeWhile js_space s)))
       (match_here [plus nonspace] (dropWhile js_space s))"
proof -
  let ?k = "length (takeWhile js_space s)"
  have f: "match_here [plus nonspace] (drop j s) = None" if "j < ?k" for j
  proof -
    from drop_in_takeWhile[OF that] obtain c t where d: "drop j s = c # t" and c: "js_space c" by blast
    show ?thesis unfolding d using c by (rule plus_nonspace_space)
  qed
  have "match_here [star js_space, plus nonspace] s
      = try_lengths (match_here [plus nonspace]) s 0 ?k"
    unfolding star_def[of js_space] match_Rep greedy_def by simp
  also have "\<dots> = (if ?k < 0 then None
                    else map_option ((#) ?k) (match_here [plus nonspace] (drop ?k s)))"
    by (rule try_lengths_greedy) (rule f)
  finally show ?thesis by (simp add: dropWhile_eq_drop)
qed

lemma colon_space: "js_space c \<Longrightarrow> \<not> colon_eq c"
  by (auto simp: js_space_def colon_eq_def)

lemma match_sep_tail:
  "match_here [star js_space, Chr colon_eq, star js_space, plus nonspace] s =
     map_option ((#) (length (takeWhile js_space s)))
       (match_here [Chr colon_eq, star js_space, plus nonspace] (dropWhile js_space s))"
proof -
  let ?k = "length (takeWhile js_space s)"
  let ?K = "match_here [Chr colon_eq, star js_space, plus nonspace]"
  have f: "?K (drop j s) = None" if "j < ?k" for j
  proof -
    from drop_in_takeWhile[OF that] obtain c t where d: "drop j s = c # t" and c: "js_space c" by blast
    show ?thesis unfolding d match_Chr using colon_space[OF c] by simp
  qed
  have "match_here [star js_space, Chr colon_eq, star js_space, plus nonspace] s
      = try_lengths ?K s 0 ?k"
    unfolding star_def[of js_space] match_Rep greedy_def by simp
  also have "\<dots> = (if ?k < 0 then None else map_option ((#) ?k) (?K (drop ?k s)))"
    by (rule try_lengths_greedy) (rule f)
  finally show ?thesis by (simp add: dropWhile_eq_drop)
qed

lemma match_lit_i:
  "match_here (lit_i kw @ tail) s =
     (if length kw \<le> length s \<and> list_all2 ci kw (take (length kw) s)
      then map_option ((@) (replicate (length kw) 1)) (match_here tail (drop (length kw) s))
      else None)"
proof (induction kw arbitrary: s)
  case Nil
  have "map_option ((@) []) x = x" for x :: "nat list option" by (cases x) simp_all
  then show ?case by (simp add: lit_i_def)
next
  case (Cons c kw)
  have l: "lit_i (c # kw) @ tail = Chr (ci c) # (lit_i kw @ tail)" by (simp add: lit_i_def)
  show ?case
  proof (cases s)
    case Nil
    then show ?thesis unfolding l by simp
  next
    case (Cons x xs)
    show ?thesis unfolding l Cons match_Chr Cons.IH
      by (simp add: option.map_comp o_def)
  qed
qed

lemma match_Chr_Nil: "match_here (Chr cls # ps) [] = None"
  by simp

lemma takeWhile_nonspace_append:
  assumes "y = [] \<or> js_space (hd y)"
  shows "takeWhile nonspace (d @ y) = takeWhile nonspace d"
proof (cases "\<forall>x\<in>set d. nonspace x")
  case True
  have a: "takeWhile nonspace (d @ y) = d @ takeWhile nonspace y"
    by (rule takeWhile_append2) (use True in blast)
  have b: "takeWhile nonspace y = []" using assms by (cases y) (simp_all add: nonspace_def)
  have c: "takeWhile nonspace d = d"
    by (rule takeWhile_eq_all_conv[THEN iffD2]) (use True in blast)
  show ?thesis unfolding a b c by simp
next
  case False
  then obtain x where "x \<in> set d" "\<not> nonspace x" by blast
  then show ?thesis by (rule takeWhile_append1)
qed

lemma plus_nonspace_local:
  "y = [] \<or> js_space (hd y) \<Longrightarrow> match_here [plus nonspace] (d @ y) = match_here [plus nonspace] d"
  unfolding match_plus_nonspace by (simp add: takeWhile_nonspace_append)

lemma space_run_append:
  assumes "t \<noteq> []" and "\<not> js_space (last t)"
  shows "takeWhile js_space (t @ y) = takeWhile js_space t"
    and "dropWhile js_space (t @ y) = dropWhile js_space t @ y"
    and "dropWhile js_space t \<noteq> []"
    and "last (dropWhile js_space t) = last t"
proof -
  have m: "last t \<in> set t" using assms(1) by simp
  show "takeWhile js_space (t @ y) = takeWhile js_space t"
    using m assms(2) by (rule takeWhile_append1)
  show "dropWhile js_space (t @ y) = dropWhile js_space t @ y"
    using m assms(2) by (rule dropWhile_append1)
  show ne: "dropWhile js_space t \<noteq> []"
    using m assms(2) by (auto simp: dropWhile_eq_Nil_conv)
  have "t = takeWhile js_space t @ dropWhile js_space t" by simp
  then have "last t = last (takeWhile js_space t @ dropWhile js_space t)" by simp
  also have "\<dots> = last (dropWhile js_space t)" using ne by (rule last_appendR)
  finally show "last (dropWhile js_space t) = last t" by simp
qed

lemma space_plus_local:
  assumes "t \<noteq> []" and "\<not> js_space (last t)" and "y = [] \<or> js_space (hd y)"
  shows "match_here [plus js_space, plus nonspace] (t @ y) = match_here [plus js_space, plus nonspace] t"
  unfolding match_space_plus space_run_append(1,2)[OF assms(1,2)] plus_nonspace_local[OF assms(3)] ..

lemma star_nonspace_local:
  assumes "t \<noteq> []" and "\<not> js_space (last t)" and "y = [] \<or> js_space (hd y)"
  shows "match_here [star js_space, plus nonspace] (t @ y) = match_here [star js_space, plus nonspace] t"
  unfolding match_star_nonspace space_run_append(1,2)[OF assms(1,2)] plus_nonspace_local[OF assms(3)] ..

lemma sep_tail_local:
  assumes t: "t \<noteq> []" and sp: "\<not> js_space (last t)" and co: "\<not> colon_eq (last t)"
    and y: "y = [] \<or> js_space (hd y)"
  shows "match_here [star js_space, Chr colon_eq, star js_space, plus nonspace] (t @ y)
       = match_here [star js_space, Chr colon_eq, star js_space, plus nonspace] t"
proof -
  let ?d = "dropWhile js_space t"
  note r = space_run_append[OF t sp]
  from r(3) obtain c d' where d: "?d = c # d'" by (cases ?d) auto
  have inner: "match_here [Chr colon_eq, star js_space, plus nonspace] (?d @ y)
      = match_here [Chr colon_eq, star js_space, plus nonspace] ?d"
  proof (cases "colon_eq c")
    case False
    then show ?thesis unfolding d by (simp add: match_Chr del: match_here.simps(2))
  next
    case True
    have ne: "d' \<noteq> []"
    proof
      assume "d' = []"
      then have "last ?d = c" using d by simp
      then show False using r(4) True co by simp
    qed
    have "last d' = last t" using r(4) ne unfolding d by simp
    then have "\<not> js_space (last d')" using sp by simp
    from star_nonspace_local[OF ne this y] show ?thesis
      unfolding d by (simp add: match_Chr del: match_here.simps(2))
  qed
  show ?thesis unfolding match_sep_tail r(1,2) inner ..
qed

lemma end_shift:
  assumes "k \<le> length s" and "m \<le> length (drop k s)"
    and "drop m (drop k s) = [] \<or> js_space (hd (drop m (drop k s)))"
  shows "k + m \<le> length s \<and> (drop (k + m) s = [] \<or> js_space (hd (drop (k + m) s)))"
proof -
  have "drop m (drop k s) = drop (k + m) s" by (simp add: add.commute)
  then show ?thesis using assms by simp
qed

lemma plus_nonspace_end:
  assumes "match_here [plus nonspace] d = Some ns"
  shows "1 \<le> sum_list ns \<and> sum_list ns \<le> length d
         \<and> (drop (sum_list ns) d = [] \<or> js_space (hd (drop (sum_list ns) d)))"
proof -
  let ?n = "length (takeWhile nonspace d)"
  from assms have ne: "takeWhile nonspace d \<noteq> []" and ns: "ns = [?n]"
    unfolding match_plus_nonspace by (auto split: if_splits simp del: match_here.simps(2))
  have dd: "drop ?n d = dropWhile nonspace d" by (simp add: dropWhile_eq_drop)
  have "dropWhile nonspace d = [] \<or> js_space (hd (dropWhile nonspace d))"
    using hd_dropWhile[of nonspace d] by (auto simp: nonspace_def)
  moreover have "1 \<le> ?n" using ne by (simp add: Suc_le_eq)
  moreover have "?n \<le> length d" by (rule length_takeWhile_le)
  ultimately show ?thesis unfolding ns using dd by simp
qed

lemma space_run_le: "length (takeWhile js_space s) \<le> length s"
  by (rule length_takeWhile_le)

lemma space_plus_end:
  assumes "match_here [plus js_space, plus nonspace] s = Some ns"
  shows "1 \<le> sum_list ns \<and> sum_list ns \<le> length s
         \<and> (drop (sum_list ns) s = [] \<or> js_space (hd (drop (sum_list ns) s)))"
proof -
  let ?k = "length (takeWhile js_space s)"
  from assms obtain ns' where m: "match_here [plus nonspace] (dropWhile js_space s) = Some ns'"
    and ns: "ns = ?k # ns'"
    unfolding match_space_plus by (auto split: if_splits simp del: match_here.simps(2))
  note e = plus_nonspace_end[OF m, unfolded dropWhile_eq_drop]
  from end_shift[OF space_run_le, of "sum_list ns'" s] e
  show ?thesis unfolding ns by simp
qed

lemma star_nonspace_end:
  assumes "match_here [star js_space, plus nonspace] s = Some ns"
  shows "1 \<le> sum_list ns \<and> sum_list ns \<le> length s
         \<and> (drop (sum_list ns) s = [] \<or> js_space (hd (drop (sum_list ns) s)))"
proof -
  let ?k = "length (takeWhile js_space s)"
  from assms obtain ns' where m: "match_here [plus nonspace] (dropWhile js_space s) = Some ns'"
    and ns: "ns = ?k # ns'"
    unfolding match_star_nonspace by (auto simp del: match_here.simps(2))
  note e = plus_nonspace_end[OF m, unfolded dropWhile_eq_drop]
  from end_shift[OF space_run_le, of "sum_list ns'" s] e
  show ?thesis unfolding ns by simp
qed

lemma sep_tail_end:
  assumes "match_here [star js_space, Chr colon_eq, star js_space, plus nonspace] s = Some ns"
  shows "1 \<le> sum_list ns \<and> sum_list ns \<le> length s
         \<and> (drop (sum_list ns) s = [] \<or> js_space (hd (drop (sum_list ns) s)))"
proof -
  let ?k = "length (takeWhile js_space s)"
  let ?d = "drop ?k s"
  from assms obtain ns1 where
    m1: "match_here [Chr colon_eq, star js_space, plus nonspace] ?d = Some ns1" and ns: "ns = ?k # ns1"
    unfolding match_sep_tail dropWhile_eq_drop by (auto simp del: match_here.simps(2))
  from m1 obtain c d' where d: "?d = c # d'"
    by (cases ?d) (simp_all add: match_Chr_Nil del: match_here.simps(2))
  from m1 obtain ns2 where
    m2: "match_here [star js_space, plus nonspace] d' = Some ns2" and ns1: "ns1 = 1 # ns2"
    unfolding d match_Chr by (auto split: if_splits simp del: match_here.simps(2))
  note e2 = star_nonspace_end[OF m2]
  have d1: "drop 1 ?d = d'" unfolding d by simp
  have l1: "1 \<le> length ?d" unfolding d by simp
  from end_shift[OF l1, of "sum_list ns2"] e2
  have e1: "1 + sum_list ns2 \<le> length ?d
      \<and> (drop (1 + sum_list ns2) ?d = [] \<or> js_space (hd (drop (1 + sum_list ns2) ?d)))"
    unfolding d1 by simp
  from end_shift[OF space_run_le, of "1 + sum_list ns2" s] e1
  show ?thesis unfolding ns ns1 by simp
qed

lemma lit_i_end:
  assumes tail: "\<And>t ns. match_here tail t = Some ns \<Longrightarrow>
      1 \<le> sum_list ns \<and> sum_list ns \<le> length t
      \<and> (drop (sum_list ns) t = [] \<or> js_space (hd (drop (sum_list ns) t)))"
    and m: "match_here (lit_i kw @ tail) s = Some ns"
  shows "1 \<le> sum_list ns \<and> sum_list ns \<le> length s
         \<and> (drop (sum_list ns) s = [] \<or> js_space (hd (drop (sum_list ns) s)))"
proof -
  from m obtain ns' where le: "length kw \<le> length s"
    and m': "match_here tail (drop (length kw) s) = Some ns'"
    and ns: "ns = replicate (length kw) 1 @ ns'"
    unfolding match_lit_i by (auto split: if_splits simp del: match_here.simps(2))
  have s: "sum_list ns = length kw + sum_list ns'" unfolding ns by (simp add: sum_list_replicate)
  from end_shift[OF le, of "sum_list ns'"] tail[OF m']
  show ?thesis unfolding s by simp
qed

lemma lit_i_local:
  assumes tail: "\<And>t. t \<noteq> [] \<Longrightarrow> last t = 93 \<Longrightarrow> match_here tail (t @ y) = match_here tail t"
    and kw: "\<forall>c\<in>set kw. \<not> ci c 93" and u: "u \<noteq> []" and lu: "last u = 93"
  shows "match_here (lit_i kw @ tail) (u @ y) = match_here (lit_i kw @ tail) u"
proof (cases "length kw < length u")
  case True
  have t1: "take (length kw) (u @ y) = take (length kw) u" using True by simp
  have d1: "drop (length kw) (u @ y) = drop (length kw) u @ y" using True by simp
  have ne: "drop (length kw) u \<noteq> []" using True by simp
  have "last (drop (length kw) u) = 93" using True lu by (simp add: last_drop)
  from tail[OF ne this] show ?thesis unfolding match_lit_i t1 d1 using True by simp
next
  case False
  then have ge: "length u \<le> length kw" by simp
  let ?i = "length u - 1"
  have iu: "?i < length u" using u by simp
  have ik: "?i < length kw" using iu ge by simp
  have no: "\<not> list_all2 ci kw (take (length kw) w)" if "w ! ?i = 93" and "?i < length w" for w
  proof
    assume a: "list_all2 ci kw (take (length kw) w)"
    then have "length kw = length (take (length kw) w)" by (rule list_all2_lengthD)
    from list_all2_nthD[OF a ik] have "ci (kw ! ?i) (take (length kw) w ! ?i)" .
    then have "ci (kw ! ?i) 93" using ik that by simp
    moreover have "kw ! ?i \<in> set kw" using ik by simp
    ultimately show False using kw by blast
  qed
  have l: "u ! ?i = 93" using lu u by (simp add: last_conv_nth)
  have a: "\<not> list_all2 ci kw (take (length kw) u)" by (rule no[OF l iu])
  have "(u @ y) ! ?i = 93" using l iu by (simp add: nth_append)
  moreover have "?i < length (u @ y)" using iu by simp
  ultimately have b: "\<not> list_all2 ci kw (take (length kw) (u @ y))" by (rule no)
  show ?thesis unfolding match_lit_i using a b by simp
qed

lemma bearer_local:
  assumes "u \<noteq> []" and "last u = 93" and "y = [] \<or> js_space (hd y)"
  shows "match_here p_bearer (u @ y) = match_here p_bearer u"
  unfolding p_bearer_def
proof (rule lit_i_local[OF _ _ assms(1,2)])
  fix t :: jstring
  assume "t \<noteq> []" and "last t = 93"
  then show "match_here [plus js_space, plus nonspace] (t @ y) = match_here [plus js_space, plus nonspace] t"
    using assms(3) by (intro space_plus_local) (simp_all add: js_space_def)
next
  show "\<forall>c\<in>set (U ''bearer''). \<not> ci c 93" by (simp add: U_def ci_def)
qed

lemma authorization_local:
  assumes "u \<noteq> []" and "last u = 93" and "y = [] \<or> js_space (hd y)"
  shows "match_here p_authorization (u @ y) = match_here p_authorization u"
  unfolding p_authorization_def
proof (rule lit_i_local[OF _ _ assms(1,2)])
  fix t :: jstring
  assume "t \<noteq> []" and "last t = 93"
  then show "match_here [star js_space, Chr colon_eq, star js_space, plus nonspace] (t @ y)
      = match_here [star js_space, Chr colon_eq, star js_space, plus nonspace] t"
    using assms(3) by (intro sep_tail_local) (simp_all add: js_space_def colon_eq_def)
next
  show "\<forall>c\<in>set (U ''authorization''). \<not> ci c 93" by (simp add: U_def ci_def)
qed

lemma bearer_end:
  "match_here p_bearer s = Some ns \<Longrightarrow>
   1 \<le> sum_list ns \<and> sum_list ns \<le> length s
   \<and> (drop (sum_list ns) s = [] \<or> js_space (hd (drop (sum_list ns) s)))"
  unfolding p_bearer_def by (rule lit_i_end[OF space_plus_end])

lemma authorization_end:
  "match_here p_authorization s = Some ns \<Longrightarrow>
   1 \<le> sum_list ns \<and> sum_list ns \<le> length s
   \<and> (drop (sum_list ns) s = [] \<or> js_space (hd (drop (sum_list ns) s)))"
  unfolding p_authorization_def by (rule lit_i_end[OF sep_tail_end])

lemma placeholder_boundary:
  assumes loc: "\<And>u y. u \<noteq> [] \<Longrightarrow> last u = 93 \<Longrightarrow> y = [] \<or> js_space (hd y) \<Longrightarrow>
                 match_here p (u @ y) = match_here p u"
    and fin: "\<And>s ns. match_here p s = Some ns \<Longrightarrow>
                 1 \<le> sum_list ns \<and> sum_list ns \<le> length s
                 \<and> (drop (sum_list ns) s = [] \<or> js_space (hd (drop (sum_list ns) s)))"
    and inner: "\<And>y. replace_all p R (R @ y) = R @ replace_all p R y"
    and R: "R \<noteq> []" "last R = 93" "\<forall>c\<in>set R. \<not> js_space c"
    and y: "y = [] \<or> js_space (hd y)"
  shows "replace_all p R (x @ R @ y) = replace_all p R (x @ R) @ replace_all p R y
         \<and> (\<exists>a. replace_all p R (x @ R) = a @ R)"
proof (induction "length x" arbitrary: x rule: less_induct)
  case less
  show ?case
  proof (cases x)
    case Nil
    have "replace_all p R R = R" using inner[of "[]"] by simp
    then show ?thesis using Nil inner[of y] by simp
  next
    case (Cons c cs)
    let ?u = "c # cs @ R"
    have u: "?u \<noteq> []" and lu: "last ?u = 93" using R by simp_all
    have m: "match_here p (c # cs @ R @ y) = match_here p ?u"
      using loc[OF u lu y] by simp
    show ?thesis
    proof (cases "match_here p ?u")
      case None
      have "length cs < length x" using Cons by simp
      from less[OF this] show ?thesis using None m Cons by auto
    next
      case (Some ns)
      let ?n = "sum_list ns"
      from fin[OF Some] have n1: "1 \<le> ?n" and nle: "?n \<le> length ?u"
        and e: "drop ?n ?u = [] \<or> js_space (hd (drop ?n ?u))" by blast+
      have dn: "drop ?n ?u = drop (?n - 1) (cs @ R)" using n1 by (cases ?n) simp_all
      have ra: "replace_all p R (c # cs @ R @ y) = R @ replace_all p R (drop (?n - 1) (cs @ R @ y))"
        using Some m by simp
      have rb: "replace_all p R ?u = R @ replace_all p R (drop (?n - 1) (cs @ R))"
        using Some by simp
      show ?thesis
      proof (cases "?n - 1 \<le> length cs")
        case True
        let ?x = "drop (?n - 1) cs"
        have d1: "drop (?n - 1) (cs @ R @ y) = ?x @ R @ y" using True by simp
        have d2: "drop (?n - 1) (cs @ R) = ?x @ R" using True by simp
        have "length ?x < length x" using Cons by simp
        from less[OF this] obtain a where
          i1: "replace_all p R (?x @ R @ y) = replace_all p R (?x @ R) @ replace_all p R y"
          and i2: "replace_all p R (?x @ R) = a @ R" by blast
        have "replace_all p R ?u = (R @ a) @ R" unfolding rb d2 i2 by simp
        then have "\<exists>a. replace_all p R ?u = a @ R" by blast
        moreover have "replace_all p R (c # cs @ R @ y) = replace_all p R ?u @ replace_all p R y"
          unfolding ra rb d1 d2 i1 by simp
        ultimately show ?thesis using Cons by simp
      next
        case False
        let ?j = "?n - 1 - length cs"
        have j0: "0 < ?j" using False by simp
        have dj: "drop (?n - 1) (cs @ R) = drop ?j R" using False by simp
        have full: "length R \<le> ?j"
        proof (rule ccontr)
          assume "\<not> length R \<le> ?j"
          then have jl: "?j < length R" by simp
          then have ne: "drop ?j R \<noteq> []" by simp
          have "hd (drop ?j R) = R ! ?j" using jl by (rule hd_drop_conv_nth)
          moreover have "R ! ?j \<in> set R" using jl by simp
          ultimately have "\<not> js_space (hd (drop ?j R))" using R(3) by simp
          then show False using e ne unfolding dn dj by simp
        qed
        have d2: "drop (?n - 1) (cs @ R) = []" unfolding dj using full by simp
        have eq: "?n - 1 = length cs + length R" using full nle False by simp
        have d1: "drop (?n - 1) (cs @ R @ y) = y" unfolding eq by simp
        have "replace_all p R ?u = R" unfolding rb d2 by simp
        moreover have "replace_all p R (c # cs @ R @ y) = R @ replace_all p R y"
          unfolding ra d1 ..
        ultimately show ?thesis using Cons by simp
      qed
    qed
  qed
qed

lemma placeholder_props:
  "U ''[redacted]'' \<noteq> []" "last (U ''[redacted]'') = 93" "\<forall>c\<in>set (U ''[redacted]''). \<not> js_space c"
  by (simp_all add: U_def js_space_def)

lemma bearer_boundary:
  assumes "y = [] \<or> js_space (hd y)"
  shows "replace_all p_bearer (U ''[redacted]'') (x @ U ''[redacted]'' @ y)
           = replace_all p_bearer (U ''[redacted]'') (x @ U ''[redacted]'')
             @ replace_all p_bearer (U ''[redacted]'') y
         \<and> (\<exists>a. replace_all p_bearer (U ''[redacted]'') (x @ U ''[redacted]'') = a @ U ''[redacted]'')"
  by (rule placeholder_boundary[OF bearer_local bearer_end rd_bearer placeholder_props assms])

lemma authorization_boundary:
  assumes "y = [] \<or> js_space (hd y)"
  shows "replace_all p_authorization (U ''[redacted]'') (x @ U ''[redacted]'' @ y)
           = replace_all p_authorization (U ''[redacted]'') (x @ U ''[redacted]'')
             @ replace_all p_authorization (U ''[redacted]'') y
         \<and> (\<exists>a. replace_all p_authorization (U ''[redacted]'') (x @ U ''[redacted]'') = a @ U ''[redacted]'')"
  by (rule placeholder_boundary[OF authorization_local authorization_end rd_authorization
        placeholder_props assms])

lemma before_span_cases:
  assumes "before_span pre rest = Some pre'"
  obtains pre1 pre2 where
    "replace_before p_sk (U ''[redacted]'') pre rest = Some pre1"
    "replace_before p_api_key (U ''[redacted]'') pre1 (replace_all p_sk (U ''[redacted]'') rest) = Some pre2"
    "replace_before p_token (U ''[redacted]'') pre2
       (replace_all p_api_key (U ''[redacted]'') (replace_all p_sk (U ''[redacted]'') rest)) = Some pre'"
  using assms unfolding before_span_def by (auto split: option.splits)

lemma span_rest:
  assumes w: "list_all2 ci (U ''token'') w" and post: "post = [] \<or> js_space (hd post)"
  shows "replace_all p_sk (U ''[redacted]'') (w @ U '': abcdef123456'' @ post)
           = w @ U '': abcdef123456'' @ replace_all p_sk (U ''[redacted]'') post"
    and "replace_all p_api_key (U ''[redacted]'')
           (w @ U '': abcdef123456'' @ replace_all p_sk (U ''[redacted]'') post)
           = w @ U '': abcdef123456''
             @ replace_all p_api_key (U ''[redacted]'') (replace_all p_sk (U ''[redacted]'') post)"
    and "replace_all p_token (U ''[redacted]'')
           (w @ U '': abcdef123456''
              @ replace_all p_api_key (U ''[redacted]'') (replace_all p_sk (U ''[redacted]'') post))
           = U ''[redacted]''
             @ replace_all p_token (U ''[redacted]'')
                 (replace_all p_api_key (U ''[redacted]'') (replace_all p_sk (U ''[redacted]'') post))"
    and "replace_all p_token (U ''[redacted]'')
           (replace_all p_api_key (U ''[redacted]'') (replace_all p_sk (U ''[redacted]'') post)) = []
         \<or> js_space (hd (replace_all p_token (U ''[redacted]'')
           (replace_all p_api_key (U ''[redacted]'') (replace_all p_sk (U ''[redacted]'') post))))"
proof -
  let ?r = "U ''[redacted]''"
  let ?val = "U '': abcdef123456''"
  let ?p1 = "replace_all p_sk ?r post"
  let ?p2 = "replace_all p_api_key ?r ?p1"
  let ?p3 = "replace_all p_token ?r ?p2"
  have valsplit: "?val = U '': '' @ U ''abcdef123456''" by (simp add: U_def)
  have wc: "\<forall>c\<in>set w. c \<noteq> 115 \<and> c \<noteq> 97 \<and> c \<noteq> 65 \<and> c \<noteq> 98 \<and> c \<noteq> 66"
    using token_word_chars[OF w] .
  show s1: "replace_all p_sk ?r (w @ ?val @ post) = w @ ?val @ ?p1"
    using skip_sk[of "w @ ?val" ?r post] wc by (auto simp: U_def)
  have h1: "?p1 = [] \<or> js_space (hd ?p1)"
    using keeps_space_head[OF post p_sk_head start_sk] by blast
  have s2a: "replace_all p_api_key ?r ((w @ U '': '') @ (U ''abcdef123456'' @ ?p1))
               = (w @ U '': '') @ replace_all p_api_key ?r (U ''abcdef123456'' @ ?p1)"
    by (rule skip_api_key) (use wc in \<open>auto simp: U_def\<close>)
  show s2: "replace_all p_api_key ?r (w @ ?val @ ?p1) = w @ ?val @ ?p2"
    using s2a unfolding value_api_key valsplit by simp
  have h2: "?p2 = [] \<or> js_space (hd ?p2)"
    using keeps_space_head[OF h1 p_api_key_head start_a] by blast
  show "replace_all p_token ?r (w @ ?val @ ?p2) = ?r @ ?p3"
    by (rule replace_token[OF w h2])
  show "?p3 = [] \<or> js_space (hd ?p3)"
    using keeps_space_head[OF h2 p_token_head start_t] by blast
qed



text \<open>
  The same happens when the first pattern runs into the span, and in both cases
  \<open>before_span\<close> is undefined.
\<close>

lemma redact_after_key:
  "redactSensitive (U ''sk-ABCDEFGHIJKLMNOtoken: abcdef123456'') True = U ''[redacted]: abcdef123456''"
  by (simp add: redactSensitive_def patterns_def pattern_defs rx_simps)

lemma before_span_undefined:
  "before_span (U ''api_key: '') (U ''token: abcdef123456'') = None"
  "before_span (U ''sk-ABCDEFGHIJKLMNO'') (U ''token: abcdef123456'') = None"
  by (simp_all add: before_span_def pattern_defs rx_simps)



section \<open>Properties of the recall gate\<close>

lemma recall_layer_trace:
  "\<exists>rest. snd (recall_layer table layer format cfg e p tr) = tr @ Embed p # rest"
  by (auto simp: recall_layer_def recallEntries_def split: sum.splits prod.splits)

lemma goal_recall_embeds:
  "\<not> prompt_too_short 3 (Some p) \<Longrightarrow> g_alwaysRecall cfg \<Longrightarrow>
   \<exists>rest. snd (before_agent_start_goal cfg e (Some p) tr) = tr @ Embed p # rest"
  by (auto simp: prompt_too_short_def before_agent_start_goal_def Let_def split: sum.splits)

lemma epiproc_recall_embeds:
  assumes "\<not> prompt_too_short 5 (Some p)" "l_enabled (episodic cfg)" "l_alwaysRecall (episodic cfg)"
  shows "\<exists>rest. snd (before_agent_start_epiproc cfg e stats (Some p) tr) = tr @ Embed p # rest"
proof -
  let ?r1 = "recall_layer (U ''episodes'') (U ''episodic'') formatEpisodicContext (episodic cfg) e p tr"
  obtain rest1 where r1: "snd ?r1 = tr @ Embed p # rest1"
    using recall_layer_trace by blast
  show ?thesis
  proof (cases "l_enabled (procedural cfg) \<and> (l_alwaysRecall (procedural cfg) \<or> shouldRecallProcedural (toLowerCase e) p)")
    case True
    let ?r2 = "recall_layer (U ''procedures'') (U ''procedural'') (\<lambda>entries. formatProceduralContext entries stats) (procedural cfg) e p (snd ?r1)"
    obtain rest2 where r2: "snd ?r2 = snd ?r1 @ Embed p # rest2"
      using recall_layer_trace by blast
    have "snd (before_agent_start_epiproc cfg e stats (Some p) tr) = snd ?r2"
      using assms True
      by (auto simp: prompt_too_short_def before_agent_start_epiproc_def Let_def split: prod.splits)
    then show ?thesis using r1 r2 by simp
  next
    case False
    have "snd (before_agent_start_epiproc cfg e stats (Some p) tr) = snd ?r1"
      using assms False
      by (auto simp: prompt_too_short_def before_agent_start_epiproc_def Let_def split: prod.splits)
    then show ?thesis using r1 by simp
  qed
qed

text \<open>
  C8. The recall gate tests the length first: for every query that is missing, empty
  or shorter than the minimum of the layer (3 characters for the goal, timeline, graph
  and entity layers, 5 for the episodic/procedural layers), the recall handler returns
  at once, with no embedding call (no action at all is added to the trace) and no
  injected context, whatever the configuration, \<open>alwaysRecall\<close> included. For a query
  that passes the length test, \<open>alwaysRecall\<close> makes the handler call the embedding
  provider.
\<close>

theorem recall_gate_length_first:
  "(prompt_too_short 3 prompt \<longrightarrow>
        before_agent_start_goal gcfg ge prompt gtr = (Inr None, gtr)
      \<and> before_agent_start_timeline formatIso tcfg te prompt ttr = (Inr None, ttr)
      \<and> before_agent_start_graph xcfg xe prompt xtr = (Inr None, xtr)
      \<and> before_agent_start_entity ncfg ne index prompt ntr = (Inr None, ntr))
   \<and> (prompt_too_short 5 prompt \<longrightarrow>
        before_agent_start_epiproc ecfg ee stats prompt etr = (Inr None, etr))
   \<and> (\<not> prompt_too_short 3 (Some p) \<and> g_alwaysRecall gcfg \<longrightarrow>
        (\<exists>rest. snd (before_agent_start_goal gcfg ge (Some p) gtr) = gtr @ Embed p # rest))
   \<and> (\<not> prompt_too_short 5 (Some p) \<and> l_enabled (episodic ecfg) \<and> l_alwaysRecall (episodic ecfg) \<longrightarrow>
        (\<exists>rest. snd (before_agent_start_epiproc ecfg ee stats (Some p) etr) = etr @ Embed p # rest))"
proof -
  have a: "prompt_too_short 3 prompt \<longrightarrow>
        before_agent_start_goal gcfg ge prompt gtr = (Inr None, gtr)
      \<and> before_agent_start_timeline formatIso tcfg te prompt ttr = (Inr None, ttr)
      \<and> before_agent_start_graph xcfg xe prompt xtr = (Inr None, xtr)
      \<and> before_agent_start_entity ncfg ne index prompt ntr = (Inr None, ntr)"
    by (auto simp: prompt_too_short_def before_agent_start_goal_def before_agent_start_timeline_def
        before_agent_start_graph_def before_agent_start_entity_def split: option.splits)
  have b: "prompt_too_short 5 prompt \<longrightarrow> before_agent_start_epiproc ecfg ee stats prompt etr = (Inr None, etr)"
    by (auto simp: prompt_too_short_def before_agent_start_epiproc_def split: option.splits)
  from a b goal_recall_embeds[of p gcfg ge gtr] epiproc_recall_embeds[of p ecfg ee stats etr]
  show ?thesis by blast
qed

theorem recall_gate_length_first_witness:
  "prompt_too_short 3 (Some (U ''hi''))
   \<and> before_agent_start_goal
        \<lparr>g_recallLimit = 4, g_minScore = 0.5, g_halfLifeDays = 30, g_alwaysRecall = True,
         g_maxChars = 1200, g_redaction_enabled = True\<rparr>
        (quiet_env :: (nat, nat goal_row, goal_found) env) (Some (U ''hi'')) [] = (Inr None, [])
   \<and> prompt_too_short 5 (Some (U ''plan''))
   \<and> before_agent_start_epiproc
        \<lparr>episodic = \<lparr>l_enabled = True, l_alwaysRecall = True, l_recallLimit = 3, l_minScore = 0.45,
                      l_halfLifeDays = 14\<rparr>,
         procedural = \<lparr>l_enabled = True, l_alwaysRecall = True, l_recallLimit = 3, l_minScore = 0.4,
                      l_halfLifeDays = 60\<rparr>\<rparr>
        (quiet_env :: (nat, nat, epiproc_found) env) Map.empty (Some (U ''plan'')) [] = (Inr None, [])
   \<and> \<not> prompt_too_short 3 (Some (U ''my goals''))
   \<and> snd (before_agent_start_goal
        \<lparr>g_recallLimit = 4, g_minScore = 0.5, g_halfLifeDays = 30, g_alwaysRecall = True,
         g_maxChars = 1200, g_redaction_enabled = True\<rparr>
        (quiet_env :: (nat, nat goal_row, goal_found) env) (Some (U ''my goals'')) [])
       = [Embed (U ''my goals''), Search (U ''goals'') 0 12]"
proof -
  let ?gcfg = "\<lparr>g_recallLimit = 4, g_minScore = 0.5, g_halfLifeDays = 30, g_alwaysRecall = True,
         g_maxChars = 1200, g_redaction_enabled = True\<rparr>"
  let ?ecfg = "\<lparr>episodic = \<lparr>l_enabled = True, l_alwaysRecall = True, l_recallLimit = 3, l_minScore = 0.45,
                      l_halfLifeDays = 14\<rparr>,
         procedural = \<lparr>l_enabled = True, l_alwaysRecall = True, l_recallLimit = 3, l_minScore = 0.4,
                      l_halfLifeDays = 60\<rparr>\<rparr>"
  have s3: "prompt_too_short 3 (Some (U ''hi''))" by (simp add: prompt_too_short_def U_def)
  have s5: "prompt_too_short 5 (Some (U ''plan''))" by (simp add: prompt_too_short_def U_def)
  have l3: "\<not> prompt_too_short 3 (Some (U ''my goals''))" by (simp add: prompt_too_short_def U_def)
  from recall_gate_length_first
    [where prompt = "Some (U ''hi'')" and gcfg = ?gcfg
       and ge = "quiet_env :: (nat, nat goal_row, goal_found) env" and gtr = "[]"] s3
  have g: "before_agent_start_goal ?gcfg (quiet_env :: (nat, nat goal_row, goal_found) env)
             (Some (U ''hi'')) [] = (Inr None, [])"
    by blast
  from recall_gate_length_first
    [where prompt = "Some (U ''plan'')" and ecfg = ?ecfg
       and ee = "quiet_env :: (nat, nat, epiproc_found) env" and stats = Map.empty and etr = "[]"] s5
  have e: "before_agent_start_epiproc ?ecfg (quiet_env :: (nat, nat, epiproc_found) env) Map.empty
             (Some (U ''plan'')) [] = (Inr None, [])"
    by blast
  have r: "snd (before_agent_start_goal ?gcfg (quiet_env :: (nat, nat goal_row, goal_found) env)
             (Some (U ''my goals'')) []) = [Embed (U ''my goals''), Search (U ''goals'') 0 12]"
    by (simp add: before_agent_start_goal_def quiet_env_def goal_rescored_def js_slice0_def U_def)
  from s3 g s5 e l3 r show ?thesis by blast
qed

section \<open>Failures of external calls\<close>

text \<open>
  The handlers that wrap their external calls in \<open>try\<close> return normally whatever the
  embedding provider and the vector store do: the capture handlers of the goal and
  timeline plugins and the five recall handlers.
\<close>

lemma goal_capture_returns: "fst (agent_end_goal parseGoals gcfg ge event gtr) = Inr ()"
  by (simp add: agent_end_goal_def split: option.splits)

lemma timeline_capture_returns: "fst (agent_end_timeline pd fmt tcfg te event ttr) = Inr ()"
  by (simp add: agent_end_timeline_def split: option.splits)

lemma goal_recall_returns: "\<exists>c. fst (before_agent_start_goal gcfg ge prompt gtr) = Inr c"
  by (simp add: before_agent_start_goal_def Let_def split: option.splits sum.splits)

lemma timeline_recall_returns: "\<exists>c. fst (before_agent_start_timeline fmt tcfg te prompt ttr) = Inr c"
  by (simp add: before_agent_start_timeline_def Let_def split: option.splits sum.splits)

lemma graph_recall_returns: "\<exists>c. fst (before_agent_start_graph xcfg xe prompt xtr) = Inr c"
  by (simp add: before_agent_start_graph_def Let_def split: option.splits sum.splits)

lemma entity_recall_returns: "\<exists>c. fst (before_agent_start_entity ncfg ne index prompt ntr) = Inr c"
  by (simp add: before_agent_start_entity_def Let_def split: option.splits prod.splits)

lemma epiproc_recall_returns: "\<exists>c. fst (before_agent_start_epiproc ecfg ee stats prompt etr) = Inr c"
  by (simp add: before_agent_start_epiproc_def Let_def split: option.splits prod.splits)

text \<open>
  C1 does not hold for the capture handler of the entity plugin: its two awaited
  calls are outside any \<open>try\<close>. Whenever the first text yields an entity with a name and
  the embedding of its summary fails, or the embedding succeeds and the store fails, the
  error leaves the handler (the promise the host awaits rejects), nothing is logged and
  the index is not saved.
\<close>

theorem agent_end_entity_propagates:
  assumes "collect_texts messages = raw # raws" and "extract raw = en # ens" and "en_name en \<noteq> []"
  shows "(embed e (length tr) (entity_summary cfg en) = Inl err \<longrightarrow>
            agent_end_entity extract cfg e index0 (Some messages) tr
              = (Inl err, tr @ [Embed (entity_summary cfg en)]))
         \<and> (embed e (length tr) (entity_summary cfg en) = Inr v
            \<and> store e (Suc (length tr)) (U ''entities'') (entity_row_of cfg (date_now e) en v) = Inl err \<longrightarrow>
            agent_end_entity extract cfg e index0 (Some messages) tr
              = (Inl err, tr @ [Embed (entity_summary cfg en),
                                Store (U ''entities'') (entity_row_of cfg (date_now e) en v)]))"
proof -
  from assms(1) have ne: "messages \<noteq> []" by auto
  have c: "concat (map extract (collect_texts messages)) = en # (ens @ concat (map extract raws))"
    using assms by simp
  show ?thesis
    using assms ne unfolding agent_end_entity_def c by simp
qed

theorem agent_end_entity_propagates_witness:
  "collect_texts [Some \<lparr>role = U ''user'', content = CString (U ''client: Acme Corp'')\<rparr>]
     = [U ''client: Acme Corp'']
   \<and> agent_end_entity
        (\<lambda>raw. [\<lparr>en_type = U ''client'', en_name = U ''Acme Corp'', en_details = []\<rparr>])
        \<lparr>e_recallLimit = 4, e_minScore = 0.6, e_alwaysRecall = False, e_maxChars = 1200,
         e_redaction_enabled = True\<rparr>
        (refusing_env :: (nat, nat entity_row, entity_found) env) []
        (Some [Some \<lparr>role = U ''user'', content = CString (U ''client: Acme Corp'')\<rparr>]) []
     = (Inl (ExternalCallError (U ''Connection error.'')),
        [Embed (U ''Entity: Acme Corp'' @ [10] @ U ''Type: client'' @ [10] @ U ''Details: '')])"
proof -
  let ?msgs = "[Some \<lparr>role = U ''user'', content = CString (U ''client: Acme Corp'')\<rparr>]"
  let ?en = "\<lparr>en_type = U ''client'', en_name = U ''Acme Corp'', en_details = []\<rparr>"
  let ?cfg = "\<lparr>e_recallLimit = 4, e_minScore = 0.6, e_alwaysRecall = False, e_maxChars = 1200,
         e_redaction_enabled = True\<rparr>"
  let ?e = "refusing_env :: (nat, nat entity_row, entity_found) env"
  have t: "collect_texts ?msgs = U ''client: Acme Corp'' # []"
    by (simp add: extractTextContent_def U_def)
  have x: "(\<lambda>raw. [?en]) (U ''client: Acme Corp'') = ?en # []" by simp
  have n: "en_name ?en \<noteq> []" by (simp add: U_def)
  have f: "embed ?e (length []) (entity_summary ?cfg ?en) = Inl (ExternalCallError (U ''Connection error.''))"
    by (simp add: refusing_env_def)
  have s: "entity_summary ?cfg ?en = U ''Entity: Acme Corp'' @ [10] @ U ''Type: client'' @ [10] @ U ''Details: ''"
    by (simp add: entity_summary_def truncate_def redactSensitive_def patterns_def pattern_defs rx_simps)
  from agent_end_entity_propagates [OF t x n, of ?e "[]" ?cfg] f
  have "agent_end_entity (\<lambda>raw. [?en]) ?cfg ?e [] (Some ?msgs) []
          = (Inl (ExternalCallError (U ''Connection error.'')), [] @ [Embed (entity_summary ?cfg ?en)])"
    by blast
  then have a: "agent_end_entity (\<lambda>raw. [?en]) ?cfg ?e [] (Some ?msgs) []
          = (Inl (ExternalCallError (U ''Connection error.'')),
             [Embed (U ''Entity: Acme Corp'' @ [10] @ U ''Type: client'' @ [10] @ U ''Details: '')])"
    unfolding s by simp
  from t a show ?thesis by simp
qed


text \<open>
  The goal plugin, in the same situation, logs the failure and returns.
\<close>

lemma agent_end_goal_logs_failure:
  "agent_end_goal
        (\<lambda>raw. [\<lparr>goal_goal = U ''ship v2'', goal_status = U ''active'', goal_priority = [],
                  goal_owner = [], goal_details = []\<rparr>])
        \<lparr>g_recallLimit = 4, g_minScore = 0.5, g_halfLifeDays = 30, g_alwaysRecall = False,
         g_maxChars = 1200, g_redaction_enabled = True\<rparr>
        (refusing_env :: (nat, nat goal_row, goal_found) env)
        (Some [Some \<lparr>role = U ''user'', content = CString (U ''goal: ship v2'')\<rparr>]) []
     = (Inr (),
        [Embed (U ''Goal: ship v2'' @ [10] @ U ''Status: active'' @ [10] @ U ''Priority: '' @ [10]
                  @ U ''Owner: '' @ [10] @ U ''Details: ''),
         Warn (U ''memory-goal: capture failed: Error: Connection error.'')])"
proof -
  let ?g = "\<lparr>goal_goal = U ''ship v2'', goal_status = U ''active'', goal_priority = [],
                  goal_owner = [], goal_details = []\<rparr>"
  let ?gcfg = "\<lparr>g_recallLimit = 4, g_minScore = 0.5, g_halfLifeDays = 30, g_alwaysRecall = False,
         g_maxChars = 1200, g_redaction_enabled = True\<rparr>"
  let ?e = "refusing_env :: (nat, nat goal_row, goal_found) env"
  let ?msgs = "[Some \<lparr>role = U ''user'', content = CString (U ''goal: ship v2'')\<rparr>]"
  have gs: "goal_summary ?gcfg ?g = U ''Goal: ship v2'' @ [10] @ U ''Status: active'' @ [10] @ U ''Priority: '' @ [10]
                  @ U ''Owner: '' @ [10] @ U ''Details: ''"
    by (simp add: goal_summary_def truncate_def redactSensitive_def patterns_def pattern_defs rx_simps)
  have gt: "collect_texts ?msgs = [U ''goal: ship v2'']"
    by (simp add: extractTextContent_def U_def)
  have ne: "goal_goal ?g \<noteq> []" by (simp add: U_def)
  have w: "U ''memory-goal: capture failed: '' @ err_string (ExternalCallError (U ''Connection error.''))
           = U ''memory-goal: capture failed: Error: Connection error.''"
    by (simp add: err_string_def U_def)
  have loop: "goal_capture_loop ?gcfg ?e [] [?g] [] =
      [Embed (goal_summary ?gcfg ?g),
       Warn (U ''memory-goal: capture failed: '' @ err_string (ExternalCallError (U ''Connection error.'')))]"
    using ne by (simp add: refusing_env_def)
  have "agent_end_goal (\<lambda>raw. [?g]) ?gcfg ?e (Some ?msgs) [] = (Inr (), goal_capture_loop ?gcfg ?e [] [?g] [])"
    unfolding agent_end_goal_def
    by (simp add: gt del: goal_capture_loop.simps collect_texts.simps)
  then show ?thesis unfolding loop gs w .
qed

section \<open>Redaction on the capture paths\<close>

lemma extract_leak:
  "extractEvents (U ''event: rotated token=abcdef123456'') = [U ''rotated token=abcdef123456'']"
  by (simp add: extractEvents_def rx_simps colon_dash_def dot_def js_trim_def js_trimStart_def
      js_trimEnd_def)

lemma summary_leak:
  "timeline_summary (\<lambda>t. None) (\<lambda>t. U ''2026-11-02T00:00:00.000Z'') 1200 1793577600000
     (U ''rotated token=abcdef123456'') = leak_summary"
  by (simp add: timeline_summary_def timeline_occurredAt_def truncate_def leak_summary_def U_def)

lemma redact_leak:
  "redactSensitive leak_summary True = U ''Event: rotated [redacted]'' @ [10]
     @ U ''Occurred: 2026-11-02T00:00:00.000Z'' @ [10] @ U ''Recorded: 2026-11-02T00:00:00.000Z''"
  by (simp add: leak_summary_def redactSensitive_def patterns_def pattern_defs rx_simps)

text \<open>
  C2 does not hold for the timeline plugin: its capture handler never calls
  \<open>redactSensitive\<close> and the plugin has no redaction setting. Whenever the one captured text
  yields one event and both external calls succeed, the text sent to the embedding
  provider and the \<open>text\<close> of the row written to the vector store are the summary built
  from the event as extracted, only truncated. For the user message
  \<open>event: rotated token=abcdef123456\<close> both carry the token, which redaction would have
  masked.
\<close>

theorem agent_end_timeline_unredacted:
  assumes "collect_texts messages = [raw]" and "extractEvents raw = [evt]" and "evt \<noteq> []"
    and "embed e (length tr) (timeline_summary pd fmt (t_maxChars cfg) (date_now e) evt) = Inr v"
    and "store e (Suc (length tr)) (U ''timeline'')
           (timeline_row_of pd fmt (t_maxChars cfg) (date_now e) evt v) = Inr ()"
  shows "agent_end_timeline pd fmt cfg e (Some messages) tr
           = (Inr (),
              tr @ [Embed (timeline_summary pd fmt (t_maxChars cfg) (date_now e) evt),
                    Store (U ''timeline'') (timeline_row_of pd fmt (t_maxChars cfg) (date_now e) evt v)])
         \<and> tr_text (timeline_row_of pd fmt (t_maxChars cfg) (date_now e) evt v)
             = timeline_summary pd fmt (t_maxChars cfg) (date_now e) evt
         \<and> timeline_summary pd fmt (t_maxChars cfg) (date_now e) evt
             = truncate
                 (U ''Event: '' @ evt @ [10]
                    @ U ''Occurred: '' @ fmt (timeline_occurredAt pd (date_now e) evt) @ [10]
                    @ U ''Recorded: '' @ fmt (date_now e))
                 (t_maxChars cfg)"
proof -
  have m: "messages \<noteq> []" using assms(1) by auto
  have loop: "timeline_capture_loop pd fmt (t_maxChars cfg) e [evt] tr
      = tr @ [Embed (timeline_summary pd fmt (t_maxChars cfg) (date_now e) evt),
              Store (U ''timeline'') (timeline_row_of pd fmt (t_maxChars cfg) (date_now e) evt v)]"
    using assms(3,4,5) by simp
  have "agent_end_timeline pd fmt cfg e (Some messages) tr
      = (Inr (), timeline_capture_loop pd fmt (t_maxChars cfg) e [evt] tr)"
    unfolding agent_end_timeline_def using m
    by (simp add: assms(1,2) del: timeline_capture_loop.simps collect_texts.simps)
  then show ?thesis
    unfolding loop by (simp add: timeline_row_of_def timeline_summary_def)
qed

theorem agent_end_timeline_unredacted_witness:
  "agent_end_timeline (\<lambda>t. None) (\<lambda>t. U ''2026-11-02T00:00:00.000Z'')
      \<lparr>t_recallLimit = 4, t_minScore = 0.45, t_halfLifeDays = 45, t_alwaysRecall = False, t_maxChars = 1200\<rparr>
      (quiet_env :: (nat, nat timeline_row, timeline_found) env)
      (Some [Some \<lparr>role = U ''user'', content = CString (U ''event: rotated token=abcdef123456'')\<rparr>]) []
    = (Inr (),
       [Embed leak_summary,
        Store (U ''timeline'')
          \<lparr>tr_text = leak_summary, tr_vector = 0, tr_occurredAt = 1793577600000,
           tr_recordedAt = 1793577600000,
           tr_meta = \<lparr>tm_event = U ''rotated token=abcdef123456'', tm_occurredAt = 1793577600000,
                      tm_recordedAt = 1793577600000\<rparr>\<rparr>])
   \<and> redactSensitive leak_summary True \<noteq> leak_summary"
proof -
  let ?pd = "\<lambda>t::jstring. None :: int option"
  let ?fmt = "\<lambda>t::int. U ''2026-11-02T00:00:00.000Z''"
  let ?e = "quiet_env :: (nat, nat timeline_row, timeline_found) env"
  let ?evt = "U ''rotated token=abcdef123456''"
  let ?cfg = "\<lparr>t_recallLimit = 4, t_minScore = 0.45, t_halfLifeDays = 45, t_alwaysRecall = False,
      t_maxChars = 1200\<rparr>"
  let ?msgs = "[Some \<lparr>role = U ''user'', content = CString (U ''event: rotated token=abcdef123456'')\<rparr>]"
  have t: "collect_texts ?msgs = [U ''event: rotated token=abcdef123456'']"
    by (simp add: extractTextContent_def U_def)
  have ne: "?evt \<noteq> []" by (simp add: U_def)
  have now: "date_now ?e = 1793577600000" by (simp add: quiet_env_def)
  have emb: "embed ?e (length ([] :: (nat, nat timeline_row) call list))
      (timeline_summary ?pd ?fmt (t_maxChars ?cfg) (date_now ?e) ?evt) = Inr 0"
    by (simp add: quiet_env_def)
  have st: "store ?e (Suc (length ([] :: (nat, nat timeline_row) call list))) (U ''timeline'')
      (timeline_row_of ?pd ?fmt (t_maxChars ?cfg) (date_now ?e) ?evt 0) = Inr ()"
    by (simp add: quiet_env_def)
  have mc: "t_maxChars ?cfg = 1200" by simp
  have row: "timeline_row_of ?pd ?fmt 1200 1793577600000 ?evt (0::nat) =
      \<lparr>tr_text = leak_summary, tr_vector = 0, tr_occurredAt = 1793577600000,
       tr_recordedAt = 1793577600000,
       tr_meta = \<lparr>tm_event = ?evt, tm_occurredAt = 1793577600000, tm_recordedAt = 1793577600000\<rparr>\<rparr>"
    unfolding timeline_row_of_def summary_leak by (simp add: timeline_occurredAt_def)
  from agent_end_timeline_unredacted [OF t extract_leak ne emb st]
  have "agent_end_timeline ?pd ?fmt ?cfg ?e (Some ?msgs) []
      = (Inr (),
         [] @ [Embed (timeline_summary ?pd ?fmt (t_maxChars ?cfg) (date_now ?e) ?evt),
               Store (U ''timeline'') (timeline_row_of ?pd ?fmt (t_maxChars ?cfg) (date_now ?e) ?evt 0)])"
    by blast
  then have a: "agent_end_timeline ?pd ?fmt ?cfg ?e (Some ?msgs) [] = (Inr (),
       [Embed leak_summary,
        Store (U ''timeline'')
          \<lparr>tr_text = leak_summary, tr_vector = 0, tr_occurredAt = 1793577600000,
           tr_recordedAt = 1793577600000,
           tr_meta = \<lparr>tm_event = ?evt, tm_occurredAt = 1793577600000, tm_recordedAt = 1793577600000\<rparr>\<rparr>])"
    unfolding mc now row summary_leak append_Nil .
  have b: "redactSensitive leak_summary True \<noteq> leak_summary"
    unfolding redact_leak by (simp add: leak_summary_def U_def)
  from a b show ?thesis by blast
qed

text \<open>
  The goal plugin redacts the summary it embeds and stores as \<open>text\<close>; the \<open>meta\<close> member
  of the same row keeps the goal as it was captured.
\<close>

lemma goal_summary_redacts:
  "goal_summary
     \<lparr>g_recallLimit = 4, g_minScore = 0.5, g_halfLifeDays = 30, g_alwaysRecall = False,
      g_maxChars = 1200, g_redaction_enabled = True\<rparr>
     \<lparr>goal_goal = U ''rotate token=abcdef123456'', goal_status = U ''active'', goal_priority = [],
      goal_owner = [], goal_details = []\<rparr>
   = U ''Goal: rotate [redacted]'' @ [10] @ U ''Status: active'' @ [10] @ U ''Priority: '' @ [10]
       @ U ''Owner: '' @ [10] @ U ''Details: ''"
  by (simp add: goal_summary_def truncate_def redactSensitive_def patterns_def pattern_defs rx_simps)

lemma goal_row_meta_raw:
  "gr_text (goal_row_of cfg now g v) = goal_summary cfg g
   \<and> gm_goal (gr_meta (goal_row_of cfg now g v)) = goal_goal g"
  by (simp add: goal_row_of_def)

end
